(* ===== verification/Prelude.thy ===== *)
theory Prelude
  imports Complex_Main "HOL-Library.Sublist"
begin

text \<open>
  Shared vocabulary of the development: Go integers with their wrap-around, the functions of
  Go's package \<^verbatim>\<open>strings\<close> the gateway uses, decimal rendering, and the generic lemmas on lists
  and options that several components need.  A Go \<^verbatim>\<open>string\<close> is a byte sequence; it is an
  Isabelle \<open>string\<close> here, whose characters are bytes.
\<close>

named_theorems go_text \<open>unfolding rules for the string functions\<close>
named_theorems ok_iff \<open>inversion rules: when a fallible operation returns a result\<close>

type_synonym go_time = int \<comment> \<open>\<^verbatim>\<open>time.Time\<close>: nanoseconds since the Unix epoch\<close>
type_synonym duration = int \<comment> \<open>\<^verbatim>\<open>time.Duration\<close>: nanoseconds\<close>
type_synonym error_text = string \<comment> \<open>what \<^verbatim>\<open>err.Error()\<close> returns\<close>

subsection \<open>Machine integers\<close>

text \<open>\<^verbatim>\<open>int\<close> and \<^verbatim>\<open>int64\<close> are 64 bits wide, \<^verbatim>\<open>int32\<close> is 32 bits wide; both wrap around.\<close>

definition wrap :: "nat \<Rightarrow> int \<Rightarrow> int" where
  "wrap w i = (i + 2 ^ (w - 1)) mod 2 ^ w - 2 ^ (w - 1)"

abbreviation int64 :: "int \<Rightarrow> int" where
  "int64 \<equiv> wrap 64"

abbreviation int32 :: "int \<Rightarrow> int" where
  "int32 \<equiv> wrap 32"

lemma wrap_id:
  assumes "0 < w" and "- (2 ^ (w - 1)) \<le> i" and "i < 2 ^ (w - 1)"
  shows "wrap w i = i"
proof -
  have "(2::int) ^ w = 2 ^ (w - 1) + 2 ^ (w - 1)"
    using assms(1) by (cases w) auto
  then show ?thesis using assms(2,3) by (simp add: wrap_def)
qed

lemma wrap_range:
  assumes "0 < w"
  shows "- (2 ^ (w - 1)) \<le> wrap w i" and "wrap w i < 2 ^ (w - 1)"
proof -
  have "(2::int) ^ w = 2 ^ (w - 1) + 2 ^ (w - 1)"
    using assms by (cases w) auto
  moreover have "0 \<le> (i + 2 ^ (w - 1)) mod 2 ^ w" and "(i + 2 ^ (w - 1)) mod 2 ^ w < 2 ^ w"
    by simp_all
  ultimately show "- (2 ^ (w - 1)) \<le> wrap w i" and "wrap w i < 2 ^ (w - 1)"
    by (simp_all add: wrap_def)
qed

lemma int64_id: "- 9223372036854775808 \<le> i \<Longrightarrow> i < 9223372036854775808 \<Longrightarrow> int64 i = i"
  by (rule wrap_id) simp_all

lemma int32_id: "- 2147483648 \<le> i \<Longrightarrow> i < 2147483648 \<Longrightarrow> int32 i = i"
  by (rule wrap_id) simp_all

definition second :: duration where
  "second = 1000000000"

definition millisecond :: duration where
  "millisecond = 1000000"

text \<open>\<^verbatim>\<open>Duration.Milliseconds\<close>: integer division that truncates towards zero.\<close>

definition Milliseconds :: "duration \<Rightarrow> int" where
  "Milliseconds d = (if d < 0 then - ((- d) div millisecond) else d div millisecond)"

subsection \<open>Contexts\<close>

text \<open>
  A \<^verbatim>\<open>context.Context\<close> is what its method \<^verbatim>\<open>Err\<close> answers at each moment.  \<^verbatim>\<open>WithTimeout\<close> ends it at a
  deadline unless its parent has ended before; \<^verbatim>\<open>WithCancel\<close> ends it when \<^verbatim>\<open>cancel\<close> is called.
\<close>

type_synonym context_err = "go_time \<Rightarrow> error_text option"

definition Background :: context_err where
  "Background = (\<lambda>_. None)"

definition deadline_exceeded :: error_text where
  "deadline_exceeded = ''context deadline exceeded''"

definition context_canceled :: error_text where
  "context_canceled = ''context canceled''"

definition end_context :: "context_err \<Rightarrow> go_time \<Rightarrow> error_text \<Rightarrow> context_err" where
  "end_context ctx moment why =
     (\<lambda>t. if t < moment then ctx t else (case ctx moment of Some e \<Rightarrow> Some e | None \<Rightarrow> Some why))"

definition WithTimeout :: "context_err \<Rightarrow> go_time \<Rightarrow> duration \<Rightarrow> context_err" where
  "WithTimeout ctx now d = end_context ctx (now + d) deadline_exceeded"

definition WithCancel :: "context_err \<Rightarrow> go_time option \<Rightarrow> context_err" where
  "WithCancel ctx cancelled =
     (case cancelled of None \<Rightarrow> ctx | Some moment \<Rightarrow> end_context ctx moment context_canceled)"

subsection \<open>Package strings\<close>

definition has_prefix :: "string \<Rightarrow> string \<Rightarrow> bool" where
  "has_prefix s p = prefix p s"

definition has_suffix :: "string \<Rightarrow> string \<Rightarrow> bool" where
  "has_suffix s p = suffix p s"

definition trim_prefix :: "string \<Rightarrow> string \<Rightarrow> string" where
  "trim_prefix s p = (if prefix p s then drop (length p) s else s)"

definition trim_suffix :: "string \<Rightarrow> string \<Rightarrow> string" where
  "trim_suffix s p = (if suffix p s then take (length s - length p) s else s)"

fun contains :: "string \<Rightarrow> string \<Rightarrow> bool" where
  "contains [] p = (p = [])"
| "contains (c # s) p = (prefix p (c # s) \<or> contains s p)"

definition contains_any :: "string \<Rightarrow> string \<Rightarrow> bool" where
  "contains_any s chars = list_ex (\<lambda>c. c \<in> set chars) s"

text \<open>
  \<^verbatim>\<open>strings.ToLower\<close> on the bytes of a text whose non-ASCII letters have no case (the Korean
  messages of the gateway): only \<^verbatim>\<open>A\<close> to \<^verbatim>\<open>Z\<close> change.
\<close>

definition lower_char :: "char \<Rightarrow> char" where
  "lower_char c = (let n = (of_char c :: nat) in if 65 \<le> n \<and> n \<le> 90 then char_of (n + 32) else c)"

definition to_lower :: "string \<Rightarrow> string" where
  "to_lower s = map lower_char s"

fun join :: "string \<Rightarrow> string list \<Rightarrow> string" where
  "join sep [] = []"
| "join sep [s] = s"
| "join sep (s # t # ss) = s @ sep @ join sep (t # ss)"

function replace_all :: "string \<Rightarrow> string \<Rightarrow> string \<Rightarrow> string" where
  "replace_all s old new =
     (case s of [] \<Rightarrow> []
      | c # s' \<Rightarrow>
          if old \<noteq> [] \<and> prefix old s then new @ replace_all (drop (length old) s) old new
          else c # replace_all s' old new)"
  by pat_completeness auto
termination
  by (relation "measure (\<lambda>(s, old, new). length s)") auto

declare replace_all.simps [simp del]

text \<open>\<^verbatim>\<open>strings.Replace(s, old, new, 1)\<close>: the first occurrence only.\<close>

fun replace_first :: "string \<Rightarrow> string \<Rightarrow> string \<Rightarrow> string" where
  "replace_first [] old new = []"
| "replace_first (c # s) old new =
     (if prefix old (c # s) then new @ drop (length old) (c # s)
      else c # replace_first s old new)"

text \<open>\<^verbatim>\<open>strings.TrimSpace\<close>, for the ASCII white space characters.\<close>

definition is_space :: "char \<Rightarrow> bool" where
  "is_space c = (let n = (of_char c :: nat) in n = 32 \<or> 9 \<le> n \<and> n \<le> 13)"

definition trim_space :: "string \<Rightarrow> string" where
  "trim_space s = rev (dropWhile is_space (rev (dropWhile is_space s)))"

text \<open>\<^verbatim>\<open>strings.Split\<close> at one byte.\<close>

fun split_at :: "char \<Rightarrow> string \<Rightarrow> string list" where
  "split_at sep [] = [[]]"
| "split_at sep (c # s) =
     (if c = sep then [] # split_at sep s
      else (case split_at sep s of [] \<Rightarrow> [[c]] | t # ts \<Rightarrow> (c # t) # ts))"

text \<open>Bytes written as numbers, for the texts of the source that are not ASCII.\<close>

definition bytes :: "nat list \<Rightarrow> string" where
  "bytes ns = map char_of ns"

text \<open>The byte 10, and \<^verbatim>\<open>%d\<close>.\<close>

definition newline :: string where
  "newline = bytes [10]"

fun show_nat :: "nat \<Rightarrow> string" where
  "show_nat n = (if n < 10 then [char_of (48 + n)] else show_nat (n div 10) @ [char_of (48 + n mod 10)])"

declare show_nat.simps [simp del]

definition show_int :: "int \<Rightarrow> string" where
  "show_int i = (if i < 0 then CHR ''-'' # show_nat (nat (- i)) else show_nat (nat i))"

text \<open>
  \<^verbatim>\<open>%q\<close>: the text in double quotes, with Go's escapes.  Bytes above 127 belong to printable
  characters and stay as they are.
\<close>

definition hex_digit :: "nat \<Rightarrow> char" where
  "hex_digit n = char_of (if n < 10 then 48 + n else 87 + n)"

definition quote_char :: "char \<Rightarrow> string" where
  "quote_char c =
     (let n = (of_char c :: nat); esc = char_of (92 :: nat) in
      if n = 34 \<or> n = 92 then [esc, c]
      else if n = 7 then [esc, CHR ''a''] else if n = 8 then [esc, CHR ''b'']
      else if n = 12 then [esc, CHR ''f''] else if n = 10 then [esc, CHR ''n'']
      else if n = 13 then [esc, CHR ''r''] else if n = 9 then [esc, CHR ''t'']
      else if n = 11 then [esc, CHR ''v'']
      else if n < 32 \<or> n = 127 then [esc, CHR ''x'', hex_digit (n div 16), hex_digit (n mod 16)]
      else [c])"

definition quote :: "string \<Rightarrow> string" where
  "quote s = bytes [34] @ concat (map quote_char s) @ bytes [34]"

subsection \<open>Facts about the string functions\<close>

lemma contains_iff_sublist: "contains s p \<longleftrightarrow> sublist p s"
  by (induction s) (auto simp: sublist_Cons_right)

lemma contains_append: "contains s p \<Longrightarrow> contains (a @ s @ b) p"
  by (simp add: contains_iff_sublist sublist_append)

lemma contains_prefixI: "prefix p s \<Longrightarrow> contains s p"
  by (simp add: contains_iff_sublist)

lemma contains_code [go_text]: "contains s p \<longleftrightarrow> (\<exists>a b. s = a @ p @ b)"
  by (simp add: contains_iff_sublist sublist_def)

lemma to_lower_append [simp]: "to_lower (a @ b) = to_lower a @ to_lower b"
  by (simp add: to_lower_def)

lemma length_to_lower [simp]: "length (to_lower s) = length s"
  by (simp add: to_lower_def)

lemma lower_char_idem [simp]: "lower_char (lower_char c) = lower_char c"
  by (auto simp: lower_char_def Let_def)

lemma to_lower_idem [simp]: "to_lower (to_lower s) = to_lower s"
  by (simp add: to_lower_def)

lemma contains_to_lower: "contains s p \<Longrightarrow> contains (to_lower s) (to_lower p)"
  by (auto simp: contains_code) (metis to_lower_append)

lemma trim_suffix_append [simp]: "trim_suffix (s @ p) p = s"
  by (auto simp: trim_suffix_def suffix_def)

lemma has_suffix_trim: "has_suffix s p \<Longrightarrow> trim_suffix s p @ p = s"
  by (auto simp: has_suffix_def trim_suffix_def suffix_def)

lemma prefix_eq_take: "prefix p s \<longleftrightarrow> length p \<le> length s \<and> take (length p) s = p"
  by (metis append_eq_conv_conj append_take_drop_id prefixE prefixI prefix_length_le)

text \<open>Two prefixes of one string with the same length are the same string.\<close>

lemma prefix_same_length: "prefix a s \<Longrightarrow> prefix b s \<Longrightarrow> length a = length b \<Longrightarrow> a = b"
  by (metis prefix_eq_take)

lemma show_nat_neq_Nil [simp]: "show_nat n \<noteq> []"
  by (subst show_nat.simps) simp

lemma join_append:
  "xs \<noteq> [] \<Longrightarrow> ys \<noteq> [] \<Longrightarrow> join sep (xs @ ys) = join sep xs @ sep @ join sep ys"
proof (induction xs rule: induct_list012)
  case (2 x)
  then show ?case by (cases ys) auto
qed auto

subsection \<open>Lists and options\<close>

lemma foldl_invariant:
  assumes "P s" and "\<And>s x. P s \<Longrightarrow> x \<in> set xs \<Longrightarrow> P (f s x)"
  shows "P (foldl f s xs)"
  using assms by (induction xs arbitrary: s) auto

definition sum_case_ok :: "'e + 'a \<Rightarrow> bool" where
  "sum_case_ok r = (case r of Inl _ \<Rightarrow> False | Inr _ \<Rightarrow> True)"

lemma sum_case_ok_simps [simp]: "sum_case_ok (Inl e) = False" "sum_case_ok (Inr a) = True"
  by (simp_all add: sum_case_ok_def)

end
