(* ===== verification/CircuitBreaker.thy ===== *)
theory CircuitBreaker
  imports Prelude
begin

text \<open>
  \<^verbatim>\<open>internal/router/circuitbreaker.go\<close>: the circuit breaker each provider has.  The mutex makes
  every method atomic, so a method is a function from the breaker and the current time to the
  breaker after it (and its result).  The abstract specification keeps only what a state needs:
  the run of failures while closed, the time of the last failure while open, the number of
  successes while half-open; the concrete record refines it.
\<close>

subsection \<open>State and operations\<close>

datatype CircuitState = StateClosed | StateOpen | StateHalfOpen

definition state_string :: "CircuitState \<Rightarrow> string" where
  "state_string s = (case s of
     StateClosed \<Rightarrow> ''closed'' | StateOpen \<Rightarrow> ''open'' | StateHalfOpen \<Rightarrow> ''half-open'')"

record CircuitBreaker =
  cb_state :: CircuitState
  cb_failureCount :: int
  cb_successCount :: int
  cb_failureThreshold :: int
  cb_recoveryTimeout :: duration
  cb_halfOpenMax :: int
  cb_lastFailureTime :: go_time
  cb_providerName :: string

text \<open>The zero \<^verbatim>\<open>time.Time\<close> is the first of January of the year 1.\<close>

definition zero_time :: go_time where
  "zero_time = - 62135596800 * second"

definition NewCircuitBreaker :: "string \<Rightarrow> int \<Rightarrow> int \<Rightarrow> int \<Rightarrow> CircuitBreaker" where
  "NewCircuitBreaker providerName failureThreshold recoveryTimeoutSec halfOpenMax =
     \<lparr>cb_state = StateClosed, cb_failureCount = 0, cb_successCount = 0,
      cb_failureThreshold = failureThreshold,
      cb_recoveryTimeout = int64 (recoveryTimeoutSec * second),
      cb_halfOpenMax = halfOpenMax,
      cb_lastFailureTime = zero_time,
      cb_providerName = providerName\<rparr>"

definition Allow :: "go_time \<Rightarrow> CircuitBreaker \<Rightarrow> bool \<times> CircuitBreaker" where
  "Allow now cb = (case cb_state cb of
     StateClosed \<Rightarrow> (True, cb)
   | StateOpen \<Rightarrow>
       if now - cb_lastFailureTime cb \<ge> cb_recoveryTimeout cb
       then (True, cb\<lparr>cb_state := StateHalfOpen, cb_successCount := 0\<rparr>)
       else (False, cb)
   | StateHalfOpen \<Rightarrow> (True, cb))"

definition RecordSuccess :: "CircuitBreaker \<Rightarrow> CircuitBreaker" where
  "RecordSuccess cb = (case cb_state cb of
     StateClosed \<Rightarrow> cb\<lparr>cb_failureCount := 0\<rparr>
   | StateOpen \<Rightarrow> cb
   | StateHalfOpen \<Rightarrow>
       let cb' = cb\<lparr>cb_successCount := cb_successCount cb + 1\<rparr>
       in if cb_successCount cb' \<ge> cb_halfOpenMax cb'
          then cb'\<lparr>cb_state := StateClosed, cb_failureCount := 0, cb_successCount := 0\<rparr>
          else cb')"

definition RecordFailure :: "go_time \<Rightarrow> CircuitBreaker \<Rightarrow> CircuitBreaker" where
  "RecordFailure now cb =
     (let cb = cb\<lparr>cb_lastFailureTime := now\<rparr>
      in case cb_state cb of
           StateClosed \<Rightarrow>
             let cb' = cb\<lparr>cb_failureCount := cb_failureCount cb + 1\<rparr>
             in if cb_failureCount cb' \<ge> cb_failureThreshold cb'
                then cb'\<lparr>cb_state := StateOpen\<rparr> else cb'
         | StateOpen \<Rightarrow> cb
         | StateHalfOpen \<Rightarrow> cb\<lparr>cb_state := StateOpen, cb_successCount := 0\<rparr>)"

definition State :: "CircuitBreaker \<Rightarrow> CircuitState" where
  "State cb = cb_state cb"

record BreakerStats =
  bs_provider :: string
  bs_state :: string
  bs_failure_count :: int
  bs_success_count :: int

definition Stats :: "CircuitBreaker \<Rightarrow> BreakerStats" where
  "Stats cb = \<lparr>bs_provider = cb_providerName cb, bs_state = state_string (cb_state cb),
     bs_failure_count = cb_failureCount cb, bs_success_count = cb_successCount cb\<rparr>"

lemmas breaker_defs = Allow_def RecordSuccess_def RecordFailure_def Let_def

subsection \<open>Runs\<close>

lemma New_simps [simp]:
  "cb_state (NewCircuitBreaker p thr sec half) = StateClosed"
  "cb_failureCount (NewCircuitBreaker p thr sec half) = 0"
  "cb_successCount (NewCircuitBreaker p thr sec half) = 0"
  "cb_failureThreshold (NewCircuitBreaker p thr sec half) = thr"
  "cb_recoveryTimeout (NewCircuitBreaker p thr sec half) = int64 (sec * second)"
  "cb_halfOpenMax (NewCircuitBreaker p thr sec half) = half"
  by (simp_all add: NewCircuitBreaker_def)

text \<open>What can happen to a breaker, in the order the mutex gives it.\<close>

datatype cb_event = EAllow go_time | ESuccess | EFailure go_time

fun cb_step :: "CircuitBreaker \<Rightarrow> cb_event \<Rightarrow> CircuitBreaker" where
  "cb_step cb (EAllow now) = snd (Allow now cb)"
| "cb_step cb ESuccess = RecordSuccess cb"
| "cb_step cb (EFailure now) = RecordFailure now cb"

definition cb_run :: "CircuitBreaker \<Rightarrow> cb_event list \<Rightarrow> CircuitBreaker" where
  "cb_run = foldl cb_step"

text \<open>The answers of the \<^const>\<open>Allow\<close> calls of a run, in order.\<close>

fun cb_answers :: "CircuitBreaker \<Rightarrow> cb_event list \<Rightarrow> bool list" where
  "cb_answers cb [] = []"
| "cb_answers cb (EAllow now # es) = fst (Allow now cb) # cb_answers (snd (Allow now cb)) es"
| "cb_answers cb (e # es) = cb_answers (cb_step cb e) es"

lemma cb_run_simps [simp]:
  "cb_run cb [] = cb"
  "cb_run cb (e # es) = cb_run (cb_step cb e) es"
  "cb_run cb (es @ es') = cb_run (cb_run cb es) es'"
  by (simp_all add: cb_run_def)

subsection \<open>Configuration never changes, counters stay in range\<close>

lemma cb_step_config [simp]:
  "cb_failureThreshold (cb_step cb e) = cb_failureThreshold cb"
  "cb_recoveryTimeout (cb_step cb e) = cb_recoveryTimeout cb"
  "cb_halfOpenMax (cb_step cb e) = cb_halfOpenMax cb"
  "cb_providerName (cb_step cb e) = cb_providerName cb"
  by (cases e; auto simp: breaker_defs split: CircuitState.splits)+

lemmas cb_op_config [simp] =
  cb_step_config [of _ ESuccess, simplified] cb_step_config [of _ "EFailure t" for t, simplified]
  cb_step_config [of _ "EAllow t" for t, simplified]

lemma cb_run_config [simp]:
  "cb_failureThreshold (cb_run cb es) = cb_failureThreshold cb"
  "cb_recoveryTimeout (cb_run cb es) = cb_recoveryTimeout cb"
  "cb_halfOpenMax (cb_run cb es) = cb_halfOpenMax cb"
  by (induction es arbitrary: cb) simp_all

text \<open>
  The invariant: a closed breaker has seen fewer failures than its threshold, a half-open one
  fewer successes than it needs to close.
\<close>

definition cb_inv :: "CircuitBreaker \<Rightarrow> bool" where
  "cb_inv cb \<longleftrightarrow> 0 \<le> cb_failureCount cb \<and> 0 \<le> cb_successCount cb
     \<and> (case cb_state cb of
          StateClosed \<Rightarrow> cb_failureCount cb < cb_failureThreshold cb \<and> cb_successCount cb = 0
        | StateOpen \<Rightarrow> cb_successCount cb = 0
        | StateHalfOpen \<Rightarrow> cb_successCount cb < cb_halfOpenMax cb)
     \<and> cb_failureCount cb \<le> cb_failureThreshold cb"

lemma cb_inv_New: "1 \<le> thr \<Longrightarrow> cb_inv (NewCircuitBreaker p thr sec half)"
  by (simp add: cb_inv_def NewCircuitBreaker_def)

lemma cb_inv_step:
  assumes "cb_inv cb" and "1 \<le> cb_failureThreshold cb" and "1 \<le> cb_halfOpenMax cb"
  shows "cb_inv (cb_step cb e)"
  using assms by (cases e) (auto simp: cb_inv_def breaker_defs split: CircuitState.splits)

lemma cb_inv_run:
  assumes "cb_inv cb" and "1 \<le> cb_failureThreshold cb" and "1 \<le> cb_halfOpenMax cb"
  shows "cb_inv (cb_run cb es)"
  using assms by (induction es arbitrary: cb) (simp_all add: cb_inv_step)

subsection \<open>The abstract breaker\<close>

datatype abs_breaker = AClosed int | AOpen go_time | AHalfOpen int

fun abs_step :: "int \<Rightarrow> duration \<Rightarrow> int \<Rightarrow> abs_breaker \<Rightarrow> cb_event \<Rightarrow> abs_breaker" where
  "abs_step thr rec half (AClosed n) (EAllow t) = AClosed n"
| "abs_step thr rec half (AClosed n) ESuccess = AClosed 0"
| "abs_step thr rec half (AClosed n) (EFailure t) =
     (if n + 1 \<ge> thr then AOpen t else AClosed (n + 1))"
| "abs_step thr rec half (AOpen s) (EAllow t) = (if t - s \<ge> rec then AHalfOpen 0 else AOpen s)"
| "abs_step thr rec half (AOpen s) ESuccess = AOpen s"
| "abs_step thr rec half (AOpen s) (EFailure t) = AOpen t"
| "abs_step thr rec half (AHalfOpen k) (EAllow t) = AHalfOpen k"
| "abs_step thr rec half (AHalfOpen k) ESuccess =
     (if k + 1 \<ge> half then AClosed 0 else AHalfOpen (k + 1))"
| "abs_step thr rec half (AHalfOpen k) (EFailure t) = AOpen t"

fun abs_allows :: "duration \<Rightarrow> abs_breaker \<Rightarrow> go_time \<Rightarrow> bool" where
  "abs_allows rec (AOpen s) t = (t - s \<ge> rec)"
| "abs_allows rec _ t = True"

definition abs_breaker :: "CircuitBreaker \<Rightarrow> abs_breaker" where
  "abs_breaker cb = (case cb_state cb of
     StateClosed \<Rightarrow> AClosed (cb_failureCount cb)
   | StateOpen \<Rightarrow> AOpen (cb_lastFailureTime cb)
   | StateHalfOpen \<Rightarrow> AHalfOpen (cb_successCount cb))"

lemma abs_breaker_New [simp]: "abs_breaker (NewCircuitBreaker p thr sec half) = AClosed 0"
  by (simp add: abs_breaker_def)

lemma abs_breaker_step:
  "abs_breaker (cb_step cb e) =
     abs_step (cb_failureThreshold cb) (cb_recoveryTimeout cb) (cb_halfOpenMax cb)
       (abs_breaker cb) e"
  by (cases e; cases "cb_state cb") (auto simp: abs_breaker_def breaker_defs)

lemma abs_breaker_allows:
  "fst (Allow t cb) = abs_allows (cb_recoveryTimeout cb) (abs_breaker cb) t"
  by (cases "cb_state cb") (auto simp: abs_breaker_def breaker_defs)

lemma abs_breaker_run:
  "abs_breaker (cb_run cb es) =
     foldl (abs_step (cb_failureThreshold cb) (cb_recoveryTimeout cb) (cb_halfOpenMax cb))
       (abs_breaker cb) es"
  by (induction es arbitrary: cb) (simp_all add: abs_breaker_step)

fun abs_answers :: "int \<Rightarrow> duration \<Rightarrow> int \<Rightarrow> abs_breaker \<Rightarrow> cb_event list \<Rightarrow> bool list" where
  "abs_answers thr rec half a [] = []"
| "abs_answers thr rec half a (EAllow t # es) =
     abs_allows rec a t # abs_answers thr rec half (abs_step thr rec half a (EAllow t)) es"
| "abs_answers thr rec half a (e # es) = abs_answers thr rec half (abs_step thr rec half a e) es"

lemma abs_answers_refine:
  "cb_answers cb es =
     abs_answers (cb_failureThreshold cb) (cb_recoveryTimeout cb) (cb_halfOpenMax cb)
       (abs_breaker cb) es"
proof (induction es arbitrary: cb)
  case (Cons e es)
  then show ?case
    using abs_breaker_step [of cb e] by (cases e) (simp_all add: abs_breaker_allows)
qed simp

text \<open>
  C20. The breaker refines its abstract specification: over any sequence of calls the answers of
  Allow and the final state are those of the three-state machine that keeps only the failure run,
  the time of the last failure or the success count; the stale fields the record carries between
  states never influence an answer.
\<close>

theorem breaker_refines_machine:
  "cb_answers (NewCircuitBreaker p thr rsec half) es =
     abs_answers thr (int64 (rsec * second)) half (AClosed 0) es
   \<and> abs_breaker (cb_run (NewCircuitBreaker p thr rsec half) es) =
       foldl (abs_step thr (int64 (rsec * second)) half) (AClosed 0) es"
  by (simp add: abs_answers_refine abs_breaker_run)

subsection \<open>When a breaker trips\<close>

text \<open>The failures since the last success, the calls of \<^const>\<open>Allow\<close> left out.\<close>

definition streak_step :: "nat \<Rightarrow> cb_event \<Rightarrow> nat" where
  "streak_step n e = (case e of EAllow t \<Rightarrow> n | ESuccess \<Rightarrow> 0 | EFailure t \<Rightarrow> Suc n)"

definition failure_streak :: "cb_event list \<Rightarrow> nat" where
  "failure_streak = foldl streak_step 0"

lemma failure_streak_snoc [simp]:
  "failure_streak [] = 0" "failure_streak (es @ [e]) = streak_step (failure_streak es) e"
  by (simp_all add: failure_streak_def)

definition closed_throughout :: "CircuitBreaker \<Rightarrow> cb_event list \<Rightarrow> bool" where
  "closed_throughout cb es \<longleftrightarrow> (\<forall>n \<le> length es. cb_state (cb_run cb (take n es)) = StateClosed)"

definition streak_below :: "int \<Rightarrow> cb_event list \<Rightarrow> bool" where
  "streak_below thr es \<longleftrightarrow> (\<forall>n \<le> length es. int (failure_streak (take n es)) < thr)"

lemma all_prefixes_snoc:
  "(\<forall>n \<le> length (es @ [e]). P (take n (es @ [e]))) \<longleftrightarrow>
     (\<forall>n \<le> length es. P (take n es)) \<and> P (es @ [e])"
proof -
  have "n \<le> length (es @ [e]) \<longleftrightarrow> n \<le> length es \<or> n = Suc (length es)" for n
    by auto
  moreover have "take n (es @ [e]) = take n es" if "n \<le> length es" for n
    using that by simp
  ultimately show ?thesis by auto
qed

lemma closed_step_count:
  assumes "cb_state cb = StateClosed" and "cb_failureCount cb = int n"
  shows "cb_state (cb_step cb e) = StateClosed \<longleftrightarrow>
           (int (streak_step n e) < cb_failureThreshold cb \<or> (\<forall>t. e \<noteq> EFailure t))"
    and "cb_failureCount (cb_step cb e) = int (streak_step n e)"
  using assms by (cases e; auto simp: breaker_defs streak_step_def)+

lemma trip_point:
  fixes p :: string and thr rsec half :: int
  assumes "1 \<le> thr"
  defines "cb0 \<equiv> NewCircuitBreaker p thr rsec half"
  shows "(closed_throughout cb0 es \<longleftrightarrow> streak_below thr es)
     \<and> (closed_throughout cb0 es \<longrightarrow> cb_failureCount (cb_run cb0 es) = int (failure_streak es))"
proof (induction es rule: rev_induct)
  case Nil
  then show ?case
    using assms by (simp add: closed_throughout_def streak_below_def NewCircuitBreaker_def)
next
  case (snoc e es)
  let ?cb = "cb_run cb0 es"
  have snoc_closed: "closed_throughout cb0 (es @ [e]) \<longleftrightarrow>
      closed_throughout cb0 es \<and> cb_state (cb_step ?cb e) = StateClosed"
    unfolding closed_throughout_def
      all_prefixes_snoc [where P = "\<lambda>l. cb_state (cb_run cb0 l) = StateClosed"]
    by (simp only: cb_run_simps)
  have snoc_streak: "streak_below thr (es @ [e]) \<longleftrightarrow>
      streak_below thr es \<and> int (streak_step (failure_streak es) e) < thr"
    unfolding streak_below_def
      all_prefixes_snoc [where P = "\<lambda>l. int (failure_streak l) < thr"]
    by (simp only: failure_streak_snoc)
  show ?case
  proof (cases "closed_throughout cb0 es")
    case True
    then have st: "cb_state ?cb = StateClosed"
      unfolding closed_throughout_def by (metis le_refl take_all_iff)
    have cnt: "cb_failureCount ?cb = int (failure_streak es)" and below: "streak_below thr es"
      using snoc True by simp_all
    have "int (failure_streak es) < thr"
      using below unfolding streak_below_def by (metis le_refl take_all_iff)
    then have "(\<forall>t. e \<noteq> EFailure t) \<Longrightarrow> int (streak_step (failure_streak es) e) < thr"
      using assms(1) by (cases e) (auto simp: streak_step_def)
    moreover have "cb_failureThreshold ?cb = thr"
      by (simp add: cb0_def NewCircuitBreaker_def)
    ultimately show ?thesis
      using closed_step_count [OF st cnt, of e] True below snoc_closed snoc_streak by auto
  next
    case False
    then show ?thesis using snoc snoc_closed snoc_streak by auto
  qed
qed

text \<open>
  A new breaker stays closed exactly as long as no run of failures without a success in
  between has reached the threshold: it never trips early, and the failure that completes the
  run always trips it.
\<close>

theorem trips_at_threshold_only:
  assumes "1 \<le> thr"
  shows "closed_throughout (NewCircuitBreaker p thr rsec half) es \<longleftrightarrow> streak_below thr es"
  using trip_point [OF assms] by blast

theorem trips_at_threshold_only_witness:
  "\<not> closed_throughout (NewCircuitBreaker ''claude'' 2 60 3) [EFailure 5, EFailure 9]
   \<and> closed_throughout (NewCircuitBreaker ''claude'' 2 60 3) [EFailure 5, ESuccess, EFailure 9]"
proof -
  have upto: "(\<forall>n \<le> length xs. P n) \<longleftrightarrow> list_all P [0 ..< Suc (length xs)]" for P and xs :: "cb_event list"
    by (auto simp: list_all_iff less_Suc_eq_le)
  have "\<not> streak_below 2 [EFailure 5, EFailure 9]"
    unfolding streak_below_def upto by (simp add: failure_streak_def streak_step_def)
  moreover have "streak_below 2 [EFailure 5, ESuccess, EFailure 9]"
    unfolding streak_below_def upto by (simp add: failure_streak_def streak_step_def upt_rec)
  ultimately show ?thesis
    using trips_at_threshold_only [of 2] by simp
qed

text \<open>
  Whatever calls a breaker has gone through, its counters stay within their bounds: a closed
  breaker counts fewer failures than the threshold, a half-open one fewer successes than it needs,
  so the guards that move it are never skipped.
\<close>

theorem reachable_breaker_counters:
  assumes "1 \<le> thr" and "1 \<le> half"
  shows "cb_inv (cb_run (NewCircuitBreaker p thr rsec half) es)"
  using cb_inv_run [OF cb_inv_New [OF assms(1)]] assms by (simp add: NewCircuitBreaker_def)

theorem reachable_breaker_counters_witness:
  "cb_inv (cb_run (NewCircuitBreaker ''gpt'' 1 60 2)
     [EFailure 0, EAllow 60000000000, ESuccess])"
  by (rule reachable_breaker_counters) simp_all

subsection \<open>Cooling down and recovering\<close>

lemma open_window_step:
  assumes "cb_state cb = StateOpen"
    and "\<And>t. e = EAllow t \<Longrightarrow> t < d" and "\<And>t. e = EFailure t \<Longrightarrow> d \<le> t + cb_recoveryTimeout cb"
    and "d \<le> cb_lastFailureTime cb + cb_recoveryTimeout cb"
  shows "cb_state (cb_step cb e) = StateOpen"
    and "d \<le> cb_lastFailureTime (cb_step cb e) + cb_recoveryTimeout cb"
    and "e = EAllow t \<Longrightarrow> \<not> fst (Allow t cb)"
  using assms by (cases e; auto simp: breaker_defs)+

lemma open_window_run:
  assumes "cb_state cb = StateOpen"
    and "\<And>t. EAllow t \<in> set es \<Longrightarrow> t < d"
    and "\<And>t. EFailure t \<in> set es \<Longrightarrow> d \<le> t + cb_recoveryTimeout cb"
    and "d \<le> cb_lastFailureTime cb + cb_recoveryTimeout cb"
  shows "cb_state (cb_run cb es) = StateOpen \<and> True \<notin> set (cb_answers cb es)"
  using assms
proof (induction es arbitrary: cb)
  case Nil
  then show ?case by simp
next
  case (Cons e es)
  note step = open_window_step [of cb e d, OF Cons.prems(1) _ _ Cons.prems(4)]
  have "cb_state (cb_step cb e) = StateOpen"
    "d \<le> cb_lastFailureTime (cb_step cb e) + cb_recoveryTimeout cb"
    using step(1,2) Cons.prems(2,3) by auto
  then have IH: "cb_state (cb_run (cb_step cb e) es) = StateOpen"
      "True \<notin> set (cb_answers (cb_step cb e) es)"
    using Cons.IH [of "cb_step cb e"] Cons.prems(2,3) by auto
  show ?case
  proof (cases e)
    case (EAllow t)
    then have "\<not> fst (Allow t cb)"
      using step(3) Cons.prems(2,3) by auto
    with EAllow IH show ?thesis by simp
  qed (use IH in auto)
qed

text \<open>
  An open breaker admits nothing before its recovery timeout has passed since the failure it
  last saw: in any sequence of calls made in that window (further failures of requests already
  under way included) every Allow answers no and the breaker is still open at the end.
\<close>

theorem no_admission_while_cooling:
  assumes "cb_state cb = StateOpen"
    and "\<And>t. EAllow t \<in> set es \<Longrightarrow> t < cb_lastFailureTime cb + cb_recoveryTimeout cb"
    and "\<And>t. EFailure t \<in> set es \<Longrightarrow> cb_lastFailureTime cb \<le> t"
  shows "cb_state (cb_run cb es) = StateOpen \<and> True \<notin> set (cb_answers cb es)"
  using assms by (intro open_window_run [where d = "cb_lastFailureTime cb + cb_recoveryTimeout cb"]) auto

theorem no_admission_while_cooling_witness:
  "cb_state (cb_run (cb_run (NewCircuitBreaker ''gpt'' 1 60 2) [EFailure 0])
       [EAllow 1000000000, EFailure 2000000000, EAllow 59000000000]) = StateOpen
   \<and> True \<notin> set (cb_answers (cb_run (NewCircuitBreaker ''gpt'' 1 60 2) [EFailure 0])
       [EAllow 1000000000, EFailure 2000000000, EAllow 59000000000])"
  by (rule no_admission_while_cooling)
    (auto simp: NewCircuitBreaker_def breaker_defs second_def int64_id)

lemma half_open_successes:
  assumes "cb_state cb = StateHalfOpen" and "cb_successCount cb + int n < cb_halfOpenMax cb"
  shows "cb_state (cb_run cb (replicate n ESuccess)) = StateHalfOpen
    \<and> cb_successCount (cb_run cb (replicate n ESuccess)) = cb_successCount cb + int n"
  using assms by (induction n arbitrary: cb) (auto simp: breaker_defs)

text \<open>
  Recovery: once the timeout has passed, one admitted request and the configured number of
  successes close the breaker again with its failure count cleared, and one success fewer does not.
\<close>

theorem open_breaker_recovers:
  assumes "cb_state cb = StateOpen" and "cb_lastFailureTime cb + cb_recoveryTimeout cb \<le> now"
    and "cb_halfOpenMax cb = int (Suc n)"
  shows "fst (Allow now cb)
    \<and> cb_state (cb_run cb (EAllow now # replicate n ESuccess)) = StateHalfOpen
    \<and> cb_state (cb_run cb (EAllow now # replicate (Suc n) ESuccess)) = StateClosed
    \<and> cb_failureCount (cb_run cb (EAllow now # replicate (Suc n) ESuccess)) = 0"
proof -
  let ?h = "cb_step cb (EAllow now)"
  have h: "cb_state ?h = StateHalfOpen" "cb_successCount ?h = 0" "cb_halfOpenMax ?h = int (Suc n)"
    and adm: "fst (Allow now cb)"
    using assms by (auto simp: breaker_defs)
  have r: "cb_state (cb_run ?h (replicate n ESuccess)) = StateHalfOpen"
    "cb_successCount (cb_run ?h (replicate n ESuccess)) = int n"
    using half_open_successes [of ?h n] h by auto
  have "replicate (Suc n) ESuccess = replicate n ESuccess @ [ESuccess]"
    by (simp add: replicate_append_same)
  moreover have "cb_halfOpenMax (cb_run ?h (replicate n ESuccess)) = int (Suc n)"
    using h by simp
  ultimately show ?thesis
    using r adm by (simp add: breaker_defs del: replicate_Suc)
qed

theorem open_breaker_recovers_witness:
  "cb_state (cb_run (NewCircuitBreaker ''gpt'' 1 60 2)
     [EFailure 0, EAllow 60000000000, ESuccess, ESuccess]) = StateClosed"
proof -
  let ?cb = "cb_run (NewCircuitBreaker ''gpt'' 1 60 2) [EFailure 0]"
  have cb: "cb_state ?cb = StateOpen" "cb_lastFailureTime ?cb = 0"
    "cb_recoveryTimeout ?cb = 60000000000" "cb_halfOpenMax ?cb = 2"
    by (simp_all add: NewCircuitBreaker_def breaker_defs second_def int64_id)
  show ?thesis
    using open_breaker_recovers [of ?cb 60000000000 1] cb by simp
qed

lemma half_open_allow [simp]: "cb_state cb = StateHalfOpen \<Longrightarrow> Allow t cb = (True, cb)"
  by (simp add: Allow_def)

lemma half_open_answers:
  "cb_state cb = StateHalfOpen \<Longrightarrow> cb_answers cb (map EAllow ts) = replicate (length ts) True"
  by (induction ts) simp_all

text \<open>
  A half-open breaker does not limit what it admits: after the recovery timeout, any number of
  requests pass before the first of them has reported its outcome, whatever the configured number
  of test requests.
\<close>

theorem half_open_admits_everything:
  assumes "cb_state cb = StateOpen" and "cb_lastFailureTime cb + cb_recoveryTimeout cb \<le> now"
  shows "cb_answers cb (map EAllow (now # ts)) = replicate (Suc (length ts)) True"
proof -
  have "Allow now cb = (True, cb\<lparr>cb_state := StateHalfOpen, cb_successCount := 0\<rparr>)"
    using assms by (auto simp: Allow_def)
  then show ?thesis by (simp add: half_open_answers)
qed

theorem half_open_admits_everything_witness:
  "cb_answers (cb_run (NewCircuitBreaker ''gpt'' 1 60 1) [EFailure 0])
     (map EAllow [60000000000, 60000000001, 60000000002]) = [True, True, True]"
proof -
  let ?cb = "cb_run (NewCircuitBreaker ''gpt'' 1 60 1) [EFailure 0]"
  have "cb_state ?cb = StateOpen" "cb_lastFailureTime ?cb = 0" "cb_recoveryTimeout ?cb = 60000000000"
    by (simp_all add: NewCircuitBreaker_def breaker_defs second_def int64_id)
  then show ?thesis
    using half_open_admits_everything [of ?cb 60000000000 "[60000000001, 60000000002]"]
    by (simp add: numeral_3_eq_3)
qed

end
