(* ===== verification/Semaphore.thy ===== *)
theory Semaphore
  imports Prelude
begin

text \<open>
  \<^verbatim>\<open>internal/concurrency/semaphore.go\<close>: a buffered channel of empty structs as a counting
  semaphore.  Only the number of elements in the channel matters.  \<^verbatim>\<open>Acquire\<close> is a \<^verbatim>\<open>select\<close>
  between sending and the context's end: with both ready Go picks one at random, which is the
  argument \<open>pick\<close>; with neither ready the call blocks, which is \<^const>\<open>None\<close>.  The interface
  the router relies on is the locale \<open>slot_pool\<close>: under its laws the workers that hold a slot
  never outnumber the capacity and a holder can always give its slot back.
\<close>

subsection \<open>The interface\<close>

datatype 'w pool_action = Take 'w | Give 'w

locale slot_pool =
  fixes take_slot :: "'s \<Rightarrow> 's option"
    and give_slot :: "'s \<Rightarrow> 's option"
    and used :: "'s \<Rightarrow> nat"
    and limit :: "'s \<Rightarrow> nat"
    and invar :: "'s \<Rightarrow> bool"
  assumes take_free: "invar s \<Longrightarrow> take_slot s = None \<longleftrightarrow> used s = limit s"
    and take_slot: "invar s \<Longrightarrow> take_slot s = Some s' \<Longrightarrow>
      invar s' \<and> used s' = Suc (used s) \<and> limit s' = limit s"
    and give_free: "invar s \<Longrightarrow> give_slot s = None \<longleftrightarrow> used s = 0"
    and give_slot: "invar s \<Longrightarrow> give_slot s = Some s' \<Longrightarrow>
      invar s' \<and> Suc (used s') = used s \<and> limit s' = limit s"
    and used_limit: "invar s \<Longrightarrow> used s \<le> limit s"
begin

text \<open>
  Workers share the pool, of which others may hold some slots from the start; a worker takes at most one slot
  and gives back only what it took.
\<close>

inductive pool_run :: "'s \<Rightarrow> 's \<Rightarrow> 'w set \<Rightarrow> bool" for s0 where
  start: "invar s0 \<Longrightarrow> pool_run s0 s0 {}"
| taken: "pool_run s0 s H \<Longrightarrow> w \<notin> H \<Longrightarrow> take_slot s = Some s' \<Longrightarrow> pool_run s0 s' (insert w H)"
| given: "pool_run s0 s H \<Longrightarrow> w \<in> H \<Longrightarrow> give_slot s = Some s' \<Longrightarrow> pool_run s0 s' (H - {w})"

lemma pool_run_count:
  "pool_run s0 s H \<Longrightarrow> invar s \<and> finite H \<and> used s = used s0 + card H \<and> limit s = limit s0"
proof (induction rule: pool_run.induct)
  case (taken s H w s')
  then show ?case using take_slot [of s s'] by auto
next
  case (given s H w s')
  then have "card H = Suc (card (H - {w}))" by (metis card_Suc_Diff1)
  then show ?case using given give_slot [of s s'] by auto
qed simp

lemma holders_within_limit: "pool_run s0 s H \<Longrightarrow> card H \<le> limit s0"
  using pool_run_count used_limit by fastforce

lemma holder_can_give:
  assumes "pool_run s0 s H" and "w \<in> H"
  shows "give_slot s \<noteq> None"
proof -
  have "card H \<noteq> 0" using pool_run_count [OF assms(1)] assms(2) by auto
  then have "used s \<noteq> 0" using pool_run_count [OF assms(1)] by simp
  then show ?thesis using give_free [of s] pool_run_count [OF assms(1)] by simp
qed

lemma waiting_only_when_full:
  "pool_run s0 s H \<Longrightarrow> take_slot s = None \<Longrightarrow> used s0 + card H = limit s0"
  using pool_run_count take_free by fastforce

lemma take_then_give: "invar s \<Longrightarrow> take_slot s = Some s' \<Longrightarrow> give_slot s' \<noteq> None"
  using take_slot give_free by fastforce

end

subsection \<open>The semaphore\<close>

record Semaphore =
  sem_len :: nat
  sem_cap :: nat
  sem_name :: string

definition NewSemaphore :: "string \<Rightarrow> int \<Rightarrow> Semaphore" where
  "NewSemaphore name maxConcurrent =
     (let maxConcurrent = (if maxConcurrent \<le> 0 then 1 else maxConcurrent)
      in \<lparr>sem_len = 0, sem_cap = nat maxConcurrent, sem_name = name\<rparr>)"

text \<open>The \<^verbatim>\<open>select\<close> case that runs when both are ready.\<close>

datatype sem_choice = PickSend | PickDone

definition acquire_error :: "string \<Rightarrow> error_text \<Rightarrow> error_text" where
  "acquire_error name ctxErr =
     bytes [236, 132, 184, 235, 167, 136, 237, 143, 172, 236, 150, 180, 32, 237, 154, 141, 235, 147, 157, 32, 237, 131, 128, 236, 158, 132, 236, 149, 132, 236, 155, 131, 32, 40] @ name @ ''): '' @ ctxErr"

definition Acquire ::
  "sem_choice \<Rightarrow> error_text option \<Rightarrow> Semaphore \<Rightarrow> (error_text option \<times> Semaphore) option" where
  "Acquire pick ctxErr s =
     (let can_send = sem_len s < sem_cap s
      in if can_send \<and> (ctxErr = None \<or> pick = PickSend)
         then Some (None, s\<lparr>sem_len := Suc (sem_len s)\<rparr>)
         else (case ctxErr of
                 Some e \<Rightarrow> Some (Some (acquire_error (sem_name s) e), s)
               | None \<Rightarrow> None))"

text \<open>\<^verbatim>\<open>Release\<close> receives from the channel, which blocks when it is empty.\<close>

definition Release :: "Semaphore \<Rightarrow> Semaphore option" where
  "Release s = (if 0 < sem_len s then Some (s\<lparr>sem_len := sem_len s - 1\<rparr>) else None)"

definition Available :: "Semaphore \<Rightarrow> int" where
  "Available s = int (sem_cap s) - int (sem_len s)"

definition sem_ok :: "Semaphore \<Rightarrow> bool" where
  "sem_ok s \<longleftrightarrow> sem_len s \<le> sem_cap s \<and> 1 \<le> sem_cap s"

lemma sem_ok_New [simp]: "sem_ok (NewSemaphore name n)" "sem_len (NewSemaphore name n) = 0"
  by (auto simp: sem_ok_def NewSemaphore_def Let_def)

lemma sem_cap_New: "int (sem_cap (NewSemaphore name n)) = max 1 n"
  by (simp add: NewSemaphore_def Let_def)

lemma Acquire_granted [ok_iff]:
  "Acquire pick c s = Some (None, s') \<longleftrightarrow>
     sem_len s < sem_cap s \<and> (c = None \<or> pick = PickSend) \<and> s' = s\<lparr>sem_len := Suc (sem_len s)\<rparr>"
  by (auto simp: Acquire_def Let_def split: option.splits)

lemma Acquire_refused [ok_iff]:
  "Acquire pick c s = Some (Some e, s') \<longleftrightarrow>
     (\<exists>ce. c = Some ce \<and> e = acquire_error (sem_name s) ce) \<and> s' = s
     \<and> \<not> (sem_len s < sem_cap s \<and> pick = PickSend)"
  by (auto simp: Acquire_def Let_def split: option.splits)

lemma Acquire_ok: "sem_ok s \<Longrightarrow> Acquire pick c s = Some (r, s') \<Longrightarrow> sem_ok s'"
  by (auto simp: Acquire_def Let_def sem_ok_def split: option.splits if_splits)

lemma Release_ok: "sem_ok s \<Longrightarrow> Release s = Some s' \<Longrightarrow> sem_ok s'"
  by (auto simp: Release_def sem_ok_def split: if_splits)

lemma Release_Acquired:
  "Acquire pick c s = Some (None, s') \<Longrightarrow> Release s' = Some s"
  by (simp add: Acquire_granted Release_def)

text \<open>Taking a slot with a context that is still alive: the interface's \<open>take_slot\<close>.\<close>

definition sem_take :: "Semaphore \<Rightarrow> Semaphore option" where
  "sem_take s = map_option snd (Acquire PickSend None s)"

lemma sem_take_Some: "sem_take s = Some s' \<longleftrightarrow>
    sem_len s < sem_cap s \<and> s' = s\<lparr>sem_len := Suc (sem_len s)\<rparr>"
  by (auto simp: sem_take_def Acquire_def Let_def)

interpretation sempool: slot_pool sem_take Release sem_len sem_cap sem_ok
  by unfold_locales
    (auto simp: sem_take_def Acquire_def Release_def sem_ok_def Let_def split: if_splits)

end
