(* ===== verification/Fallback.thy ===== *)
theory Fallback
  imports Prelude
begin

text \<open>
  \<^verbatim>\<open>internal/router/fallback.go\<close>: the fallback policies and the classification of an error by its
  text.  Errors reach these functions wrapped by \<^verbatim>\<open>fmt.Errorf("...: %w", err)\<close>, that is with a text
  in front; the first group of lemmas shows that wrapping never loses a classification.
\<close>

definition PolicyOnError :: string where
  "PolicyOnError = ''on_error''"

definition PolicyOnTimeout :: string where
  "PolicyOnTimeout = ''on_timeout''"

definition PolicyOnRateLimit :: string where
  "PolicyOnRateLimit = ''on_rate_limit''"

definition PolicyFastest :: string where
  "PolicyFastest = ''always_fastest''"

lemmas policy_defs = PolicyOnError_def PolicyOnTimeout_def PolicyOnRateLimit_def PolicyFastest_def

record FallbackAttempt =
  fa_order :: int
  fa_provider :: string
  fa_model :: string
  fa_status :: string
  fa_error :: string
  fa_latency_ms :: int

definition containsStatusCode :: "string \<Rightarrow> string \<Rightarrow> bool" where
  "containsStatusCode errMsg code =
     list_ex (contains errMsg)
       [''status: '' @ code, ''status:'' @ code, ''status code: '' @ code,
        ''status_code: '' @ code, code @ '' '']"

definition isServerError :: "string \<Rightarrow> bool" where
  "isServerError errMsg =
     (let lower = to_lower errMsg in
      contains lower ''internal server error'' \<or> contains lower ''bad gateway'' \<or>
      contains lower ''service unavailable'' \<or> contains lower ''gateway timeout'' \<or>
      containsStatusCode errMsg ''500'' \<or> containsStatusCode errMsg ''502'' \<or>
      containsStatusCode errMsg ''503'' \<or> containsStatusCode errMsg ''504'')"

definition networkPatterns :: "string list" where
  "networkPatterns =
     [''connection refused'', ''connection reset'', ''no such host'', ''network is unreachable'',
      ''dial tcp'', ''EOF'']"

definition isNetworkError :: "string \<Rightarrow> bool" where
  "isNetworkError errMsg =
     (let lower = to_lower errMsg in list_ex (\<lambda>p. contains lower (to_lower p)) networkPatterns)"

definition isTimeoutError :: "string \<Rightarrow> bool" where
  "isTimeoutError errMsg =
     (let lower = to_lower errMsg in
      contains lower ''timeout'' \<or> contains lower ''deadline exceeded'')"

definition isRateLimitError :: "string \<Rightarrow> bool" where
  "isRateLimitError errMsg =
     (let lower = to_lower errMsg in
      containsStatusCode errMsg ''429'' \<or> contains lower ''rate limit'' \<or>
      contains lower ''too many requests'')"

text \<open>A nil error is \<^const>\<open>None\<close>.\<close>

definition shouldFallback :: "string \<Rightarrow> error_text option \<Rightarrow> bool" where
  "shouldFallback policy err =
     (case err of
        None \<Rightarrow> False
      | Some errMsg \<Rightarrow>
          if policy = PolicyOnError then isServerError errMsg \<or> isNetworkError errMsg
          else if policy = PolicyOnTimeout then isTimeoutError errMsg
          else if policy = PolicyOnRateLimit then isRateLimitError errMsg
          else if policy = PolicyFastest then False
          else isServerError errMsg \<or> isNetworkError errMsg)"

subsection \<open>Wrapping keeps the class of an error\<close>

lemma containsStatusCode_wrap:
  "containsStatusCode e code \<Longrightarrow> containsStatusCode (a @ e @ b) code"
  by (auto simp: containsStatusCode_def contains_append)

lemma isServerError_wrap: "isServerError e \<Longrightarrow> isServerError (a @ e @ b)"
  by (auto simp: isServerError_def Let_def contains_append containsStatusCode_wrap)

lemma isNetworkError_wrap: "isNetworkError e \<Longrightarrow> isNetworkError (a @ e @ b)"
  by (auto simp: isNetworkError_def Let_def list_ex_iff intro: contains_append)

lemma isTimeoutError_wrap: "isTimeoutError e \<Longrightarrow> isTimeoutError (a @ e @ b)"
  by (auto simp: isTimeoutError_def Let_def contains_append)

lemma isRateLimitError_wrap: "isRateLimitError e \<Longrightarrow> isRateLimitError (a @ e @ b)"
  by (auto simp: isRateLimitError_def Let_def contains_append containsStatusCode_wrap)

lemmas class_wrap = isServerError_wrap isNetworkError_wrap isTimeoutError_wrap isRateLimitError_wrap

text \<open>
  Wrapping an error in more text never turns off a fallback: whatever an adapter puts in front
  of (or after) a provider's error, a policy that falls back on the bare error still falls back.
\<close>

theorem fallback_survives_wrapping:
  assumes "shouldFallback policy (Some e)"
  shows "shouldFallback policy (Some (a @ e @ b))"
  using assms by (auto simp: shouldFallback_def class_wrap split: if_splits)

theorem fallback_survives_wrapping_witness:
  "shouldFallback ''on_timeout'' (Some (''GPT API: '' @ ''context deadline exceeded'' @ []))"
proof -
  have "shouldFallback ''on_timeout'' (Some ''context deadline exceeded'')"
    by code_simp
  then show ?thesis by (rule fallback_survives_wrapping)
qed

lemma digits_before_space: "containsStatusCode (a @ code @ '' '' @ b) code"
proof -
  have "contains (a @ (code @ '' '') @ b) (code @ '' '')"
    by (rule contains_append) (auto intro: contains_prefixI)
  then show ?thesis by (simp add: containsStatusCode_def)
qed

text \<open>
  The status-code match does not look at what stands before the digits: any text in which
  the digits 500 are followed by a space counts as a server error and falls back under on_error
  (and under an unknown policy), the tail of a longer number such as "1500 tokens" included.
\<close>

theorem digits_count_as_server_error:
  "isServerError (a @ ''500 '' @ b)
   \<and> shouldFallback PolicyOnError (Some (''prompt exceeds the limit of 1'' @ ''500 '' @ ''tokens''))"
proof -
  have "isServerError (a @ ''500 '' @ b)" for a b
    using digits_before_space [of a "''500''" b] by (simp add: isServerError_def Let_def)
  moreover from this [of "''prompt exceeds the limit of 1''" "''tokens''"]
  have "shouldFallback PolicyOnError (Some (''prompt exceeds the limit of 1'' @ ''500 '' @ ''tokens''))"
    by (simp only: shouldFallback_def option.case simp_thms if_True)
  ultimately show ?thesis by blast
qed

end
