(* ===== verification/Requests.thy ===== *)
theory Requests
  imports Prelude
begin

text \<open>
  \<^verbatim>\<open>internal/model\<close>: the request, response and job structures all components exchange.  A pointer
  field is an option; a \<^verbatim>\<open>float64\<close> is the rational number it denotes (values come from JSON and YAML
  and are finite); \<^verbatim>\<open>prompt_variables\<close> holds each value as the text \<^verbatim>\<open>%v\<close> prints for it, which is
  all the gateway does with a value.
\<close>

type_synonym float64 = rat

record Message =
  msg_role :: string
  msg_content :: string

record ChatOptions =
  opt_temperature :: "float64 option"
  opt_max_tokens :: "int option"
  opt_top_p :: "float64 option"
  opt_stream :: bool
  opt_search_grounding :: bool

record FallbackTarget =
  ft_provider :: string
  ft_model :: string

record RequestMetadata =
  rm_client_id :: string
  rm_request_id :: string

record ChatRequest =
  req_provider :: string
  req_model :: string
  req_messages :: "Message list"
  req_options :: ChatOptions
  req_fallback :: "FallbackTarget list"
  req_fallback_policy :: string
  req_project :: string
  req_task :: string
  req_prompt_vars :: "(string \<times> string) list"
  req_metadata :: RequestMetadata

text \<open>The texts of the three range errors.\<close>

definition temperature_error :: error_text where
  "temperature_error = bytes [116, 101, 109, 112, 101, 114, 97, 116, 117, 114, 101, 235, 138, 148, 32, 48, 46, 48, 126, 50, 46, 48, 32, 235, 178, 148, 236, 156, 132, 236, 151, 172, 236, 149, 188, 32, 237, 149, 169, 235, 139, 136, 235, 139, 164]"

definition max_tokens_error :: error_text where
  "max_tokens_error = bytes [109, 97, 120, 95, 116, 111, 107, 101, 110, 115, 235, 138, 148, 32, 49, 32, 236, 157, 180, 236, 131, 129, 236, 157, 180, 236, 150, 180, 236, 149, 188, 32, 237, 149, 169, 235, 139, 136, 235, 139, 164]"

definition top_p_error :: error_text where
  "top_p_error = bytes [116, 111, 112, 95, 112, 235, 138, 148, 32, 48, 46, 48, 126, 49, 46, 48, 32, 235, 178, 148, 236, 156, 132, 236, 151, 172, 236, 149, 188, 32, 237, 149, 169, 235, 139, 136, 235, 139, 164]"

definition ValidateOptions :: "ChatRequest \<Rightarrow> error_text option" where
  "ValidateOptions r =
     (let o' = req_options r in
      if (case opt_temperature o' of Some t \<Rightarrow> t < 0 \<or> t > 2 | None \<Rightarrow> False)
      then Some temperature_error
      else if (case opt_max_tokens o' of Some m \<Rightarrow> m < 1 | None \<Rightarrow> False)
      then Some max_tokens_error
      else if (case opt_top_p o' of Some p \<Rightarrow> p < 0 \<or> p > 1 | None \<Rightarrow> False)
      then Some top_p_error
      else None)"

record UsageInfo =
  us_input_tokens :: int
  us_output_tokens :: int
  us_total_tokens :: int
  us_estimated_cost :: float64

record SearchSource =
  ss_title :: string
  ss_uri :: string

record ResponseMetadata =
  md_latency_ms :: int
  md_fallback_used :: bool
  md_fallback_reason :: "string option"
  md_search_sources :: "SearchSource list"

record ChatResponse =
  resp_id :: string
  resp_provider :: string
  resp_model :: string
  resp_content :: string
  resp_usage :: UsageInfo
  resp_metadata :: ResponseMetadata

record StreamChunk =
  ch_content :: string
  ch_done :: bool
  ch_error :: "string option"
  ch_usage :: "UsageInfo option"

record ModelInfo =
  mi_provider :: string
  mi_model :: string
  mi_display_name :: string
  mi_available :: bool

text \<open>The values a Go struct literal gives the fields it does not name.\<close>

definition zero_usage :: UsageInfo where
  "zero_usage = \<lparr>us_input_tokens = 0, us_output_tokens = 0, us_total_tokens = 0,
     us_estimated_cost = 0\<rparr>"

definition zero_metadata :: ResponseMetadata where
  "zero_metadata = \<lparr>md_latency_ms = 0, md_fallback_used = False, md_fallback_reason = None,
     md_search_sources = []\<rparr>"

definition text_chunk :: "string \<Rightarrow> StreamChunk" where
  "text_chunk s = \<lparr>ch_content = s, ch_done = False, ch_error = None, ch_usage = None\<rparr>"

definition error_chunk :: "string \<Rightarrow> StreamChunk" where
  "error_chunk e = \<lparr>ch_content = [], ch_done = True, ch_error = Some e, ch_usage = None\<rparr>"

definition done_chunk :: "UsageInfo option \<Rightarrow> StreamChunk" where
  "done_chunk u = \<lparr>ch_content = [], ch_done = True, ch_error = None, ch_usage = u\<rparr>"

subsection \<open>Batch jobs\<close>

datatype JobStatus = JobPending | JobProcessing | JobCompleted | JobFailed

definition job_status_string :: "JobStatus \<Rightarrow> string" where
  "job_status_string s = (case s of JobPending \<Rightarrow> ''pending'' | JobProcessing \<Rightarrow> ''processing''
     | JobCompleted \<Rightarrow> ''completed'' | JobFailed \<Rightarrow> ''failed'')"

lemma job_status_string_inj [simp]: "job_status_string a = job_status_string b \<longleftrightarrow> a = b"
  by (cases a; cases b) (simp_all add: job_status_string_def)

text \<open>A job only moves forward: pending, then processing, then one of the two final states.\<close>

instantiation JobStatus :: order
begin

definition less_eq_JobStatus :: "JobStatus \<Rightarrow> JobStatus \<Rightarrow> bool" where
  "a \<le> b \<longleftrightarrow> a = b \<or> a = JobPending \<or> (a = JobProcessing \<and> b \<noteq> JobPending)"

definition less_JobStatus :: "JobStatus \<Rightarrow> JobStatus \<Rightarrow> bool" where
  "(a :: JobStatus) < b \<longleftrightarrow> a \<le> b \<and> \<not> b \<le> a"

instance
  by standard (auto simp: less_eq_JobStatus_def less_JobStatus_def)

end

record BatchJob =
  job_id :: string
  job_client_id :: string
  job_status :: string
  job_request :: "ChatRequest option"
  job_response :: "ChatResponse option"
  job_error :: "string option"
  job_created_at :: go_time
  job_updated_at :: go_time

end
