(* ===== verification/Registry.thy ===== *)
theory Registry
  imports Requests
begin

text \<open>
  \<^verbatim>\<open>internal/provider/registry.go\<close>: the providers the server was started with, by name, and the id
  of the API key each one uses.  A provider is a handle of type \<open>'p\<close>; \<open>name_of\<close> and \<open>models_of\<close>
  are its methods \<^verbatim>\<open>Name\<close> and \<^verbatim>\<open>Models\<close>.  The mutex makes each method atomic.
\<close>

record 'p Registry =
  reg_providers :: "string \<rightharpoonup> 'p"
  reg_keyIDs :: "string \<rightharpoonup> int"

definition NewRegistry :: "'p Registry" where
  "NewRegistry = \<lparr>reg_providers = Map.empty, reg_keyIDs = Map.empty\<rparr>"

definition Register :: "('p \<Rightarrow> string) \<Rightarrow> 'p \<Rightarrow> 'p Registry \<Rightarrow> 'p Registry" where
  "Register name_of p r = r\<lparr>reg_providers := (reg_providers r)(name_of p \<mapsto> p)\<rparr>"

definition RegisterWithKeyID ::
  "('p \<Rightarrow> string) \<Rightarrow> 'p \<Rightarrow> int \<Rightarrow> 'p Registry \<Rightarrow> 'p Registry" where
  "RegisterWithKeyID name_of p keyID r =
     r\<lparr>reg_providers := (reg_providers r)(name_of p \<mapsto> p),
       reg_keyIDs := (reg_keyIDs r)(name_of p \<mapsto> keyID)\<rparr>"

definition GetKeyID :: "'p Registry \<Rightarrow> string \<Rightarrow> int option" where
  "GetKeyID r providerName = reg_keyIDs r providerName"

definition not_registered :: "string \<Rightarrow> error_text" where
  "not_registered name =
     bytes [237, 148, 132, 235, 161, 156, 235, 176, 148, 236, 157, 180, 235, 141, 148, 32, 39] @ name @ bytes [39, 236, 157, 132, 40, 235, 165, 188, 41, 32, 236, 176, 190, 236, 157, 132, 32, 236, 136, 152, 32, 236, 151, 134, 236, 138, 181, 235, 139, 136, 235, 139, 164]"

definition Registry_Get :: "'p Registry \<Rightarrow> string \<Rightarrow> error_text + 'p" where
  "Registry_Get r name = (case reg_providers r name of Some p \<Rightarrow> Inr p | None \<Rightarrow> Inl (not_registered name))"

definition Registry_All :: "'p Registry \<Rightarrow> (string \<rightharpoonup> 'p)" where
  "Registry_All r = reg_providers r"

text \<open>Ranging over a Go map visits its keys in an unspecified order: the argument \<open>order\<close>.\<close>

definition AllModels ::
  "('p \<Rightarrow> ModelInfo list) \<Rightarrow> string list \<Rightarrow> 'p Registry \<Rightarrow> ModelInfo list" where
  "AllModels models_of order r =
     concat (map (\<lambda>k. case reg_providers r k of Some p \<Rightarrow> models_of p | None \<Rightarrow> []) order)"

lemma Registry_Get_ok [ok_iff]: "Registry_Get r name = Inr p \<longleftrightarrow> reg_providers r name = Some p"
  by (auto simp: Registry_Get_def split: option.splits)

lemma Registry_Get_err [ok_iff]: "Registry_Get r name = Inl e \<longleftrightarrow> reg_providers r name = None \<and> e = not_registered name"
  by (auto simp: Registry_Get_def split: option.splits)

lemma Registry_Get_Register:
  "Registry_Get (Register name_of p r) name = (if name = name_of p then Inr p else Registry_Get r name)"
  "Registry_Get (RegisterWithKeyID name_of p k r) name = (if name = name_of p then Inr p else Registry_Get r name)"
  by (simp_all add: Registry_Get_def Register_def RegisterWithKeyID_def)

text \<open>Every provider is stored under its own name.\<close>

definition registry_ok :: "('p \<Rightarrow> string) \<Rightarrow> 'p Registry \<Rightarrow> bool" where
  "registry_ok name_of r \<longleftrightarrow> (\<forall>n p. reg_providers r n = Some p \<longrightarrow> name_of p = n)"

lemma registry_ok_ops [simp]:
  "registry_ok name_of NewRegistry"
  "registry_ok name_of r \<Longrightarrow> registry_ok name_of (Register name_of p r)"
  "registry_ok name_of r \<Longrightarrow> registry_ok name_of (RegisterWithKeyID name_of p k r)"
  by (auto simp: registry_ok_def NewRegistry_def Register_def RegisterWithKeyID_def)

end
