(* ===== verification/Paths.thy ===== *)
theory Paths
  imports Prelude
begin

text \<open>
  The part of \<^verbatim>\<open>path/filepath\<close> the gateway uses to name its YAML files, and the guard both loaders of
  named files apply to a name that comes from a request (\<^verbatim>\<open>config.go\<close>, \<^verbatim>\<open>prompt.go\<close>).  \<^verbatim>\<open>Join\<close> joins its
  arguments with slashes and cleans the result lexically: empty and \<^verbatim>\<open>.\<close> segments disappear and \<^verbatim>\<open>..\<close>
  removes the segment before it.
\<close>

definition slash :: char where
  "slash = CHR ''/''"

definition backslash :: char where
  "backslash = CHR 0x5C"

definition is_abs :: "string \<Rightarrow> bool" where
  "is_abs p = has_prefix p [slash]"

fun clean_segments :: "bool \<Rightarrow> string list \<Rightarrow> string list \<Rightarrow> string list" where
  "clean_segments rooted acc [] = rev acc"
| "clean_segments rooted acc (s # ss) =
     (if s = [] \<or> s = ''.'' then clean_segments rooted acc ss
      else if s = ''..'' then
        (case acc of
           [] \<Rightarrow> clean_segments rooted (if rooted then [] else [''..'']) ss
         | a # as \<Rightarrow> if a = ''..'' then clean_segments rooted (s # acc) ss
                     else clean_segments rooted as ss)
      else clean_segments rooted (s # acc) ss)"

definition path_clean :: "string \<Rightarrow> string" where
  "path_clean p =
     (let rooted = is_abs p; segs = clean_segments rooted [] (split_at slash p)
      in if rooted then slash # join [slash] segs
         else if segs = [] then ''.'' else join [slash] segs)"

definition path_join :: "string list \<Rightarrow> string" where
  "path_join ps = (let ps = filter (\<lambda>p. p \<noteq> []) ps in if ps = [] then [] else path_clean (join [slash] ps))"

text \<open>
  The guard: \<^verbatim>\<open>strings.Contains(name, "..") || filepath.IsAbs(name) ||\<close>
  \<^verbatim>\<open>strings.ContainsAny(name, `/\`)\<close>.
\<close>

definition unsafe_name :: "string \<Rightarrow> bool" where
  "unsafe_name name \<longleftrightarrow> contains name ''..'' \<or> is_abs name \<or> contains_any name [slash, backslash]"

lemma safe_name_chars: "\<not> unsafe_name name \<Longrightarrow> slash \<notin> set name \<and> backslash \<notin> set name"
  by (auto simp: unsafe_name_def contains_any_def list_ex_iff)

lemma split_at_no_sep: "sep \<notin> set s \<Longrightarrow> split_at sep s = [s]"
  by (induction s) auto

lemma split_at_neq_Nil [simp]: "split_at sep s \<noteq> []"
  by (induction s) (auto split: list.splits)

lemma split_at_join: "split_at sep (a @ sep # b) = split_at sep a @ split_at sep b"
proof (induction a)
  case (Cons c a)
  then show ?case by (auto split: list.splits simp: append_eq_Cons_conv)
qed simp

lemma clean_segments_snoc_plain:
  assumes "f \<noteq> []" and "f \<noteq> ''.''" and "f \<noteq> ''..''"
  shows "clean_segments rooted acc (ss @ [f]) = clean_segments rooted acc ss @ [f]"
  using assms by (induction rooted acc ss rule: clean_segments.induct) (auto split: list.splits)

lemma join_snoc: "xs \<noteq> [] \<Longrightarrow> join sep (xs @ [x]) = join sep xs @ sep @ x"
  using join_append [of xs "[x]"] by simp

definition yaml_name :: "string \<Rightarrow> string" where
  "yaml_name name = name @ ''.yaml''"

lemma yaml_name_plain: "yaml_name n \<noteq> []" "yaml_name n \<noteq> ''.''" "yaml_name n \<noteq> ''..''"
proof -
  have "length (yaml_name n) \<ge> 5" by (simp add: yaml_name_def)
  then show "yaml_name n \<noteq> []" "yaml_name n \<noteq> ''.''" "yaml_name n \<noteq> ''..''" by auto
qed

lemma yaml_name_no_slash: "\<not> unsafe_name n \<Longrightarrow> slash \<notin> set (yaml_name n)"
  using safe_name_chars by (auto simp: yaml_name_def slash_def)

text \<open>
  Cleaning keeps a last segment that is an ordinary file name, so a file named by a guarded name is
  always a direct child of its directory.
\<close>

lemma path_clean_child:
  assumes "slash \<notin> set f" and "f \<noteq> []" and "f \<noteq> ''.''" and "f \<noteq> ''..''"
    and "d \<noteq> []" and "clean_segments (is_abs d) [] (split_at slash d) \<noteq> []"
  shows "path_clean (d @ slash # f) = path_clean d @ slash # f"
proof -
  have segs: "clean_segments r [] (split_at slash (d @ slash # f)) =
      clean_segments r [] (split_at slash d) @ [f]" for r
    using assms(1-4) by (simp add: split_at_join split_at_no_sep clean_segments_snoc_plain)
  have abs: "is_abs (d @ slash # f) = is_abs d"
    using assms(5) by (cases d) (auto simp: is_abs_def has_prefix_def)
  show ?thesis
    using assms(6) by (cases "is_abs d") (simp_all add: path_clean_def Let_def segs abs join_snoc)
qed

definition plain_segment :: "string \<Rightarrow> bool" where
  "plain_segment d \<longleftrightarrow> slash \<notin> set d \<and> d \<noteq> [] \<and> d \<noteq> ''.'' \<and> d \<noteq> ''..''"

lemma plain_segment_yaml: "slash \<notin> set n \<Longrightarrow> plain_segment (yaml_name n)"
  using yaml_name_plain [of n] by (auto simp: plain_segment_def yaml_name_def slash_def)

lemma clean_segments_plain:
  "plain_segment d \<Longrightarrow> clean_segments r acc (split_at slash d) = rev acc @ [d]"
  by (simp add: plain_segment_def split_at_no_sep)

lemma path_clean_plain: "plain_segment d \<Longrightarrow> path_clean d = d"
  by (cases d) (auto simp: path_clean_def is_abs_def has_prefix_def plain_segment_def split_at_no_sep
      Let_def)

lemma path_join_child:
  assumes "plain_segment d" and "plain_segment f"
  shows "path_join [dir, d, f] = path_join [dir, d] @ slash # f"
proof (cases "dir = []")
  case True
  have "path_clean (d @ slash # f) = path_clean d @ slash # f"
    using assms by (intro path_clean_child) (auto simp: clean_segments_plain plain_segment_def split_at_no_sep)
  then show ?thesis using True assms by (simp add: path_join_def plain_segment_def)
next
  case False
  have "clean_segments r [] (split_at slash (dir @ slash # d)) \<noteq> []" for r
    using assms(1) by (simp add: split_at_join split_at_no_sep clean_segments_snoc_plain plain_segment_def)
  then have "path_clean ((dir @ slash # d) @ slash # f) = path_clean (dir @ slash # d) @ slash # f"
    using assms(2) False by (intro path_clean_child) (auto simp: plain_segment_def)
  then show ?thesis using False assms by (simp add: path_join_def plain_segment_def)
qed

lemma path_join_plain_pair:
  assumes "plain_segment d" and "plain_segment f"
  shows "path_join [d, f] = d @ slash # f"
  using path_join_child [OF assms, of "[]"] assms path_clean_plain [OF assms(1)]
  by (simp add: path_join_def plain_segment_def)

lemma path_join_relative:
  assumes "plain_segment d" and "plain_segment f"
  shows "path_join [dir, path_join [d, f]] = path_join [dir, d, f]"
  using assms by (simp add: path_join_plain_pair) (simp add: path_join_def plain_segment_def)

end
