(* ===== verification/Config.thy ===== *)
theory Config
  imports Paths Requests
begin

text \<open>
  \<^verbatim>\<open>internal/config\<close>: the configuration structures and their loaders.  \<^verbatim>\<open>os.ReadFile\<close> is the argument
  \<open>readf\<close> (a path gives the file's bytes or an error) and \<^verbatim>\<open>yaml.Unmarshal\<close> into a zero structure the
  argument \<open>unmarshal\<close>; the paths, the defaults and the error texts are the code's.
\<close>

type_synonym read_file = "string \<Rightarrow> error_text + string"

record CircuitBreakerConfig =
  cbc_failure_threshold :: int
  cbc_recovery_timeout_sec :: int
  cbc_half_open_requests :: int

record ProviderFallbackConfig =
  pfc_max_concurrent :: int
  pfc_timeout_ms :: int

record FallbackGlobalConfig =
  fgc_circuit_breaker :: CircuitBreakerConfig
  fgc_providers :: "string \<rightharpoonup> ProviderFallbackConfig"

record ProjectFallbackConfig =
  prj_default_chain :: "FallbackTarget list"
  prj_policy :: string
  prj_timeout_ms :: int
  prj_max_retries :: int

record ServerConfig =
  sc_host :: string
  sc_port :: int
  sc_read_timeout_sec :: int
  sc_write_timeout_sec :: int
  sc_stream_write_timeout_sec :: int
  sc_shutdown_timeout_sec :: int

record RedisConfig =
  rc_addr :: string
  rc_password :: string
  rc_db :: int
  rc_pool_size :: int

record DatabaseConfig =
  dc_logs_path :: string
  dc_keys_path :: string

record AuthConfig =
  ac_trusted_cidrs :: "string list"
  ac_rate_limit_per_minute :: int

record ProviderConfig =
  pc_enabled :: bool
  pc_location :: string
  pc_base_url :: string

record Config =
  cfg_server :: ServerConfig
  cfg_redis :: RedisConfig
  cfg_database :: DatabaseConfig
  cfg_auth :: AuthConfig
  cfg_providers :: "string \<rightharpoonup> ProviderConfig"
  cfg_fallback :: "FallbackGlobalConfig option"

definition ServerConfig_Addr :: "ServerConfig \<Rightarrow> string" where
  "ServerConfig_Addr s = sc_host s @ '':'' @ show_int (sc_port s)"

subsection \<open>Load\<close>

definition or_default :: "int \<Rightarrow> int \<Rightarrow> int" where
  "or_default d n = (if n = 0 then d else n)"

definition config_defaults :: "Config \<Rightarrow> Config" where
  "config_defaults cfg =
     cfg \<lparr>cfg_server := (cfg_server cfg)
            \<lparr>sc_port := or_default 8080 (sc_port (cfg_server cfg)),
             sc_read_timeout_sec := or_default 30 (sc_read_timeout_sec (cfg_server cfg)),
             sc_write_timeout_sec := or_default 120 (sc_write_timeout_sec (cfg_server cfg)),
             sc_stream_write_timeout_sec := or_default 600 (sc_stream_write_timeout_sec (cfg_server cfg)),
             sc_shutdown_timeout_sec := or_default 30 (sc_shutdown_timeout_sec (cfg_server cfg))\<rparr>,
          cfg_auth := (cfg_auth cfg)
            \<lparr>ac_rate_limit_per_minute := or_default 120 (ac_rate_limit_per_minute (cfg_auth cfg))\<rparr>\<rparr>"

text \<open>
  \<^verbatim>\<open>Fallback\<close> carries no YAML tag, so \<^verbatim>\<open>unmarshal\<close> may fill it from a key \<^verbatim>\<open>fallback\<close>; a readable
  \<^verbatim>\<open>fallback_global.yaml\<close> replaces it.
\<close>

definition Load ::
  "read_file \<Rightarrow> (string \<Rightarrow> error_text + Config) \<Rightarrow> (string \<Rightarrow> error_text + FallbackGlobalConfig)
   \<Rightarrow> string \<Rightarrow> error_text + Config" where
  "Load readf unmarshal unmarshal_fb configDir =
     (case readf (path_join [configDir, ''server.yaml'']) of
        Inl err \<Rightarrow> Inl (bytes [236, 132, 164, 236, 160, 149, 32, 237, 140, 140, 236, 157, 188, 32, 236, 157, 189, 234, 184, 176, 32, 236, 139, 164, 237, 140, 168, 58, 32] @ err)
      | Inr data \<Rightarrow>
         (case unmarshal data of
            Inl err \<Rightarrow> Inl (bytes [236, 132, 164, 236, 160, 149, 32, 237, 140, 140, 236, 157, 188, 32, 237, 140, 140, 236, 139, 177, 32, 236, 139, 164, 237, 140, 168, 58, 32] @ err)
          | Inr cfg0 \<Rightarrow>
             (let cfg = config_defaults cfg0 in
              case readf (path_join [configDir, ''fallback_global.yaml'']) of
                Inl _ \<Rightarrow> Inr cfg
              | Inr fbData \<Rightarrow>
                 (case unmarshal_fb fbData of
                    Inl err \<Rightarrow> Inl (bytes [102, 97, 108, 108, 98, 97, 99, 107, 32, 236, 132, 164, 236, 160, 149, 32, 237, 140, 140, 236, 139, 177, 32, 236, 139, 164, 237, 140, 168, 58, 32] @ err)
                  | Inr fbCfg \<Rightarrow> Inr (cfg \<lparr>cfg_fallback := Some fbCfg\<rparr>)))))"

definition LoadProjectFallback ::
  "read_file \<Rightarrow> (string \<Rightarrow> error_text + ProjectFallbackConfig) \<Rightarrow> string \<Rightarrow> string
   \<Rightarrow> error_text + ProjectFallbackConfig" where
  "LoadProjectFallback readf unmarshal configDir project =
     (if unsafe_name project
      then Inl (bytes [236, 158, 152, 235, 170, 187, 235, 144, 156, 32, 237, 148, 132, 235, 161, 156, 236, 160, 157, 237, 138, 184, 235, 170, 133, 58, 32] @ quote project @ bytes [32, 40, 234, 178, 189, 235, 161, 156, 32, 234, 181, 172, 235, 182, 132, 236, 158, 144, 32, 236, 130, 172, 236, 154, 169, 32, 235, 182, 136, 234, 176, 128, 41])
      else case readf (path_join [configDir, ''projects'', yaml_name project]) of
             Inl err \<Rightarrow> Inl err
           | Inr data \<Rightarrow>
              (case unmarshal data of
                 Inl err \<Rightarrow> Inl (bytes [237, 148, 132, 235, 161, 156, 236, 160, 157, 237, 138, 184, 32, 102, 97, 108, 108, 98, 97, 99, 107, 32, 236, 132, 164, 236, 160, 149, 32, 237, 140, 140, 236, 139, 177, 32, 236, 139, 164, 237, 140, 168, 58, 32] @ err)
               | Inr cfg \<Rightarrow> Inr cfg))"

subsection \<open>logging.yaml\<close>

record LoggingRecord =
  lr_input_preview :: bool
  lr_input_preview_length :: int
  lr_output_preview :: bool
  lr_output_preview_length :: int
  lr_full_prompt :: bool
  lr_full_response :: bool

record LoggingPrivacy =
  lp_hash_prompts :: bool
  lp_mask_api_keys :: bool
  lp_mask_pii :: bool

record LoggingPolicy =
  lg_record :: LoggingRecord
  lg_privacy :: LoggingPrivacy

definition defaultLoggingConfig :: LoggingPolicy where
  "defaultLoggingConfig =
     \<lparr>lg_record = \<lparr>lr_input_preview = True, lr_input_preview_length = 200,
        lr_output_preview = True, lr_output_preview_length = 200,
        lr_full_prompt = False, lr_full_response = False\<rparr>,
      lg_privacy = \<lparr>lp_hash_prompts = True, lp_mask_api_keys = True, lp_mask_pii = False\<rparr>\<rparr>"

definition preview_length :: "int \<Rightarrow> int" where
  "preview_length n = (if n < 0 then 0 else if n = 0 then 200 else n)"

definition applyLoggingDefaults :: "LoggingPolicy \<Rightarrow> LoggingPolicy" where
  "applyLoggingDefaults cfg =
     cfg \<lparr>lg_record := (lg_record cfg)
            \<lparr>lr_input_preview_length := preview_length (lr_input_preview_length (lg_record cfg)),
             lr_output_preview_length := preview_length (lr_output_preview_length (lg_record cfg))\<rparr>\<rparr>"

definition LoadLoggingConfig ::
  "read_file \<Rightarrow> (string \<Rightarrow> error_text + LoggingPolicy) \<Rightarrow> string \<Rightarrow> LoggingPolicy" where
  "LoadLoggingConfig readf unmarshal configDir =
     (case readf (path_join [configDir, ''logging.yaml'']) of
        Inl _ \<Rightarrow> defaultLoggingConfig
      | Inr data \<Rightarrow>
         (case unmarshal data of
            Inl _ \<Rightarrow> defaultLoggingConfig
          | Inr cfg \<Rightarrow> applyLoggingDefaults cfg))"

subsection \<open>usage_retention.yaml\<close>

record DetailLogsRetention =
  dl_hot_storage_days :: int
  dl_archive_after_days :: int
  dl_delete_after_days :: int

record AggregatedRetention =
  ag_daily_keep_days :: int
  ag_monthly_keep_years :: int
  ag_yearly_keep_years :: int

record ResetPolicy =
  rp_require_confirmation :: bool
  rp_allowed_operations :: "string list"

record RetentionPolicy =
  rt_detail_logs :: DetailLogsRetention
  rt_aggregated :: AggregatedRetention
  rt_reset :: ResetPolicy

fun any_equal :: "string \<Rightarrow> string list \<Rightarrow> bool" where
  "any_equal op [] = False"
| "any_equal op (allowed # rest) = (if allowed = op then True else any_equal op rest)"

definition IsOperationAllowed :: "ResetPolicy \<Rightarrow> string \<Rightarrow> bool" where
  "IsOperationAllowed r op = any_equal op (rp_allowed_operations r)"

definition LoadRetentionConfig ::
  "read_file \<Rightarrow> (string \<Rightarrow> error_text + RetentionPolicy) \<Rightarrow> string \<Rightarrow> error_text + RetentionPolicy" where
  "LoadRetentionConfig readf unmarshal configDir =
     (case readf (path_join [configDir, ''usage_retention.yaml'']) of
        Inl err \<Rightarrow> Inl (bytes [235, 179, 180, 236, 161, 180, 32, 236, 160, 149, 236, 177, 133, 32, 236, 132, 164, 236, 160, 149, 32, 237, 140, 140, 236, 157, 188, 32, 236, 157, 189, 234, 184, 176, 32, 236, 139, 164, 237, 140, 168, 58, 32] @ err)
      | Inr data \<Rightarrow>
         (case unmarshal data of
            Inl err \<Rightarrow> Inl (bytes [235, 179, 180, 236, 161, 180, 32, 236, 160, 149, 236, 177, 133, 32, 236, 132, 164, 236, 160, 149, 32, 237, 140, 140, 236, 139, 177, 32, 236, 139, 164, 237, 140, 168, 58, 32] @ err)
          | Inr cfg \<Rightarrow>
             Inr (cfg \<lparr>rt_detail_logs := (rt_detail_logs cfg)
               \<lparr>dl_hot_storage_days := or_default 90 (dl_hot_storage_days (rt_detail_logs cfg)),
                dl_archive_after_days := or_default 90 (dl_archive_after_days (rt_detail_logs cfg))\<rparr>\<rparr>)))"

subsection \<open>Facts\<close>

lemma any_equal_iff [simp]: "any_equal op xs \<longleftrightarrow> op \<in> set xs"
  by (induction xs) auto

lemma IsOperationAllowed_iff: "IsOperationAllowed r op \<longleftrightarrow> op \<in> set (rp_allowed_operations r)"
  by (simp add: IsOperationAllowed_def)

lemma or_default_nonzero: "d \<noteq> 0 \<Longrightarrow> or_default d n \<noteq> 0"
  by (simp add: or_default_def)

lemma projects_segment: "plain_segment ''projects''"
  by (simp add: plain_segment_def slash_def)

text \<open>
  A project name from a request cannot make \<^verbatim>\<open>LoadProjectFallback\<close> read outside the directory
  \<^verbatim>\<open><configDir>/projects\<close>: two file systems that agree on the direct children of that directory
  give the same result, whatever else they hold.
\<close>

theorem project_fallback_confined:
  assumes "\<And>f. slash \<notin> set f \<Longrightarrow>
      readf (path_join [configDir, ''projects''] @ slash # f) =
      readf' (path_join [configDir, ''projects''] @ slash # f)"
  shows "LoadProjectFallback readf unmarshal configDir project =
      LoadProjectFallback readf' unmarshal configDir project"
proof (cases "unsafe_name project")
  case False
  then have "slash \<notin> set (yaml_name project)" by (rule yaml_name_no_slash)
  moreover have "plain_segment (yaml_name project)"
    using False by (intro plain_segment_yaml) (simp add: safe_name_chars)
  ultimately show ?thesis
    using False assms by (simp add: LoadProjectFallback_def path_join_child projects_segment)
qed (simp add: LoadProjectFallback_def)

theorem project_fallback_confined_witness:
  "LoadProjectFallback
     (\<lambda>p. if p = ''conf/projects/app.yaml'' then Inr ''x'' else Inl ''absent'')
     (\<lambda>_. Inl ''bad'') ''conf'' ''app'' =
   LoadProjectFallback
     (\<lambda>p. if p = ''conf/projects/app.yaml'' then Inr ''x'' else if p = ''/etc/passwd'' then Inr ''root'' else Inl ''absent'')
     (\<lambda>_. Inl ''bad'') ''conf'' ''app''"
  by (rule project_fallback_confined) (simp add: path_join_def path_clean_def Let_def is_abs_def
      has_prefix_def slash_def)

end
