(* ===== verification/Router.thy ===== *)
theory Router
  imports CircuitBreaker Semaphore Fallback Registry Config
begin

text \<open>
  \<^verbatim>\<open>internal/router/router.go\<close>: target list, one try at a provider, sequential fallback, and the
  operations the streaming handler uses directly.  A goroutine acts on the \<open>world\<close>, the router and the
  clock.  What the model cannot read is the environment: the provider's \<^verbatim>\<open>Chat\<close>, and what happens
  while \<^verbatim>\<open>Acquire\<close> waits; both may let other goroutines change the world.  \<^const>\<open>None\<close> as a result
  means that the call never returns.  The concurrent strategy is in theory \<open>Fastest\<close>.
\<close>

subsection \<open>The router\<close>

record 'p Router =
  r_registry :: "'p Registry"
  r_fbCfg :: "FallbackGlobalConfig option"
  r_breakers :: "string \<rightharpoonup> CircuitBreaker"
  r_semaphores :: "string \<rightharpoonup> Semaphore"

definition NewRouter :: "'p Registry \<Rightarrow> FallbackGlobalConfig option \<Rightarrow> 'p Router" where
  "NewRouter registry fbCfg =
     \<lparr>r_registry = registry, r_fbCfg = fbCfg,
      r_breakers = (\<lambda>name. case fbCfg of
          None \<Rightarrow> None
        | Some cfg \<Rightarrow>
            (case fgc_providers cfg name of
               None \<Rightarrow> None
             | Some _ \<Rightarrow>
                 Some (NewCircuitBreaker name
                   (cbc_failure_threshold (fgc_circuit_breaker cfg))
                   (cbc_recovery_timeout_sec (fgc_circuit_breaker cfg))
                   (cbc_half_open_requests (fgc_circuit_breaker cfg))))),
      r_semaphores = (\<lambda>name. case fbCfg of
          None \<Rightarrow> None
        | Some cfg \<Rightarrow>
            (case fgc_providers cfg name of
               None \<Rightarrow> None
             | Some pCfg \<Rightarrow> Some (NewSemaphore name (pfc_max_concurrent pCfg))))\<rparr>"

definition buildTargets :: "ChatRequest \<Rightarrow> FallbackTarget list" where
  "buildTargets req =
     [\<lparr>ft_provider = req_provider req, ft_model = req_model req\<rparr>] @ req_fallback req"

definition getProviderTimeout :: "'p Router \<Rightarrow> string \<Rightarrow> int option" where
  "getProviderTimeout r name =
     (case r_fbCfg r of
        None \<Rightarrow> None
      | Some cfg \<Rightarrow>
          (case fgc_providers cfg name of
             None \<Rightarrow> None
           | Some pCfg \<Rightarrow> if pfc_timeout_ms pCfg > 0 then Some (pfc_timeout_ms pCfg) else None))"

text \<open>\<^verbatim>\<open>int64\<close> multiplication: a timeout of more than 292 years wraps around.\<close>

definition provider_context :: "'p Router \<Rightarrow> string \<Rightarrow> context_err \<Rightarrow> go_time \<Rightarrow> context_err" where
  "provider_context r name ctx now =
     (case getProviderTimeout r name of
        Some timeoutMs \<Rightarrow> WithTimeout ctx now (int64 (timeoutMs * millisecond))
      | None \<Rightarrow> ctx)"

subsection \<open>The operations on one provider's breaker and semaphore\<close>

record 'p world =
  w_router :: "'p Router"
  w_now :: go_time

definition set_breaker :: "string \<Rightarrow> CircuitBreaker \<Rightarrow> 'p world \<Rightarrow> 'p world" where
  "set_breaker name cb w =
     w\<lparr>w_router := (w_router w)\<lparr>r_breakers := (r_breakers (w_router w))(name \<mapsto> cb)\<rparr>\<rparr>"

definition set_semaphore :: "string \<Rightarrow> Semaphore \<Rightarrow> 'p world \<Rightarrow> 'p world" where
  "set_semaphore name s w =
     w\<lparr>w_router := (w_router w)\<lparr>r_semaphores := (r_semaphores (w_router w))(name \<mapsto> s)\<rparr>\<rparr>"

definition circuit_open_error :: "string \<Rightarrow> error_text" where
  "circuit_open_error name = bytes [237, 148, 132, 235, 161, 156, 235, 176, 148, 236, 157, 180, 235, 141, 148, 32, 39] @ name @ bytes [39, 32, 67, 105, 114, 99, 117, 105, 116, 32, 66, 114, 101, 97, 107, 101, 114, 32, 236, 151, 180, 235, 166, 188]"

definition CheckCircuitBreaker :: "string \<Rightarrow> 'p world \<Rightarrow> error_text option \<times> 'p world" where
  "CheckCircuitBreaker name w =
     (case r_breakers (w_router w) name of
        None \<Rightarrow> (None, w)
      | Some cb \<Rightarrow>
          (case Allow (w_now w) cb of
             (ok, cb') \<Rightarrow> (if ok then None else Some (circuit_open_error name), set_breaker name cb' w)))"

definition AcquireSemaphore ::
  "sem_choice \<Rightarrow> context_err \<Rightarrow> string \<Rightarrow> 'p world \<Rightarrow> (error_text option \<times> 'p world) option" where
  "AcquireSemaphore pick ctx name w =
     (case r_semaphores (w_router w) name of
        None \<Rightarrow> Some (None, w)
      | Some sem \<Rightarrow>
          (case Acquire pick (ctx (w_now w)) sem of
             None \<Rightarrow> None
           | Some (err, sem') \<Rightarrow> Some (err, set_semaphore name sem' w)))"

definition ReleaseSemaphore :: "string \<Rightarrow> 'p world \<Rightarrow> 'p world option" where
  "ReleaseSemaphore name w =
     (case r_semaphores (w_router w) name of
        None \<Rightarrow> Some w
      | Some sem \<Rightarrow>
          (case Release sem of None \<Rightarrow> None | Some sem' \<Rightarrow> Some (set_semaphore name sem' w)))"

definition RouterRecordSuccess :: "string \<Rightarrow> 'p world \<Rightarrow> 'p world" where
  "RouterRecordSuccess name w =
     (case r_breakers (w_router w) name of
        None \<Rightarrow> w | Some cb \<Rightarrow> set_breaker name (RecordSuccess cb) w)"

definition RouterRecordFailure :: "string \<Rightarrow> 'p world \<Rightarrow> 'p world" where
  "RouterRecordFailure name w =
     (case r_breakers (w_router w) name of
        None \<Rightarrow> w | Some cb \<Rightarrow> set_breaker name (RecordFailure (w_now w) cb) w)"

definition ProviderTimeout :: "'p Router \<Rightarrow> string \<Rightarrow> int option" where
  "ProviderTimeout r name = getProviderTimeout r name"

text \<open>\<open>order\<close> is the order in which \<^verbatim>\<open>range\<close> visits the breakers.\<close>

definition CircuitBreakerStats :: "'p Router \<Rightarrow> string list \<Rightarrow> BreakerStats list" where
  "CircuitBreakerStats r order =
     concat (map (\<lambda>n. case r_breakers r n of None \<Rightarrow> [] | Some cb \<Rightarrow> [Stats cb]) order)"

subsection \<open>One try\<close>

text \<open>
  \<open>env_wait\<close>: the world when a waiting \<^verbatim>\<open>Acquire\<close> is woken; \<open>env_chat\<close>: the provider's answer and the
  world at that moment.
\<close>

record 'p env =
  env_pick :: "string \<Rightarrow> 'p world \<Rightarrow> sem_choice"
  env_wait :: "string \<Rightarrow> 'p world \<Rightarrow> 'p world option"
  env_chat :: "'p \<Rightarrow> context_err \<Rightarrow> ChatRequest \<Rightarrow> 'p world \<Rightarrow>
                 ((error_text + ChatResponse) \<times> 'p world) option"

definition acquire_waiting ::
  "'p env \<Rightarrow> context_err \<Rightarrow> string \<Rightarrow> 'p world \<Rightarrow> (error_text option \<times> 'p world) option" where
  "acquire_waiting env ctx name w =
     (case AcquireSemaphore (env_pick env name w) ctx name w of
        Some r \<Rightarrow> Some r
      | None \<Rightarrow>
          (case env_wait env name w of
             None \<Rightarrow> None
           | Some w' \<Rightarrow> AcquireSemaphore (env_pick env name w') ctx name w'))"

definition semaphore_timeout :: error_text where
  "semaphore_timeout = bytes [236, 132, 184, 235, 167, 136, 237, 143, 172, 236, 150, 180, 32, 237, 154, 141, 235, 147, 157, 32, 237, 131, 128, 236, 158, 132, 236, 149, 132, 236, 155, 131]"

definition new_attempt :: "int \<Rightarrow> FallbackTarget \<Rightarrow> FallbackAttempt" where
  "new_attempt order t =
     \<lparr>fa_order = order, fa_provider = ft_provider t, fa_model = ft_model t,
      fa_status = [], fa_error = [], fa_latency_ms = 0\<rparr>"

definition provider_request :: "ChatRequest \<Rightarrow> FallbackTarget \<Rightarrow> ChatRequest" where
  "provider_request req t = req\<lparr>req_provider := ft_provider t, req_model := ft_model t\<rparr>"

type_synonym try_result = "(error_text + ChatResponse) \<times> FallbackAttempt"

definition finish_try :: "string \<Rightarrow> try_result \<Rightarrow> 'p world \<Rightarrow> (try_result \<times> 'p world) option" where
  "finish_try name r w = (case ReleaseSemaphore name w of None \<Rightarrow> None | Some w' \<Rightarrow> Some (r, w'))"

definition call_provider ::
  "'p env \<Rightarrow> context_err \<Rightarrow> ChatRequest \<Rightarrow> FallbackTarget \<Rightarrow> 'p \<Rightarrow> FallbackAttempt \<Rightarrow> 'p world
   \<Rightarrow> (try_result \<times> 'p world) option" where
  "call_provider env ctx req t p attempt w =
     (let name = ft_provider t;
          provCtx = provider_context (w_router w) name ctx (w_now w);
          start = w_now w
      in case env_chat env p provCtx (provider_request req t) w of
           None \<Rightarrow> None
         | Some (r, w1) \<Rightarrow>
             (let attempt = attempt\<lparr>fa_latency_ms := Milliseconds (w_now w1 - start)\<rparr>
              in case r of
                   Inl err \<Rightarrow>
                     finish_try name (Inl err, attempt\<lparr>fa_status := ''error'', fa_error := err\<rparr>)
                       (RouterRecordFailure name w1)
                 | Inr resp \<Rightarrow>
                     finish_try name (Inr resp, attempt\<lparr>fa_status := ''success''\<rparr>)
                       (RouterRecordSuccess name w1)))"

definition tryProvider ::
  "'p env \<Rightarrow> context_err \<Rightarrow> ChatRequest \<Rightarrow> FallbackTarget \<Rightarrow> int \<Rightarrow> 'p world
   \<Rightarrow> (try_result \<times> 'p world) option" where
  "tryProvider env ctx req t order w =
     (let name = ft_provider t; attempt = new_attempt order t in
      case CheckCircuitBreaker name w of
        (Some err, w1) \<Rightarrow>
          Some ((Inl err, attempt\<lparr>fa_status := ''circuit_open'', fa_error := err\<rparr>), w1)
      | (None, w1) \<Rightarrow>
          (case Registry_Get (r_registry (w_router w1)) name of
             Inl err \<Rightarrow>
               Some ((Inl err, attempt\<lparr>fa_status := ''provider_not_found'', fa_error := err\<rparr>), w1)
           | Inr p \<Rightarrow>
               (case acquire_waiting env ctx name w1 of
                  None \<Rightarrow> None
                | Some (Some err, w2) \<Rightarrow>
                    Some ((Inl err, attempt\<lparr>fa_status := ''timeout'', fa_error := semaphore_timeout\<rparr>), w2)
                | Some (None, w2) \<Rightarrow> call_provider env ctx req t p attempt w2)))"

subsection \<open>Sequential fallback\<close>

type_synonym exec_result = "(error_text + ChatResponse) \<times> FallbackAttempt list"

definition mark_fallback :: "string \<Rightarrow> ChatResponse \<Rightarrow> ChatResponse" where
  "mark_fallback reason resp =
     resp\<lparr>resp_metadata := (resp_metadata resp)
       \<lparr>md_fallback_used := True, md_fallback_reason := Some reason\<rparr>\<rparr>"

definition all_failed :: error_text where
  "all_failed = bytes [235, 170, 168, 235, 147, 160, 32, 237, 148, 132, 235, 161, 156, 235, 176, 148, 236, 157, 180, 235, 141, 148, 32, 236, 154, 148, 236, 178, 173, 32, 236, 139, 164, 237, 140, 168, 58, 32]"

definition moves_on :: "string \<Rightarrow> FallbackAttempt \<Rightarrow> error_text \<Rightarrow> bool" where
  "moves_on policy a err \<longleftrightarrow> fa_status a = ''circuit_open'' \<or> fa_status a = ''provider_not_found'' \<or>
     shouldFallback policy (Some err)"

text \<open>The printed form of a nil error under \<^verbatim>\<open>%w\<close>, for an empty target list.\<close>

definition show_err :: "error_text option \<Rightarrow> string" where
  "show_err e = (case e of Some t \<Rightarrow> t | None \<Rightarrow> ''%!w(<nil>)'')"

fun executeSequential ::
  "'p env \<Rightarrow> context_err \<Rightarrow> ChatRequest \<Rightarrow> string \<Rightarrow> int \<Rightarrow> FallbackAttempt list \<Rightarrow> error_text option
   \<Rightarrow> FallbackTarget list \<Rightarrow> 'p world \<Rightarrow> (exec_result \<times> 'p world) option" where
  "executeSequential env ctx req policy i attempts lastErr [] w =
     Some ((Inl (all_failed @ show_err lastErr), attempts), w)"
| "executeSequential env ctx req policy i attempts lastErr (t # ts) w =
     (case tryProvider env ctx req t (i + 1) w of
        None \<Rightarrow> None
      | Some ((Inr resp, attempt), w') \<Rightarrow>
          (case lastErr of
             Some e \<Rightarrow>
               if i > 0
               then Some ((Inr (mark_fallback (''fallback:'' @ policy @ '' - '' @ e) resp), attempts @ [attempt]), w')
               else Some ((Inr resp, attempts @ [attempt]), w')
           | None \<Rightarrow> Some ((Inr resp, attempts @ [attempt]), w'))
      | Some ((Inl err, attempt), w') \<Rightarrow>
          if ctx (w_now w') \<noteq> None then Some ((Inl err, attempts @ [attempt]), w')
          else if moves_on policy attempt err
          then executeSequential env ctx req policy (i + 1) (attempts @ [attempt]) (Some err) ts w'
          else Some ((Inl err, attempts @ [attempt]), w'))"

definition effective_policy :: "ChatRequest \<Rightarrow> string" where
  "effective_policy req = (if req_fallback_policy req = [] then PolicyOnError else req_fallback_policy req)"

subsection \<open>One try: facts\<close>

lemma set_breaker_simps [simp]:
  "r_semaphores (w_router (set_breaker n cb w)) = r_semaphores (w_router w)"
  "r_registry (w_router (set_breaker n cb w)) = r_registry (w_router w)"
  "r_fbCfg (w_router (set_breaker n cb w)) = r_fbCfg (w_router w)"
  "w_now (set_breaker n cb w) = w_now w"
  by (simp_all add: set_breaker_def)

lemma set_semaphore_simps [simp]:
  "r_semaphores (w_router (set_semaphore n s w)) = (r_semaphores (w_router w))(n \<mapsto> s)"
  "r_registry (w_router (set_semaphore n s w)) = r_registry (w_router w)"
  "r_breakers (w_router (set_semaphore n s w)) = r_breakers (w_router w)"
  "r_fbCfg (w_router (set_semaphore n s w)) = r_fbCfg (w_router w)"
  "w_now (set_semaphore n s w) = w_now w"
  by (simp_all add: set_semaphore_def)

lemma breaker_ops_keep [simp]:
  "r_semaphores (w_router (snd (CheckCircuitBreaker n w))) = r_semaphores (w_router w)"
  "r_semaphores (w_router (RouterRecordSuccess n w)) = r_semaphores (w_router w)"
  "r_semaphores (w_router (RouterRecordFailure n w)) = r_semaphores (w_router w)"
  "r_registry (w_router (snd (CheckCircuitBreaker n w))) = r_registry (w_router w)"
  "r_fbCfg (w_router (snd (CheckCircuitBreaker n w))) = r_fbCfg (w_router w)"
  "w_now (snd (CheckCircuitBreaker n w)) = w_now w"
  by (auto simp: CheckCircuitBreaker_def RouterRecordSuccess_def RouterRecordFailure_def
      split: option.split prod.split)

text \<open>How a try can end.\<close>

definition attempt_ok :: "FallbackTarget \<Rightarrow> int \<Rightarrow> error_text + ChatResponse \<Rightarrow> FallbackAttempt \<Rightarrow> bool" where
  "attempt_ok t order r a \<longleftrightarrow>
     fa_provider a = ft_provider t \<and> fa_model a = ft_model t \<and> fa_order a = order \<and>
     (case r of
        Inr resp \<Rightarrow> fa_status a = ''success'' \<and> fa_error a = []
      | Inl e \<Rightarrow>
          (fa_status a \<in> {''circuit_open'', ''provider_not_found'', ''error''} \<and> fa_error a = e) \<or>
          (fa_status a = ''timeout'' \<and> fa_error a = semaphore_timeout))"

lemma tryProvider_attempt:
  "tryProvider env ctx req t order w = Some ((r, a), w') \<Longrightarrow> attempt_ok t order r a"
  by (auto simp: tryProvider_def call_provider_def finish_try_def Let_def attempt_ok_def new_attempt_def
      split: option.splits sum.splits prod.splits)

subsection \<open>The trace of a sequential execution\<close>

text \<open>A failed try after which the next target is tried.\<close>

definition passed_over :: "string \<Rightarrow> FallbackAttempt \<Rightarrow> bool" where
  "passed_over policy a \<longleftrightarrow>
     fa_status a \<in> {''circuit_open'', ''provider_not_found'', ''timeout''} \<or>
     (fa_status a = ''error'' \<and> shouldFallback policy (Some (fa_error a)))"

definition attempts_follow :: "FallbackAttempt list \<Rightarrow> FallbackTarget list \<Rightarrow> int \<Rightarrow> bool" where
  "attempts_follow as ts i \<longleftrightarrow> length as \<le> length ts \<and>
     (\<forall>k < length as. fa_provider (as ! k) = ft_provider (ts ! k) \<and> fa_model (as ! k) = ft_model (ts ! k) \<and>
        fa_order (as ! k) = i + int k + 1)"

text \<open>The recursion with its accumulator taken off.\<close>

definition seq_outcome ::
  "string \<Rightarrow> FallbackTarget list \<Rightarrow> int \<Rightarrow> error_text + ChatResponse \<Rightarrow> FallbackAttempt list \<Rightarrow> bool" where
  "seq_outcome policy ts i r as \<longleftrightarrow>
     attempts_follow as ts i \<and> (ts \<noteq> [] \<longrightarrow> as \<noteq> []) \<and>
     (\<forall>a \<in> set (butlast as). passed_over policy a) \<and>
     (case r of
        Inr resp \<Rightarrow> as \<noteq> [] \<and> fa_status (last as) = ''success''
      | Inl e \<Rightarrow> \<forall>a \<in> set as. fa_status a \<noteq> ''success'')"

lemma attempts_follow_Cons:
  "attempts_follow (a # as) (t # ts) i \<longleftrightarrow>
     fa_provider a = ft_provider t \<and> fa_model a = ft_model t \<and> fa_order a = i + 1 \<and> attempts_follow as ts (i + 1)"
proof
  assume h: "attempts_follow (a # as) (t # ts) i"
  have "fa_provider (as ! k) = ft_provider (ts ! k) \<and> fa_model (as ! k) = ft_model (ts ! k) \<and>
      fa_order (as ! k) = i + 1 + int k + 1" if "k < length as" for k
    using h that unfolding attempts_follow_def by (auto dest: spec [of _ "Suc k"])
  then show "fa_provider a = ft_provider t \<and> fa_model a = ft_model t \<and> fa_order a = i + 1 \<and>
      attempts_follow as ts (i + 1)"
    using h unfolding attempts_follow_def by (auto dest: spec [of _ 0])
next
  assume h: "fa_provider a = ft_provider t \<and> fa_model a = ft_model t \<and> fa_order a = i + 1 \<and>
      attempts_follow as ts (i + 1)"
  then show "attempts_follow (a # as) (t # ts) i"
    unfolding attempts_follow_def by (auto simp: less_Suc_eq_0_disj)
qed

lemma passed_overI:
  "attempt_ok t n (Inl e) a \<Longrightarrow> moves_on policy a e \<Longrightarrow> passed_over policy a"
  by (auto simp: attempt_ok_def moves_on_def passed_over_def)

lemma seq_outcome_single:
  "attempt_ok t (i + 1) r a \<Longrightarrow> (\<And>x. r = Inr x \<Longrightarrow> \<exists>y. r' = Inr y) \<Longrightarrow> (\<And>x. r = Inl x \<Longrightarrow> \<exists>y. r' = Inl y)
   \<Longrightarrow> seq_outcome policy (t # ts) i r' [a]"
  by (cases r) (auto simp: seq_outcome_def attempts_follow_def attempt_ok_def semaphore_timeout_def)

lemma sequential_trace:
  "executeSequential env ctx req policy i attempts lastErr ts w = Some ((r, out), w') \<Longrightarrow>
   \<exists>as. out = attempts @ as \<and> seq_outcome policy ts i r as"
proof (induction ts arbitrary: i attempts lastErr w)
  case Nil
  then show ?case by (auto simp: seq_outcome_def attempts_follow_def)
next
  case (Cons t ts)
  obtain r1 a w1 where t: "tryProvider env ctx req t (i + 1) w = Some ((r1, a), w1)"
    using Cons.prems by (auto split: option.splits)
  note ok = tryProvider_attempt [OF t]
  show ?case
  proof (cases r1)
    case (Inr resp)
    have "out = attempts @ [a]" and "\<exists>resp'. r = Inr resp'"
      using Cons.prems t Inr by (auto split: option.splits if_splits)
    then show ?thesis using seq_outcome_single [OF ok] Inr by auto
  next
    case (Inl e)
    show ?thesis
    proof (cases "ctx (w_now w1) = None \<and> moves_on policy a e")
      case False
      then have "out = attempts @ [a]" and "r = Inl e"
        using Cons.prems t Inl by (auto split: if_splits)
      then show ?thesis using seq_outcome_single [OF ok] Inl by auto
    next
      case True
      then have "executeSequential env ctx req policy (i + 1) (attempts @ [a]) (Some e) ts w1 = Some ((r, out), w')"
        using Cons.prems t Inl by auto
      then obtain as where as: "out = (attempts @ [a]) @ as" "seq_outcome policy ts (i + 1) r as"
        using Cons.IH by blast
      have "passed_over policy a" using ok Inl True passed_overI by blast
      then have "seq_outcome policy (t # ts) i r (a # as)"
        using as(2) ok Inl unfolding seq_outcome_def attempts_follow_Cons
        by (auto simp: attempt_ok_def split: sum.splits)
      then show ?thesis using as(1) by auto
    qed
  qed
qed

text \<open>An execution that fails before its last target has a reason to stop.\<close>

lemma sequential_stops:
  "executeSequential env ctx req policy i attempts lastErr ts w = Some ((Inl e, out), w') \<Longrightarrow>
   \<exists>as. out = attempts @ as \<and>
     (length as < length ts \<longrightarrow> as \<noteq> [] \<and> (ctx (w_now w') \<noteq> None \<or> \<not> moves_on policy (last as) e))"
proof (induction ts arbitrary: i attempts lastErr w)
  case (Cons t ts)
  obtain r a w1 where t: "tryProvider env ctx req t (i + 1) w = Some ((r, a), w1)"
    using Cons.prems by (auto split: option.splits)
  obtain err where r: "r = Inl err"
    using Cons.prems t by (cases r) (auto split: option.splits if_splits)
  show ?case
  proof (cases "ctx (w_now w1) = None \<and> moves_on policy a err")
    case False
    then have "out = attempts @ [a]" "e = err" "w' = w1"
      using Cons.prems t r by (auto split: if_splits)
    then show ?thesis using False by auto
  next
    case True
    then have "executeSequential env ctx req policy (i + 1) (attempts @ [a]) (Some err) ts w1 = Some ((Inl e, out), w')"
      using Cons.prems t r by auto
    then obtain as where "out = (attempts @ [a]) @ as"
      "length as < length ts \<longrightarrow> as \<noteq> [] \<and> (ctx (w_now w') \<noteq> None \<or> \<not> moves_on policy (last as) e)"
      using Cons.IH by blast
    then show ?thesis by (intro exI [of _ "a # as"]) auto
  qed
qed simp

subsection \<open>Slots are given back\<close>

text \<open>Every provider answers in the end and other goroutines leave the slots as they found them.\<close>

definition quiet_env :: "'p env \<Rightarrow> bool" where
  "quiet_env env \<longleftrightarrow> (\<forall>p ctx req w. \<exists>r w1. env_chat env p ctx req w = Some (r, w1) \<and>
     r_semaphores (w_router w1) = r_semaphores (w_router w))"

definition slots_free :: "'p world \<Rightarrow> bool" where
  "slots_free w \<longleftrightarrow> (\<forall>n s. r_semaphores (w_router w) n = Some s \<longrightarrow> sem_len s < sem_cap s)"

text \<open>The world of a slot holder: one slot of its provider is taken, if the provider has slots.\<close>

definition holds_slot :: "string \<Rightarrow> 'p world \<Rightarrow> 'p world \<Rightarrow> bool" where
  "holds_slot n w w' \<longleftrightarrow> (case r_semaphores (w_router w) n of
     None \<Rightarrow> r_semaphores (w_router w') = r_semaphores (w_router w)
   | Some s \<Rightarrow> r_semaphores (w_router w') = (r_semaphores (w_router w))(n \<mapsto> s\<lparr>sem_len := Suc (sem_len s)\<rparr>))"

lemma release_held:
  assumes "holds_slot n w w'"
  shows "\<exists>w''. ReleaseSemaphore n w' = Some w'' \<and> r_semaphores (w_router w'') = r_semaphores (w_router w)"
  using assms
  by (auto simp: holds_slot_def ReleaseSemaphore_def Release_def fun_eq_iff split: option.splits)

lemma holds_slot_cong:
  "holds_slot n w w' \<Longrightarrow> r_semaphores (w_router w'') = r_semaphores (w_router w') \<Longrightarrow> holds_slot n w w''"
  by (simp add: holds_slot_def split: option.splits)

lemma acquire_free:
  assumes "slots_free w"
  shows "(\<exists>w'. acquire_waiting env ctx n w = Some (None, w') \<and> holds_slot n w w') \<or>
    (\<exists>e w'. acquire_waiting env ctx n w = Some (Some e, w') \<and> r_semaphores (w_router w') = r_semaphores (w_router w))"
proof (cases "r_semaphores (w_router w) n")
  case None
  then show ?thesis by (simp add: acquire_waiting_def AcquireSemaphore_def holds_slot_def)
next
  case (Some s)
  then have "sem_len s < sem_cap s" using assms by (simp add: slots_free_def)
  then show ?thesis using Some
    by (auto simp: acquire_waiting_def AcquireSemaphore_def holds_slot_def Acquire_def Let_def
        split: option.splits)
qed

lemma call_provider_returns:
  assumes "quiet_env env" and "holds_slot (ft_provider t) w0 w"
  shows "\<exists>r a w'. call_provider env ctx req t p att w = Some ((r, a), w') \<and>
    r_semaphores (w_router w') = r_semaphores (w_router w0)"
proof -
  let ?ctx = "provider_context (w_router w) (ft_provider t) ctx (w_now w)"
  obtain r w1 where c: "env_chat env p ?ctx (provider_request req t) w = Some (r, w1)"
    "r_semaphores (w_router w1) = r_semaphores (w_router w)"
    using assms(1) unfolding quiet_env_def by blast
  have "holds_slot (ft_provider t) w0 (RouterRecordFailure (ft_provider t) w1)"
    "holds_slot (ft_provider t) w0 (RouterRecordSuccess (ft_provider t) w1)"
    using assms(2) c(2) by (simp_all add: holds_slot_def split: option.splits)
  then show ?thesis
    using c(1) release_held unfolding call_provider_def finish_try_def Let_def
    by (cases r) (fastforce split: option.splits)+
qed

lemma tryProvider_returns:
  assumes "quiet_env env" and "slots_free w"
  shows "\<exists>r a w'. tryProvider env ctx req t n w = Some ((r, a), w') \<and>
    r_semaphores (w_router w') = r_semaphores (w_router w)"
proof -
  let ?n = "ft_provider t"
  obtain e w1 where c: "CheckCircuitBreaker ?n w = (e, w1)" by (metis surj_pair)
  have s1: "r_semaphores (w_router w1) = r_semaphores (w_router w)"
    using breaker_ops_keep(1) [of ?n w] c by simp
  have "slots_free w1" using assms(2) s1 by (simp add: slots_free_def)
  then show ?thesis
    using acquire_free [of w1 env ctx ?n] call_provider_returns [OF assms(1), of t w1] c s1
    unfolding tryProvider_def Let_def
    by (fastforce split: option.splits sum.splits)
qed

lemma sequential_returns:
  assumes "quiet_env env" and "slots_free w"
  shows "\<exists>r out w'. executeSequential env ctx req policy i attempts lastErr ts w = Some ((r, out), w') \<and>
    r_semaphores (w_router w') = r_semaphores (w_router w)"
  using assms(2)
proof (induction ts arbitrary: i attempts lastErr w)
  case (Cons t ts)
  obtain r1 a w1 where t: "tryProvider env ctx req t (i + 1) w = Some ((r1, a), w1)"
    "r_semaphores (w_router w1) = r_semaphores (w_router w)"
    using tryProvider_returns [OF assms(1) Cons.prems] by blast
  have "slots_free w1" using Cons.prems t(2) by (simp add: slots_free_def)
  then obtain r out w' where rest: "executeSequential env ctx req policy (i + 1) (attempts @ [a])
      (case r1 of Inl e \<Rightarrow> Some e | Inr x \<Rightarrow> lastErr) ts w1 = Some ((r, out), w')"
    "r_semaphores (w_router w') = r_semaphores (w_router w1)"
    using Cons.IH by blast
  show ?case using t rest by (cases r1) (auto split: option.splits)
qed auto

text \<open>
  C21. When every provider answers in the end and slots are free, a sequential execution returns, every
  slot it took is given back whatever the outcome, and the attempts it reports tell what it did: they
  are the targets, primary first, numbered from 1 without gaps; every attempt but the last failed in a
  way the policy passes over; the last one is the only success when there is a response, and there
  is no success when there is none.  It fails before the last target only if the context has ended or the
  policy does not go on after the last error.
\<close>

theorem sequential_execution_returns_with_trace:
  assumes "quiet_env env" and "slots_free w"
  shows "\<exists>r as w'. executeSequential env ctx req policy 0 [] None (buildTargets req) w = Some ((r, as), w') \<and>
    r_semaphores (w_router w') = r_semaphores (w_router w) \<and> seq_outcome policy (buildTargets req) 0 r as \<and>
    (\<forall>e. r = Inl e \<and> length as < length (buildTargets req) \<longrightarrow>
       ctx (w_now w') \<noteq> None \<or> \<not> moves_on policy (last as) e)"
proof -
  obtain r as w' where run: "executeSequential env ctx req policy 0 [] None (buildTargets req) w = Some ((r, as), w')"
    and "r_semaphores (w_router w') = r_semaphores (w_router w)"
    using sequential_returns [OF assms, of ctx req policy 0 "[]" None "buildTargets req"] by fastforce
  moreover have "seq_outcome policy (buildTargets req) 0 r as"
    using sequential_trace [OF run] by simp
  moreover have "ctx (w_now w') \<noteq> None \<or> \<not> moves_on policy (last as) e"
    if "r = Inl e" "length as < length (buildTargets req)" for e
    using sequential_stops [of env ctx req policy 0 "[]" None "buildTargets req" w e as w'] run that by auto
  ultimately show ?thesis by blast
qed

text \<open>A configuration with two providers, the first of which fails with a status 503.\<close>

definition sample_fallback_config :: FallbackGlobalConfig where
  "sample_fallback_config =
     \<lparr>fgc_circuit_breaker = \<lparr>cbc_failure_threshold = 2, cbc_recovery_timeout_sec = 30, cbc_half_open_requests = 1\<rparr>,
      fgc_providers = [''claude'' \<mapsto> \<lparr>pfc_max_concurrent = 2, pfc_timeout_ms = 1000\<rparr>,
                       ''gpt'' \<mapsto> \<lparr>pfc_max_concurrent = 1, pfc_timeout_ms = 0\<rparr>]\<rparr>"

definition sample_router :: "string Router" where
  "sample_router = NewRouter (Register id ''gpt'' (Register id ''claude'' NewRegistry)) (Some sample_fallback_config)"

definition sample_world :: "string world" where
  "sample_world = \<lparr>w_router = sample_router, w_now = 0\<rparr>"

definition sample_response :: "string \<Rightarrow> ChatResponse" where
  "sample_response p = \<lparr>resp_id = ''1'', resp_provider = p, resp_model = ''m'', resp_content = ''hi'',
     resp_usage = zero_usage, resp_metadata = zero_metadata\<rparr>"

definition sample_env :: "string env" where
  "sample_env = \<lparr>env_pick = (\<lambda>n w. PickSend), env_wait = (\<lambda>n w. None),
     env_chat = (\<lambda>p ctx req w. Some (if p = ''claude'' then Inl ''status: 503'' else Inr (sample_response p),
       w\<lparr>w_now := w_now w + second\<rparr>))\<rparr>"

definition sample_options :: ChatOptions where
  "sample_options = \<lparr>opt_temperature = None, opt_max_tokens = None, opt_top_p = None, opt_stream = False,
     opt_search_grounding = False\<rparr>"

definition sample_request :: ChatRequest where
  "sample_request = \<lparr>req_provider = ''claude'', req_model = ''m'', req_messages = [], req_options = sample_options,
     req_fallback = [\<lparr>ft_provider = ''gpt'', ft_model = ''n''\<rparr>], req_fallback_policy = [], req_project = [],
     req_task = [], req_prompt_vars = [], req_metadata = \<lparr>rm_client_id = ''c'', rm_request_id = ''r''\<rparr>\<rparr>"

lemma sample_quiet: "quiet_env sample_env"
  by (simp add: quiet_env_def sample_env_def)

lemma sample_slots: "slots_free sample_world"
  by (auto simp: slots_free_def sample_world_def sample_router_def NewRouter_def sample_fallback_config_def
      NewSemaphore_def split: if_splits)

theorem sequential_execution_returns_with_trace_witness:
  "\<exists>r as w'. executeSequential sample_env Background sample_request ''on_error'' 0 [] None
      (buildTargets sample_request) sample_world = Some ((r, as), w') \<and>
    r_semaphores (w_router w') = r_semaphores (w_router sample_world) \<and>
    seq_outcome ''on_error'' (buildTargets sample_request) 0 r as \<and>
    (\<forall>e. r = Inl e \<and> length as < length (buildTargets sample_request) \<longrightarrow>
       Background (w_now w') \<noteq> None \<or> \<not> moves_on ''on_error'' (last as) e)"
  by (rule sequential_execution_returns_with_trace [OF sample_quiet sample_slots])

subsection \<open>Where a response comes from\<close>

lemma tryProvider_origin:
  assumes "tryProvider env ctx req t n w = Some ((Inr resp, a), w')"
  shows "\<exists>p c w1 w2. env_chat env p c (provider_request req t) w1 = Some (Inr resp, w2)"
  using assms unfolding tryProvider_def call_provider_def finish_try_def Let_def
  by (auto split: option.splits sum.splits prod.splits)

definition fallback_reason :: "string \<Rightarrow> error_text \<Rightarrow> string" where
  "fallback_reason policy e = ''fallback:'' @ policy @ '' - '' @ e"

text \<open>The error of a failed attempt, which its record holds unless the semaphore wait was cut off.\<close>

definition attempt_error :: "FallbackAttempt \<Rightarrow> error_text \<Rightarrow> bool" where
  "attempt_error a e \<longleftrightarrow> fa_status a = ''timeout'' \<or> fa_error a = e"

lemma sequential_origin:
  assumes "executeSequential env ctx req policy i attempts lastErr ts w = Some ((Inr resp, out), w')"
    and "0 \<le> i"
  shows "\<exists>as resp0. out = attempts @ as \<and> as \<noteq> [] \<and> length as \<le> length ts \<and>
    (\<exists>p c w1 w2. env_chat env p c (provider_request req (ts ! (length as - 1))) w1 = Some (Inr resp0, w2)) \<and>
    (if length as = 1
     then resp = (case lastErr of Some e \<Rightarrow> if i > 0 then mark_fallback (fallback_reason policy e) resp0 else resp0
                  | None \<Rightarrow> resp0)
     else \<exists>e. attempt_error (as ! (length as - 2)) e \<and> resp = mark_fallback (fallback_reason policy e) resp0)"
  using assms
proof (induction ts arbitrary: i attempts lastErr w)
  case (Cons t ts)
  obtain r1 a w1 where t: "tryProvider env ctx req t (i + 1) w = Some ((r1, a), w1)"
    using Cons.prems by (auto split: option.splits)
  show ?case
  proof (cases r1)
    case (Inr resp0)
    have o': "\<exists>p c w1 w2. env_chat env p c (provider_request req t) w1 = Some (Inr resp0, w2)"
      using tryProvider_origin t Inr by metis
    have "out = attempts @ [a] \<and> resp = (case lastErr of Some e \<Rightarrow>
        if i > 0 then mark_fallback (fallback_reason policy e) resp0 else resp0 | None \<Rightarrow> resp0)"
      using Cons.prems t Inr by (auto simp: fallback_reason_def split: option.splits if_splits)
    then show ?thesis using o' by (intro exI [of _ "[a]"] exI [of _ resp0]) simp
  next
    case (Inl e)
    have next_: "executeSequential env ctx req policy (i + 1) (attempts @ [a]) (Some e) ts w1 = Some ((Inr resp, out), w')"
      using Cons.prems t Inl by (auto split: if_splits)
    have pos: "0 < i + 1" using Cons.prems(2) by simp
    have err: "attempt_error a e"
      using tryProvider_attempt [OF t] Inl by (auto simp: attempt_ok_def attempt_error_def)
    obtain as resp0 where as: "out = (attempts @ [a]) @ as" "as \<noteq> []" "length as \<le> length ts"
      "\<exists>p c w1 w2. env_chat env p c (provider_request req (ts ! (length as - 1))) w1 = Some (Inr resp0, w2)"
      "if length as = 1 then resp = mark_fallback (fallback_reason policy e) resp0
       else \<exists>e. attempt_error (as ! (length as - 2)) e \<and> resp = mark_fallback (fallback_reason policy e) resp0"
      using Cons.IH [OF next_, unfolded option.case if_P [OF pos]] pos by force
    have "\<exists>e. attempt_error ((a # as) ! (length (a # as) - 2)) e \<and> resp = mark_fallback (fallback_reason policy e) resp0"
    proof (cases "length as = 1")
      case True
      then show ?thesis using as(5) err by auto
    next
      case False
      then have "length as - 1 = Suc (length as - 2)" using as(2) by (cases as) auto
      then show ?thesis using as(5) False by auto
    qed
    then show ?thesis
      using as by (intro exI [of _ "a # as"] exI [of _ resp0]) (auto simp: nth_Cons' split: if_splits)
  qed
qed simp

text \<open>
  A response is the answer of the provider that the last attempt names, to the request rewritten for
  that provider and model.  It is passed on untouched when the primary answered, and otherwise carries the
  fallback mark with the policy and the error of the attempt just before.
\<close>

theorem response_names_its_fallback:
  assumes "executeSequential env ctx req policy 0 [] None (buildTargets req) w = Some ((Inr resp, as), w')"
  shows "\<exists>resp0 p c w1 w2.
    env_chat env p c (provider_request req (buildTargets req ! (length as - 1))) w1 = Some (Inr resp0, w2) \<and>
    (if length as = 1 then resp = resp0
     else \<exists>e. attempt_error (as ! (length as - 2)) e \<and> resp = mark_fallback (fallback_reason policy e) resp0)"
  using sequential_origin [OF assms] by fastforce

lemma sample_run:
  "\<exists>w'. executeSequential sample_env Background sample_request ''on_error'' 0 [] None
      (buildTargets sample_request) sample_world =
    Some ((Inr (mark_fallback (fallback_reason ''on_error'' ''status: 503'') (sample_response ''gpt'')),
      [(new_attempt 1 \<lparr>ft_provider = ''claude'', ft_model = ''m''\<rparr>)\<lparr>fa_status := ''error'', fa_error := ''status: 503'', fa_latency_ms := 1000\<rparr>,
       (new_attempt 2 \<lparr>ft_provider = ''gpt'', ft_model = ''n''\<rparr>)\<lparr>fa_status := ''success'', fa_latency_ms := 1000\<rparr>]), w')"
proof -
  have "moves_on ''on_error'' a ''status: 503''" for a
  proof -
    have "shouldFallback ''on_error'' (Some ''status: 503'')" by code_simp
    then show ?thesis by (simp add: moves_on_def)
  qed
  then show ?thesis
    by (simp add: buildTargets_def sample_request_def tryProvider_def CheckCircuitBreaker_def sample_world_def
        sample_router_def NewRouter_def sample_fallback_config_def NewRegistry_def Register_def
        Registry_Get_def Allow_def set_breaker_def acquire_waiting_def AcquireSemaphore_def Acquire_def
        NewSemaphore_def set_semaphore_def call_provider_def sample_env_def Background_def finish_try_def
        ReleaseSemaphore_def Release_def RouterRecordFailure_def RouterRecordSuccess_def RecordFailure_def
        fallback_reason_def Let_def second_def Milliseconds_def millisecond_def)
qed

theorem response_names_its_fallback_witness:
  "\<exists>resp as. (\<exists>resp0 p c w1 w2. env_chat sample_env p c
       (provider_request sample_request (buildTargets sample_request ! (length as - 1))) w1 = Some (Inr resp0, w2) \<and>
     (if length as = 1 then resp = resp0
      else \<exists>e. attempt_error (as ! (length as - 2)) e \<and>
        resp = mark_fallback (fallback_reason ''on_error'' e) resp0)) \<and>
     length as = 2 \<and> md_fallback_used (resp_metadata resp)"
proof -
  obtain w' resp as where run: "executeSequential sample_env Background sample_request ''on_error'' 0 [] None
      (buildTargets sample_request) sample_world = Some ((Inr resp, as), w')"
    and "length as = 2" and "md_fallback_used (resp_metadata resp)"
    using sample_run by (fastforce simp: mark_fallback_def)
  then show ?thesis using response_names_its_fallback [OF run] by blast
qed

end
