(* ===== verification/Workers.thy ===== *)
theory Workers
  imports Router
begin

text \<open>
  The same try (\<^verbatim>\<open>tryProvider\<close> and the goroutine body of \<^verbatim>\<open>executeFastest\<close> in
  \<^verbatim>\<open>internal/router/router.go\<close>) in small steps, one for each access to shared state, and any number of
  goroutines taking such steps in any order.  The lemmas show that a try run alone is \<^verbatim>\<open>tryProvider\<close>,
  that the semaphores bound the calls in flight, that a release never blocks, and that the goroutines
  cannot deadlock.
\<close>

subsection \<open>One goroutine\<close>

datatype 'p wpc =
    AtBreaker
  | AtLookup
  | AtAcquire 'p
  | AtCall 'p
  | InCall 'p context_err go_time
  | AtRecord "error_text + ChatResponse" FallbackAttempt
  | AtRelease try_result
  | Finished try_result

text \<open>
  \<open>pick\<close> is the choice of \<^verbatim>\<open>select\<close> when both cases are ready and \<open>answer\<close> what the provider answers; both
  matter only at their own step.  A step that cannot be taken now gives \<^const>\<open>None\<close>.
\<close>

fun worker_step ::
  "context_err \<Rightarrow> FallbackTarget \<Rightarrow> int \<Rightarrow> sem_choice \<Rightarrow> error_text + ChatResponse \<Rightarrow> 'p wpc \<Rightarrow> 'p world
   \<Rightarrow> ('p wpc \<times> 'p world) option" where
  "worker_step ctx t order pick answer AtBreaker w =
     (case CheckCircuitBreaker (ft_provider t) w of
        (Some err, w1) \<Rightarrow>
          Some (Finished (Inl err, (new_attempt order t)\<lparr>fa_status := ''circuit_open'', fa_error := err\<rparr>), w1)
      | (None, w1) \<Rightarrow> Some (AtLookup, w1))"
| "worker_step ctx t order pick answer AtLookup w =
     (case Registry_Get (r_registry (w_router w)) (ft_provider t) of
        Inl err \<Rightarrow>
          Some (Finished (Inl err, (new_attempt order t)\<lparr>fa_status := ''provider_not_found'', fa_error := err\<rparr>), w)
      | Inr p \<Rightarrow> Some (AtAcquire p, w))"
| "worker_step ctx t order pick answer (AtAcquire p) w =
     (case AcquireSemaphore pick ctx (ft_provider t) w of
        None \<Rightarrow> None
      | Some (Some err, w1) \<Rightarrow>
          Some (Finished (Inl err, (new_attempt order t)\<lparr>fa_status := ''timeout'', fa_error := semaphore_timeout\<rparr>), w1)
      | Some (None, w1) \<Rightarrow> Some (AtCall p, w1))"
| "worker_step ctx t order pick answer (AtCall p) w =
     Some (InCall p (provider_context (w_router w) (ft_provider t) ctx (w_now w)) (w_now w), w)"
| "worker_step ctx t order pick answer (InCall p c start) w =
     Some (AtRecord answer ((new_attempt order t)\<lparr>fa_latency_ms := Milliseconds (w_now w - start)\<rparr>), w)"
| "worker_step ctx t order pick answer (AtRecord r a) w =
     (case r of
        Inl err \<Rightarrow> Some (AtRelease (Inl err, a\<lparr>fa_status := ''error'', fa_error := err\<rparr>),
                         RouterRecordFailure (ft_provider t) w)
      | Inr resp \<Rightarrow> Some (AtRelease (Inr resp, a\<lparr>fa_status := ''success''\<rparr>),
                          RouterRecordSuccess (ft_provider t) w))"
| "worker_step ctx t order pick answer (AtRelease r) w =
     (case ReleaseSemaphore (ft_provider t) w of None \<Rightarrow> None | Some w' \<Rightarrow> Some (Finished r, w'))"
| "worker_step ctx t order pick answer (Finished r) w = None"

text \<open>A goroutine on its own, with the environment of theory \<open>Router\<close>; \<^term>\<open>n\<close> bounds its steps.\<close>

definition solo_step ::
  "'p env \<Rightarrow> context_err \<Rightarrow> ChatRequest \<Rightarrow> FallbackTarget \<Rightarrow> int \<Rightarrow> 'p wpc \<times> 'p world
   \<Rightarrow> ('p wpc \<times> 'p world) option" where
  "solo_step env ctx req t order st =
     (case st of (pc, w) \<Rightarrow>
        let name = ft_provider t; none = Inl [] in
        case pc of
          AtAcquire p \<Rightarrow>
            (case worker_step ctx t order (env_pick env name w) none pc w of
               Some st' \<Rightarrow> Some st'
             | None \<Rightarrow>
                 (case env_wait env name w of
                    None \<Rightarrow> None
                  | Some w' \<Rightarrow> worker_step ctx t order (env_pick env name w') none pc w'))
        | InCall p c start \<Rightarrow>
            (case env_chat env p c (provider_request req t) w of
               None \<Rightarrow> None
             | Some (r, w') \<Rightarrow> worker_step ctx t order PickSend r pc w')
        | _ \<Rightarrow> worker_step ctx t order PickSend none pc w)"

fun solo_run ::
  "'p env \<Rightarrow> context_err \<Rightarrow> ChatRequest \<Rightarrow> FallbackTarget \<Rightarrow> int \<Rightarrow> nat \<Rightarrow> 'p wpc \<times> 'p world
   \<Rightarrow> (try_result \<times> 'p world) option" where
  "solo_run env ctx req t order n (Finished r, w) = Some (r, w)"
| "solo_run env ctx req t order 0 st = None"
| "solo_run env ctx req t order (Suc n) st =
     (case solo_step env ctx req t order st of
        None \<Rightarrow> None
      | Some st' \<Rightarrow> solo_run env ctx req t order n st')"

lemma solo_run_Suc:
  "solo_run env ctx req t order (Suc n) (pc, w) =
     (case pc of
        Finished r \<Rightarrow> Some (r, w)
      | _ \<Rightarrow> (case solo_step env ctx req t order (pc, w) of
               None \<Rightarrow> None | Some st' \<Rightarrow> solo_run env ctx req t order n st'))"
  by (cases pc) simp_all

lemma solo_run_Finished [simp]: "solo_run env ctx req t order n (Finished r, w) = Some (r, w)"
  by (cases n) simp_all

lemma solo_from_call:
  "solo_run env ctx req t order (Suc (Suc (Suc (Suc 0)))) (AtCall p, w) =
     call_provider env ctx req t p (new_attempt order t) w"
  by (auto simp: solo_run_Suc solo_step_def call_provider_def finish_try_def Let_def
      split: option.splits sum.splits prod.splits)

text \<open>
  C24. The goroutine body of the concurrent strategy, which the source writes out a second time, is the
  sequential try: run alone it reaches its end in at most seven steps, with the result, the
  attempt record and the world that \<^verbatim>\<open>tryProvider\<close> gives (and blocks exactly when it blocks).
\<close>

theorem worker_is_tryProvider:
  "solo_run env ctx req t order 7 (AtBreaker, w) = tryProvider env ctx req t order w"
proof -
  have seven: "(7::nat) = Suc (Suc (Suc (Suc (Suc (Suc (Suc 0))))))" by simp
  have acquire: "solo_run env ctx req t order (Suc (Suc (Suc (Suc (Suc 0))))) (AtAcquire p, w1) =
      (case acquire_waiting env ctx (ft_provider t) w1 of
         None \<Rightarrow> None
       | Some (Some err, w2) \<Rightarrow>
           Some ((Inl err, (new_attempt order t)\<lparr>fa_status := ''timeout'', fa_error := semaphore_timeout\<rparr>), w2)
       | Some (None, w2) \<Rightarrow> call_provider env ctx req t p (new_attempt order t) w2)" for p w1
    unfolding solo_run_Suc [of _ _ _ _ _ "Suc (Suc (Suc (Suc 0)))"]
    by (auto simp: solo_step_def acquire_waiting_def solo_from_call Let_def
        split: option.splits simp del: solo_run.simps)
  show ?thesis
    unfolding seven solo_run_Suc [of _ _ _ _ _ "Suc (Suc (Suc (Suc (Suc (Suc 0)))))"]
    by (auto simp: solo_step_def tryProvider_def Let_def acquire
        solo_run_Suc [of _ _ _ _ _ "Suc (Suc (Suc (Suc (Suc 0))))"]
        split: option.splits sum.splits prod.splits simp del: solo_run.simps)
qed

subsection \<open>Any number of goroutines\<close>

record 'p system =
  sy_world :: "'p world"
  sy_workers :: "nat \<rightharpoonup> FallbackTarget \<times> 'p wpc"

text \<open>
  A new goroutine starts, one of those present takes a step (under whatever context it has at that
  moment), or time passes.
\<close>

inductive sys_step :: "'p system \<Rightarrow> 'p system \<Rightarrow> bool" where
  spawn: "sy_workers s k = None \<Longrightarrow> sys_step s (s\<lparr>sy_workers := (sy_workers s)(k \<mapsto> (t, AtBreaker))\<rparr>)"
| work: "sy_workers s k = Some (t, pc) \<Longrightarrow>
    worker_step ctx t order pick answer pc (sy_world s) = Some (pc', w') \<Longrightarrow>
    sys_step s (s\<lparr>sy_world := w', sy_workers := (sy_workers s)(k \<mapsto> (t, pc'))\<rparr>)"
| tick: "0 \<le> d \<Longrightarrow> sys_step s (s\<lparr>sy_world := (sy_world s)\<lparr>w_now := w_now (sy_world s) + d\<rparr>\<rparr>)"

inductive_cases sys_stepE: "sys_step s s'"

inductive sys_reach :: "'p world \<Rightarrow> 'p system \<Rightarrow> bool" for w0 where
  init: "sys_reach w0 \<lparr>sy_world = w0, sy_workers = Map.empty\<rparr>"
| step: "sys_reach w0 s \<Longrightarrow> sys_step s s' \<Longrightarrow> sys_reach w0 s'"

definition holding :: "'p wpc \<Rightarrow> bool" where
  "holding pc \<longleftrightarrow> (case pc of AtCall p \<Rightarrow> True | InCall p c start \<Rightarrow> True | AtRecord r a \<Rightarrow> True
     | AtRelease r \<Rightarrow> True | _ \<Rightarrow> False)"

definition holders :: "'p system \<Rightarrow> string \<Rightarrow> nat set" where
  "holders s n = {k. \<exists>t pc. sy_workers s k = Some (t, pc) \<and> ft_provider t = n \<and> holding pc}"

definition calling :: "'p system \<Rightarrow> string \<Rightarrow> nat set" where
  "calling s n = {k. \<exists>t p c start. sy_workers s k = Some (t, InCall p c start) \<and> ft_provider t = n}"

lemma holding_simps [simp]:
  "\<not> holding AtBreaker" "\<not> holding AtLookup" "\<not> holding (AtAcquire p)" "holding (AtCall p)"
  "holding (InCall p c start)" "holding (AtRecord r a)" "holding (AtRelease x)" "\<not> holding (Finished x)"
  by (simp_all add: holding_def)

lemma calling_holders: "calling s n \<subseteq> holders s n"
  by (auto simp: calling_def holders_def)

text \<open>The effect of a step on the semaphore of the goroutine's provider: none, a take or a give.\<close>

definition slot_effect :: "bool \<Rightarrow> bool \<Rightarrow> string \<Rightarrow> 'p world \<Rightarrow> 'p world \<Rightarrow> bool" where
  "slot_effect before after n w w' \<longleftrightarrow>
     (let sems = r_semaphores (w_router w); sems' = r_semaphores (w_router w') in
      if before = after \<or> sems n = None then sems' = sems
      else if after then \<exists>sm'. sem_take (the (sems n)) = Some sm' \<and> sems' = sems(n \<mapsto> sm')
      else \<exists>sm'. Release (the (sems n)) = Some sm' \<and> sems' = sems(n \<mapsto> sm'))"

lemma worker_step_slot:
  assumes "worker_step ctx t order pick answer pc w = Some (pc', w')"
  shows "slot_effect (holding pc) (holding pc') (ft_provider t) w w'"
proof (cases pc)
  case (AtAcquire p)
  then show ?thesis using assms
    by (auto simp: slot_effect_def AcquireSemaphore_def Acquire_granted Acquire_refused sem_take_Some Let_def
        map_upd_triv split: option.splits)
next
  case (AtRelease x)
  then show ?thesis using assms
    by (auto simp: slot_effect_def ReleaseSemaphore_def Let_def split: option.splits)
next
  case AtBreaker
  then show ?thesis using assms
    by (auto simp: slot_effect_def CheckCircuitBreaker_def split: prod.splits option.splits)
qed (use assms in \<open>auto simp: slot_effect_def split: sum.splits\<close>)

lemma worker_step_keeps [simp]:
  assumes "worker_step ctx t order pick answer pc w = Some (pc', w')"
  shows "r_registry (w_router w') = r_registry (w_router w)" and "r_fbCfg (w_router w') = r_fbCfg (w_router w)"
    and "w_now w' = w_now w"
  using assms
  by (cases pc; auto simp: CheckCircuitBreaker_def AcquireSemaphore_def ReleaseSemaphore_def
      RouterRecordFailure_def RouterRecordSuccess_def split: option.splits prod.splits sum.splits)+

text \<open>Every semaphore is a pool whose holders are the goroutines between their acquire and their release.\<close>

definition slot_inv :: "Semaphore option \<Rightarrow> Semaphore option \<Rightarrow> nat set \<Rightarrow> bool" where
  "slot_inv first now H \<longleftrightarrow> (case first of
      None \<Rightarrow> now = None
    | Some s0 \<Rightarrow> \<exists>sm. now = Some sm \<and> sempool.pool_run s0 sm H)"

definition slots_inv :: "'p world \<Rightarrow> 'p system \<Rightarrow> bool" where
  "slots_inv w0 s \<longleftrightarrow> (\<forall>n. slot_inv (r_semaphores (w_router w0) n)
     (r_semaphores (w_router (sy_world s)) n) (holders s n))"

lemma slot_inv_simps [simp]:
  "slot_inv None now H \<longleftrightarrow> now = None"
  "slot_inv (Some s0) now H \<longleftrightarrow> (\<exists>sm. now = Some sm \<and> sempool.pool_run s0 sm H)"
  by (simp_all add: slot_inv_def)

lemma holders_update:
  assumes "sy_workers s k = Some (t, pc)"
  shows "holders (s\<lparr>sy_world := w', sy_workers := (sy_workers s)(k \<mapsto> (t, pc'))\<rparr>) n =
    (if ft_provider t \<noteq> n then holders s n
     else if holding pc' then insert k (holders s n) else holders s n - {k})"
  using assms by (auto simp: holders_def split: if_splits)

lemma holders_spawn [simp]:
  "sy_workers s k = None \<Longrightarrow> holders (s\<lparr>sy_workers := (sy_workers s)(k \<mapsto> (t, AtBreaker))\<rparr>) n = holders s n"
  by (auto simp: holders_def split: if_splits)

lemma holders_world [simp]: "holders (s\<lparr>sy_world := w\<rparr>) n = holders s n"
  by (simp add: holders_def)

lemma in_holders: "sy_workers s k = Some (t, pc) \<Longrightarrow> k \<in> holders s (ft_provider t) \<longleftrightarrow> holding pc"
  by (auto simp: holders_def)

lemma pool_after:
  assumes pool: "sempool.pool_run s0 sm H" and k: "k \<in> H \<longleftrightarrow> before"
    and eff: "if before = after then sm' = sm
      else if after then sem_take sm = Some sm' else Release sm = Some sm'"
  shows "sempool.pool_run s0 sm' (if after then insert k H else H - {k})"
proof (cases "before = after")
  case True
  then show ?thesis using pool k eff by (cases after) (auto simp: insert_absorb)
next
  case False
  then show ?thesis using pool k eff
    by (cases after) (auto intro: sempool.pool_run.taken sempool.pool_run.given)
qed

lemma slots_inv_work:
  assumes inv: "slots_inv w0 s" and k: "sy_workers s k = Some (t, pc)"
    and st: "worker_step ctx t order pick answer pc (sy_world s) = Some (pc', w')"
  shows "slots_inv w0 (s\<lparr>sy_world := w', sy_workers := (sy_workers s)(k \<mapsto> (t, pc'))\<rparr>)"
  unfolding slots_inv_def
proof
  fix n
  let ?s' = "s\<lparr>sy_world := w', sy_workers := (sy_workers s)(k \<mapsto> (t, pc'))\<rparr>"
  let ?sems = "r_semaphores (w_router (sy_world s))"
  note eff = worker_step_slot [OF st, unfolded slot_effect_def Let_def]
  have inv_n: "slot_inv (r_semaphores (w_router w0) n) (?sems n) (holders s n)"
    using inv unfolding slots_inv_def by blast
  show "slot_inv (r_semaphores (w_router w0) n) (r_semaphores (w_router (sy_world ?s')) n) (holders ?s' n)"
  proof (cases "ft_provider t = n")
    case False
    then have "r_semaphores (w_router w') n = ?sems n" using eff by (auto split: if_splits)
    then show ?thesis using inv_n False by (simp add: holders_update [OF k] split: option.splits)
  next
    case True
    show ?thesis
    proof (cases "r_semaphores (w_router w0) n")
      case None
      then show ?thesis using inv_n eff True by (auto split: if_splits)
    next
      case (Some s0)
      then obtain sm where sm: "?sems n = Some sm" "sempool.pool_run s0 sm (holders s n)"
        using inv_n by auto
      obtain sm' where "r_semaphores (w_router w') n = Some sm'"
        and "if holding pc = holding pc' then sm' = sm
          else if holding pc' then sem_take sm = Some sm' else Release sm = Some sm'"
        using eff sm(1) True by (auto split: if_splits)
      then show ?thesis
        using Some pool_after [OF sm(2), of k "holding pc" "holding pc'" sm'] in_holders [OF k] True
        by (simp add: holders_update [OF k])
    qed
  qed
qed

lemma slots_inv_step: "slots_inv w0 s \<Longrightarrow> sys_step s s' \<Longrightarrow> slots_inv w0 s'"
proof (erule sys_stepE)
  fix t pc ctx order pick answer pc' w' k
  assume "slots_inv w0 s" "s' = s\<lparr>sy_world := w', sy_workers := (sy_workers s)(k \<mapsto> (t, pc'))\<rparr>"
    "sy_workers s k = Some (t, pc)" "worker_step ctx t order pick answer pc (sy_world s) = Some (pc', w')"
  then show "slots_inv w0 s'" using slots_inv_work by blast
next
  fix k t
  assume "slots_inv w0 s" "s' = s\<lparr>sy_workers := (sy_workers s)(k \<mapsto> (t, AtBreaker))\<rparr>" "sy_workers s k = None"
  then show "slots_inv w0 s'" by (simp add: slots_inv_def)
next
  fix d
  assume "slots_inv w0 s" "s' = s\<lparr>sy_world := (sy_world s)\<lparr>w_now := w_now (sy_world s) + d\<rparr>\<rparr>"
  then show "slots_inv w0 s'" by (simp add: slots_inv_def)
qed

text \<open>All semaphores start empty, as \<^verbatim>\<open>NewRouter\<close> makes them.\<close>

definition fresh_slots :: "'p world \<Rightarrow> bool" where
  "fresh_slots w \<longleftrightarrow> (\<forall>n s. r_semaphores (w_router w) n = Some s \<longrightarrow> sem_ok s \<and> sem_len s = 0)"

lemma fresh_NewRouter: "w_router w = NewRouter reg cfg \<Longrightarrow> fresh_slots w"
  by (auto simp: fresh_slots_def NewRouter_def split: option.splits)

text \<open>Every provider has a slot that is free at the start; others may keep the rest for ever.\<close>

definition open_slots :: "'p world \<Rightarrow> bool" where
  "open_slots w \<longleftrightarrow> (\<forall>n s. r_semaphores (w_router w) n = Some s \<longrightarrow> sem_ok s \<and> sem_len s < sem_cap s)"

lemma fresh_open: "fresh_slots w \<Longrightarrow> open_slots w"
  unfolding fresh_slots_def open_slots_def sem_ok_def
  by (metis less_le_trans less_numeral_extra(1))

lemma slots_inv_reach: "sys_reach w0 s \<Longrightarrow> open_slots w0 \<Longrightarrow> slots_inv w0 s"
proof (induction rule: sys_reach.induct)
  case init
  then show ?case
    by (auto simp: slots_inv_def slot_inv_def holders_def open_slots_def split: option.split
        intro: sempool.pool_run.start)
next
  case (step s s')
  then show ?case using slots_inv_step by blast
qed

lemma reach_pool:
  assumes "sys_reach w0 s" and "open_slots w0" and "r_semaphores (w_router w0) n = Some s0"
  obtains sm where "r_semaphores (w_router (sy_world s)) n = Some sm" and "sempool.pool_run s0 sm (holders s n)"
proof -
  have "slot_inv (Some s0) (r_semaphores (w_router (sy_world s)) n) (holders s n)"
    using slots_inv_reach [OF assms(1,2)] assms(3) unfolding slots_inv_def by metis
  then show ?thesis using that by auto
qed

lemma work_reach:
  assumes "sys_reach w0 s" and "sy_workers s k = Some (t, pc)"
    and "worker_step ctx t order pick answer pc (sy_world s) = Some (pc', w')"
  shows "\<exists>s'. sys_reach w0 s' \<and> sy_world s' = w' \<and> sy_workers s' k = Some (t, pc')"
  using sys_reach.step [OF assms(1) sys_step.work [OF assms(2,3)]] by force

lemma sample_in_call:
  "\<exists>s c. sys_reach sample_world s \<and> sy_workers s 0 = Some (\<lparr>ft_provider = ''gpt'', ft_model = ''m''\<rparr>, InCall ''gpt'' c 0)"
proof -
  let ?t = "\<lparr>ft_provider = ''gpt'', ft_model = ''m''\<rparr>"
  note defs = sample_world_def sample_router_def NewRouter_def sample_fallback_config_def NewRegistry_def
    Register_def Registry_Get_def CheckCircuitBreaker_def Allow_def set_breaker_def AcquireSemaphore_def
    Acquire_def NewSemaphore_def set_semaphore_def Let_def
  let ?step = "worker_step Background ?t 1 PickSend (Inl [])"
  have "sys_reach sample_world \<lparr>sy_world = sample_world, sy_workers = [0 \<mapsto> (?t, AtBreaker)]\<rparr>"
    using sys_reach.step [OF sys_reach.init sys_step.spawn, of sample_world 0 ?t] by simp
  then obtain s1 where s1: "sys_reach sample_world s1" "sy_world s1 = sample_world" "sy_workers s1 0 = Some (?t, AtBreaker)"
    by force
  define w1 where "w1 = snd (CheckCircuitBreaker ''gpt'' sample_world)"
  have "?step AtBreaker (sy_world s1) = Some (AtLookup, w1)"
    unfolding s1(2) w1_def by (simp add: defs)
  then obtain s2 where s2: "sys_reach sample_world s2" "sy_world s2 = w1" "sy_workers s2 0 = Some (?t, AtLookup)"
    using work_reach [OF s1(1,3)] by blast
  have "?step AtLookup (sy_world s2) = Some (AtAcquire ''gpt'', w1)"
    unfolding s2(2) w1_def by (simp add: defs)
  then obtain s3 where s3: "sys_reach sample_world s3" "sy_world s3 = w1" "sy_workers s3 0 = Some (?t, AtAcquire ''gpt'')"
    using work_reach [OF s2(1,3)] by blast
  obtain w2 where w2: "?step (AtAcquire ''gpt'') (sy_world s3) = Some (AtCall ''gpt'', w2)" "w_now w2 = 0"
    unfolding s3(2) w1_def by (simp add: defs Background_def)
  obtain s4 where s4: "sys_reach sample_world s4" "sy_world s4 = w2" "sy_workers s4 0 = Some (?t, AtCall ''gpt'')"
    using work_reach [OF s3(1,3) w2(1)] by blast
  have "\<exists>c. ?step (AtCall ''gpt'') (sy_world s4) = Some (InCall ''gpt'' c 0, w2)"
    using w2(2) s4(2) by simp
  then show ?thesis using work_reach [OF s4(1,3)] by blast
qed

text \<open>
  C22. However many goroutines use the router and however their steps interleave, the calls in flight
  to a provider never exceed the configured \<^verbatim>\<open>max_concurrent\<close> (1 when it is not positive), and a goroutine
  that is about to release its slot never blocks doing so.
\<close>

theorem max_concurrent_respected:
  assumes "sys_reach \<lparr>w_router = NewRouter reg (Some cfg), w_now = now\<rparr> s" and "fgc_providers cfg n = Some pCfg"
  shows "int (card (calling s n)) \<le> max 1 (pfc_max_concurrent pCfg) \<and>
    (\<forall>k t r. sy_workers s k = Some (t, AtRelease r) \<and> ft_provider t = n \<longrightarrow>
      ReleaseSemaphore n (sy_world s) \<noteq> None)"
proof -
  let ?w0 = "\<lparr>w_router = NewRouter reg (Some cfg), w_now = now\<rparr>"
  have fresh: "open_slots ?w0" by (rule fresh_open [OF fresh_NewRouter]) simp
  have s0: "r_semaphores (w_router ?w0) n = Some (NewSemaphore n (pfc_max_concurrent pCfg))"
    using assms(2) by (simp add: NewRouter_def)
  obtain sm where sm: "r_semaphores (w_router (sy_world s)) n = Some sm"
    and pool: "sempool.pool_run (NewSemaphore n (pfc_max_concurrent pCfg)) sm (holders s n)"
    by (rule reach_pool [OF assms(1) fresh s0])
  have "card (calling s n) \<le> card (holders s n)"
    using calling_holders sempool.pool_run_count [OF pool] by (meson card_mono)
  then have "int (card (calling s n)) \<le> max 1 (pfc_max_concurrent pCfg)"
    using sempool.holders_within_limit [OF pool] sem_cap_New [of n "pfc_max_concurrent pCfg"] by linarith
  moreover have "ReleaseSemaphore n (sy_world s) \<noteq> None"
    if "sy_workers s k = Some (t, AtRelease r)" and "ft_provider t = n" for k t r
  proof -
    have "k \<in> holders s n" using in_holders [OF that(1)] that(2) by simp
    then show ?thesis
      using sempool.holder_can_give [OF pool] sm by (auto simp: ReleaseSemaphore_def split: option.splits)
  qed
  ultimately show ?thesis by blast
qed

theorem max_concurrent_respected_witness:
  "\<exists>s :: string system. calling s ''gpt'' \<noteq> {} \<and> int (card (calling s ''gpt'')) \<le> max 1 1 \<and>
    (\<forall>k t r. sy_workers s k = Some (t, AtRelease r) \<and> ft_provider t = ''gpt'' \<longrightarrow>
      ReleaseSemaphore ''gpt'' (sy_world s) \<noteq> None)"
proof -
  obtain s c where s: "sys_reach sample_world s"
    "sy_workers s 0 = Some (\<lparr>ft_provider = ''gpt'', ft_model = ''m''\<rparr>, InCall ''gpt'' c 0)"
    using sample_in_call by blast
  have "0 \<in> calling s ''gpt''" using s(2) by (simp add: calling_def)
  moreover have "int (card (calling s ''gpt'')) \<le> max 1 1 \<and>
    (\<forall>k t r. sy_workers s k = Some (t, AtRelease r) \<and> ft_provider t = ''gpt'' \<longrightarrow>
      ReleaseSemaphore ''gpt'' (sy_world s) \<noteq> None)"
    using max_concurrent_respected [OF s(1) [unfolded sample_world_def sample_router_def], of "''gpt''"
        "\<lparr>pfc_max_concurrent = 1, pfc_timeout_ms = 0\<rparr>"]
    by (simp add: sample_fallback_config_def)
  ultimately show ?thesis by blast
qed

text \<open>A goroutine that can take a step now, under the context \<open>ctx\<close>.\<close>

definition can_move :: "'p system \<Rightarrow> context_err \<Rightarrow> nat \<Rightarrow> bool" where
  "can_move s ctx k \<longleftrightarrow> (\<exists>t pc order pick answer. sy_workers s k = Some (t, pc) \<and>
     worker_step ctx t order pick answer pc (sy_world s) \<noteq> None)"

definition unfinished :: "'p system \<Rightarrow> nat \<Rightarrow> bool" where
  "unfinished s k \<longleftrightarrow> (\<exists>t pc. sy_workers s k = Some (t, pc) \<and> (\<forall>r. pc \<noteq> Finished r))"

lemma holder_moves:
  assumes "sys_reach w0 s" and "open_slots w0" and "k \<in> holders s n"
  shows "can_move s ctx k"
proof -
  obtain t pc where k: "sy_workers s k = Some (t, pc)" "ft_provider t = n" "holding pc"
    using assms(3) by (auto simp: holders_def)
  have rel: "ReleaseSemaphore n (sy_world s) \<noteq> None"
  proof (cases "r_semaphores (w_router w0) n")
    case None
    then have "r_semaphores (w_router (sy_world s)) n = None"
      using spec [OF slots_inv_reach [OF assms(1,2), unfolded slots_inv_def], of n] by simp
    then show ?thesis by (simp add: ReleaseSemaphore_def)
  next
    case (Some s0)
    obtain sm where sm: "r_semaphores (w_router (sy_world s)) n = Some sm" "sempool.pool_run s0 sm (holders s n)"
      by (rule reach_pool [OF assms(1,2) Some])
    then show ?thesis
      using sempool.holder_can_give [OF sm(2) assms(3)] by (auto simp: ReleaseSemaphore_def)
  qed
  have "\<exists>order pick answer. worker_step ctx t order pick answer pc (sy_world s) \<noteq> None"
    using k rel by (cases pc) (auto split: sum.split)
  then show ?thesis using k(1) unfolding can_move_def by blast
qed

lemma some_can_move:
  assumes "sys_reach w0 s" and "open_slots w0" and "unfinished s k"
  shows "\<exists>j. can_move s ctx j"
proof -
  obtain t pc where k: "sy_workers s k = Some (t, pc)" "\<And>r. pc \<noteq> Finished r"
    using assms(3) by (auto simp: unfinished_def)
  show ?thesis
  proof (cases "can_move s ctx k")
    case False
    then have stuck: "worker_step ctx t 0 PickSend (Inl []) pc (sy_world s) = None"
      using k(1) unfolding can_move_def by blast
    have nh: "\<not> holding pc"
      using False holder_moves [OF assms(1,2)] in_holders [OF k(1)] by blast
    obtain p where pc: "pc = AtAcquire p"
      using stuck nh k(2) by (cases pc) (auto split: option.splits prod.splits sum.splits)
    then obtain sm where sm: "r_semaphores (w_router (sy_world s)) (ft_provider t) = Some sm"
      "sem_take sm = None"
      using stuck by (auto simp: AcquireSemaphore_def sem_take_def Acquire_def Let_def split: option.splits if_splits)
    obtain s0 where s0: "r_semaphores (w_router w0) (ft_provider t) = Some s0"
      using spec [OF slots_inv_reach [OF assms(1,2), unfolded slots_inv_def], of "ft_provider t"] sm(1)
      by (cases "r_semaphores (w_router w0) (ft_provider t)") auto
    have pool: "sempool.pool_run s0 sm (holders s (ft_provider t))"
      by (rule reach_pool [OF assms(1,2) s0]) (simp add: sm(1))
    have "sem_len s0 < sem_cap s0" using assms(2) s0 by (simp add: open_slots_def)
    then have "holders s (ft_provider t) \<noteq> {}"
      using sempool.waiting_only_when_full [OF pool sm(2)] by auto
    then show ?thesis using holder_moves [OF assms(1,2)] by blast
  qed blast
qed

text \<open>
  C23. The goroutines cannot deadlock: in every reachable state in which some goroutine has not finished,
  some goroutine can take a step, even when no context ever ends.  (A goroutine holds the slot of one
  provider only and does not wait while it holds it.)
\<close>

theorem no_deadlock:
  assumes "sys_reach w0 s" and "fresh_slots w0" and "unfinished s k"
  shows "\<exists>j. can_move s ctx j"
  by (rule some_can_move [OF assms(1) fresh_open [OF assms(2)] assms(3)])

theorem no_deadlock_witness:
  "\<exists>s :: string system. unfinished s 0 \<and> (\<exists>j. can_move s Background j)"
proof -
  obtain s c where s: "sys_reach sample_world s"
    "sy_workers s 0 = Some (\<lparr>ft_provider = ''gpt'', ft_model = ''m''\<rparr>, InCall ''gpt'' c 0)"
    using sample_in_call by blast
  have "fresh_slots sample_world" by (rule fresh_NewRouter) (simp add: sample_world_def sample_router_def)
  moreover have "unfinished s 0" using s(2) by (simp add: unfinished_def)
  ultimately have "\<exists>j. can_move s Background j" using no_deadlock [OF s(1)] by metis
  then show ?thesis using \<open>unfinished s 0\<close> by blast
qed

end
