(* ===== verification/Fastest.thy ===== *)
theory Fastest
  imports Workers
begin

text \<open>
  \<^verbatim>\<open>executeFastest\<close> and \<^verbatim>\<open>Execute\<close> of \<^verbatim>\<open>internal/router/router.go\<close>.  One goroutine per target runs the body
  of theory \<open>Workers\<close> and sends its result on a channel that has room for all of them; the collector
  takes results in the order they arrive, and the first success cancels the context of the others.
  A run is driven by a schedule: which goroutine moves (with the provider's answer, used when it is in a
  call), when the collector receives, when time passes.  A label that cannot happen is skipped.
\<close>

record 'p fastest =
  fs_world :: "'p world"
  fs_pcs :: "'p wpc list"
  fs_ch :: "try_result list"
  fs_cancelled :: "go_time option"
  fs_attempts :: "FallbackAttempt list"
  fs_result :: "exec_result option"

datatype label = Work nat sem_choice "error_text + ChatResponse" | Collect | Tick nat

definition fastest_failed :: error_text where
  "fastest_failed = bytes [235, 170, 168, 235, 147, 160, 32, 237, 148, 132, 235, 161, 156, 235, 176, 148, 236, 157, 180, 235, 141, 148, 32, 236, 154, 148, 236, 178, 173, 32, 236, 139, 164, 237, 140, 168, 32, 40, 97, 108, 119, 97, 121, 115, 95, 102, 97, 115, 116, 101, 115, 116, 41, 58, 32]"

definition fastest_reason :: string where
  "fastest_reason = bytes [97, 108, 119, 97, 121, 115, 95, 102, 97, 115, 116, 101, 115, 116, 32, 45, 32, 234, 176, 128, 236, 158, 165, 32, 235, 185, 160, 235, 165, 184, 32, 236, 157, 145, 235, 139, 181, 32, 236, 130, 172, 236, 154, 169]"

definition fastest_start :: "FallbackTarget list \<Rightarrow> 'p world \<Rightarrow> 'p fastest" where
  "fastest_start targets w =
     \<lparr>fs_world = w, fs_pcs = replicate (length targets) AtBreaker, fs_ch = [], fs_cancelled = None,
      fs_attempts = [],
      fs_result = (if targets = [] then Some (Inl (fastest_failed @ show_err None), []) else None)\<rparr>"

text \<open>A goroutine sends before its deferred release: the result is on the channel from then on.\<close>

definition published :: "'p wpc \<Rightarrow> try_result option" where
  "published pc = (case pc of AtRelease r \<Rightarrow> Some r | Finished r \<Rightarrow> Some r | _ \<Rightarrow> None)"

definition sent :: "'p wpc \<Rightarrow> 'p wpc \<Rightarrow> try_result list" where
  "sent pc pc' = (case published pc of
     Some _ \<Rightarrow> []
   | None \<Rightarrow> (case published pc' of Some r \<Rightarrow> [r] | None \<Rightarrow> []))"

definition fastest_work ::
  "context_err \<Rightarrow> FallbackTarget list \<Rightarrow> nat \<Rightarrow> sem_choice \<Rightarrow> error_text + ChatResponse \<Rightarrow> 'p fastest
   \<Rightarrow> 'p fastest option" where
  "fastest_work ctx targets i pick answer s =
     (if i < length (fs_pcs s) \<and> i < length targets
      then (case worker_step (WithCancel ctx (fs_cancelled s)) (targets ! i) (int i + 1) pick answer
                   (fs_pcs s ! i) (fs_world s) of
              None \<Rightarrow> None
            | Some (pc', w') \<Rightarrow>
                Some (s\<lparr>fs_world := w', fs_pcs := (fs_pcs s)[i := pc'],
                        fs_ch := fs_ch s @ sent (fs_pcs s ! i) pc'\<rparr>))
      else None)"

definition fastest_collect :: "nat \<Rightarrow> 'p fastest \<Rightarrow> 'p fastest option" where
  "fastest_collect n s =
     (case fs_result s of
        Some _ \<Rightarrow> None
      | None \<Rightarrow>
          (case fs_ch s of
             [] \<Rightarrow> None
           | (r, a) # rest \<Rightarrow>
               (let attempts = fs_attempts s @ [a];
                    s' = s\<lparr>fs_ch := rest, fs_attempts := attempts\<rparr>
                in case r of
                     Inr resp \<Rightarrow>
                       Some (s'\<lparr>fs_cancelled := Some (w_now (fs_world s)),
                                fs_result := Some (Inr (if n > 1 \<and> fa_order a > 1
                                                        then mark_fallback fastest_reason resp else resp), attempts)\<rparr>)
                   | Inl e \<Rightarrow>
                       if length attempts < n then Some s'
                       else Some (s'\<lparr>fs_cancelled := Some (w_now (fs_world s)),
                                     fs_result := Some (Inl (fastest_failed @ e), attempts)\<rparr>))))"

fun fastest_step :: "context_err \<Rightarrow> FallbackTarget list \<Rightarrow> label \<Rightarrow> 'p fastest \<Rightarrow> 'p fastest option" where
  "fastest_step ctx targets (Work i pick answer) s = fastest_work ctx targets i pick answer s"
| "fastest_step ctx targets Collect s = fastest_collect (length targets) s"
| "fastest_step ctx targets (Tick d) s =
     Some (s\<lparr>fs_world := (fs_world s)\<lparr>w_now := w_now (fs_world s) + int d\<rparr>\<rparr>)"

definition fastest_next :: "context_err \<Rightarrow> FallbackTarget list \<Rightarrow> 'p fastest \<Rightarrow> label \<Rightarrow> 'p fastest" where
  "fastest_next ctx targets s l = (case fastest_step ctx targets l s of None \<Rightarrow> s | Some s' \<Rightarrow> s')"

definition fastest_run ::
  "context_err \<Rightarrow> FallbackTarget list \<Rightarrow> label list \<Rightarrow> 'p fastest \<Rightarrow> 'p fastest" where
  "fastest_run ctx targets sched s = foldl (fastest_next ctx targets) s sched"

definition executeFastest ::
  "context_err \<Rightarrow> FallbackTarget list \<Rightarrow> label list \<Rightarrow> 'p world \<Rightarrow> (exec_result \<times> 'p world) option" where
  "executeFastest ctx targets sched w =
     (let s = fastest_run ctx targets sched (fastest_start targets w)
      in map_option (\<lambda>r. (r, fs_world s)) (fs_result s))"

definition Execute ::
  "'p env \<Rightarrow> label list \<Rightarrow> context_err \<Rightarrow> ChatRequest \<Rightarrow> 'p world \<Rightarrow> (exec_result \<times> 'p world) option" where
  "Execute env sched ctx req w =
     (let targets = buildTargets req; policy = effective_policy req
      in if policy = PolicyFastest then executeFastest ctx targets sched w
         else executeSequential env ctx req policy 0 [] None targets w)"

subsection \<open>What the collector sees\<close>

definition wpc_ok :: "FallbackTarget \<Rightarrow> int \<Rightarrow> 'p wpc \<Rightarrow> bool" where
  "wpc_ok t order pc \<longleftrightarrow> (case pc of
     AtRecord r a \<Rightarrow> fa_provider a = ft_provider t \<and> fa_model a = ft_model t \<and> fa_order a = order \<and> fa_error a = []
   | AtRelease x \<Rightarrow> attempt_ok t order (fst x) (snd x)
   | Finished x \<Rightarrow> attempt_ok t order (fst x) (snd x)
   | _ \<Rightarrow> True)"

lemma worker_step_ok:
  "worker_step ctx t order pick answer pc w = Some (pc', w') \<Longrightarrow> wpc_ok t order pc \<Longrightarrow> wpc_ok t order pc'"
  by (cases pc) (auto simp: wpc_ok_def attempt_ok_def new_attempt_def
      split: option.splits prod.splits sum.splits)

lemma published_stays:
  "worker_step ctx t order pick answer pc w = Some (pc', w') \<Longrightarrow> published pc = Some r \<Longrightarrow> published pc' = Some r"
  by (cases pc) (auto simp: published_def split: option.splits)

lemma published_ok: "wpc_ok t order pc \<Longrightarrow> published pc = Some (r, a) \<Longrightarrow> attempt_ok t order r a"
  by (cases pc) (auto simp: wpc_ok_def published_def)

text \<open>
  Results taken and results waiting together are, each once, the results of the goroutines that have
  sent one.
\<close>

definition arrived :: "'p fastest \<Rightarrow> int list" where
  "arrived s = map fa_order (fs_attempts s) @ map (\<lambda>x. fa_order (snd x)) (fs_ch s)"

definition senders :: "'p fastest \<Rightarrow> int set" where
  "senders s = {int i + 1 |i. i < length (fs_pcs s) \<and> published (fs_pcs s ! i) \<noteq> None}"

definition result_ok ::
  "FallbackTarget list \<Rightarrow> 'p wpc list \<Rightarrow> FallbackAttempt list \<Rightarrow> exec_result option \<Rightarrow> bool" where
  "result_ok targets pcs attempts result \<longleftrightarrow> (case result of
     None \<Rightarrow> length attempts < length targets \<and> (\<forall>a \<in> set attempts. fa_status a \<noteq> ''success'')
   | Some (Inl e, as) \<Rightarrow> as = attempts \<and> length as = length targets \<and>
       (\<forall>a \<in> set as. fa_status a \<noteq> ''success'')
   | Some (Inr resp, as) \<Rightarrow> as = attempts \<and> as \<noteq> [] \<and>
       (\<forall>a \<in> set (butlast as). fa_status a \<noteq> ''success'') \<and>
       (\<exists>i resp0. i < length targets \<and> published (pcs ! i) = Some (Inr resp0, last as) \<and>
          fa_order (last as) = int i + 1 \<and>
          resp = (if i = 0 then resp0 else mark_fallback fastest_reason resp0)))"

lemma result_ok_mono:
  assumes "\<And>j x. published (pcs ! j) = Some x \<Longrightarrow> published (pcs' ! j) = Some x"
    and "result_ok targets pcs attempts result"
  shows "result_ok targets pcs' attempts result"
proof (cases result)
  case (Some x)
  obtain r as where x: "x = (r, as)" by (cases x)
  show ?thesis
  proof (cases r)
    case (Inr resp)
    then obtain i resp0 where "i < length targets" "published (pcs ! i) = Some (Inr resp0, last as)"
      "fa_order (last as) = int i + 1" "resp = (if i = 0 then resp0 else mark_fallback fastest_reason resp0)"
      using assms(2) Some x by (auto simp: result_ok_def)
    moreover have "as = attempts \<and> as \<noteq> [] \<and> (\<forall>a \<in> set (butlast as). fa_status a \<noteq> ''success'')"
      using assms(2) unfolding result_ok_def Some x Inr option.case prod.case sum.case by blast
    ultimately show ?thesis
      using assms(1) [of i] unfolding result_ok_def Some x Inr option.case prod.case sum.case by blast
  qed (use assms(2) Some x in \<open>auto simp: result_ok_def\<close>)
qed (use assms(2) in \<open>simp add: result_ok_def\<close>)

definition fastest_inv :: "FallbackTarget list \<Rightarrow> 'p fastest \<Rightarrow> bool" where
  "fastest_inv targets s \<longleftrightarrow>
     length (fs_pcs s) = length targets \<and>
     (\<forall>i < length targets. wpc_ok (targets ! i) (int i + 1) (fs_pcs s ! i)) \<and>
     distinct (arrived s) \<and> set (arrived s) = senders s \<and>
     (\<forall>x \<in> set (fs_ch s). \<exists>i < length targets. fa_order (snd x) = int i + 1 \<and> published (fs_pcs s ! i) = Some x) \<and>
     (\<forall>a \<in> set (fs_attempts s). \<exists>i < length targets. \<exists>r. fa_order a = int i + 1 \<and> published (fs_pcs s ! i) = Some (r, a)) \<and>
     result_ok targets (fs_pcs s) (fs_attempts s) (fs_result s)"

lemma published_AtBreaker [simp]: "published AtBreaker = None"
  by (simp add: published_def)

lemma fastest_inv_start: "targets \<noteq> [] \<Longrightarrow> fastest_inv targets (fastest_start targets w)"
  by (auto simp: fastest_inv_def fastest_start_def arrived_def senders_def result_ok_def wpc_ok_def)

lemma fastest_inv_collect:
  assumes inv: "fastest_inv targets s" and st: "fastest_collect (length targets) s = Some s'"
  shows "fastest_inv targets s'"
proof -
  obtain r a rest where ch: "fs_ch s = (r, a) # rest" and res: "fs_result s = None"
    using st by (auto simp: fastest_collect_def split: option.splits list.splits)
  have pcs: "fs_pcs s' = fs_pcs s" and ch': "fs_ch s' = rest" and at: "fs_attempts s' = fs_attempts s @ [a]"
    using st ch res by (auto simp: fastest_collect_def Let_def split: sum.splits if_splits)
  obtain i where i: "i < length targets" "fa_order a = int i + 1" "published (fs_pcs s ! i) = Some (r, a)"
    using inv ch by (auto simp: fastest_inv_def)
  have att: "attempt_ok (targets ! i) (int i + 1) r a"
    using inv i(1,3) published_ok unfolding fastest_inv_def by blast
  have old: "length (fs_attempts s) < length targets" "\<forall>a \<in> set (fs_attempts s). fa_status a \<noteq> ''success''"
    using inv res by (simp_all add: fastest_inv_def result_ok_def)
  have "result_ok targets (fs_pcs s') (fs_attempts s') (fs_result s')"
  proof (cases r)
    case (Inr resp)
    have n: "length targets > 1 \<and> fa_order a > 1 \<longleftrightarrow> i \<noteq> 0" using i by auto
    have "fs_result s' = Some (Inr (if i = 0 then resp else mark_fallback fastest_reason resp), fs_attempts s @ [a])"
      using st ch res Inr n by (auto simp: fastest_collect_def Let_def)
    then show ?thesis using i old Inr by (auto simp: result_ok_def at pcs)
  next
    case (Inl e)
    have ns: "fa_status a \<noteq> ''success''" using att Inl by (auto simp: attempt_ok_def)
    show ?thesis
    proof (cases "Suc (length (fs_attempts s)) < length targets")
      case True
      then have "fs_result s' = None" using st ch res Inl by (auto simp: fastest_collect_def Let_def)
      then show ?thesis using True old ns by (auto simp: result_ok_def at)
    next
      case False
      then have "fs_result s' = Some (Inl (fastest_failed @ e), fs_attempts s @ [a])"
        using st ch res Inl by (auto simp: fastest_collect_def Let_def)
      then show ?thesis using False old ns by (auto simp: result_ok_def at)
    qed
  qed
  moreover have "arrived s' = arrived s" by (simp add: arrived_def ch ch' at)
  moreover have "senders s' = senders s" by (simp add: senders_def pcs)
  ultimately show ?thesis
    using inv i ch unfolding fastest_inv_def pcs ch' at by auto
qed

lemma fastest_inv_work:
  assumes inv: "fastest_inv targets s" and st: "fastest_work ctx targets i pick answer s = Some s'"
  shows "fastest_inv targets s'"
proof -
  have len: "length (fs_pcs s) = length targets" using inv by (simp add: fastest_inv_def)
  obtain pc' w' where i: "i < length targets"
    and w: "worker_step (WithCancel ctx (fs_cancelled s)) (targets ! i) (int i + 1) pick answer
      (fs_pcs s ! i) (fs_world s) = Some (pc', w')"
    and s': "s' = s\<lparr>fs_world := w', fs_pcs := (fs_pcs s)[i := pc'], fs_ch := fs_ch s @ sent (fs_pcs s ! i) pc'\<rparr>"
    using st by (auto simp: fastest_work_def split: if_splits option.splits)
  have ok: "wpc_ok (targets ! i) (int i + 1) pc'"
    using worker_step_ok [OF w] inv i by (simp add: fastest_inv_def)
  have keep: "published (fs_pcs s' ! j) = Some x" if "published (fs_pcs s ! j) = Some x" for j x
    using that published_stays [OF w] i len by (cases "j = i") (auto simp: s')
  have oks: "\<forall>j < length targets. wpc_ok (targets ! j) (int j + 1) (fs_pcs s' ! j)"
    using inv ok i len by (auto simp: fastest_inv_def s' nth_list_update)
  have at: "fs_attempts s' = fs_attempts s" and res: "fs_result s' = fs_result s"
    and len': "length (fs_pcs s') = length targets"
    by (simp_all add: s' len)
  have "result_ok targets (fs_pcs s') (fs_attempts s') (fs_result s')"
    using inv result_ok_mono [OF keep] unfolding fastest_inv_def at res by blast
  moreover have "\<forall>a \<in> set (fs_attempts s'). \<exists>i < length targets. \<exists>r. fa_order a = int i + 1 \<and>
      published (fs_pcs s' ! i) = Some (r, a)"
    using inv keep unfolding fastest_inv_def at by blast
  moreover have "distinct (arrived s') \<and> set (arrived s') = senders s' \<and>
    (\<forall>x \<in> set (fs_ch s'). \<exists>i < length targets. fa_order (snd x) = int i + 1 \<and> published (fs_pcs s' ! i) = Some x)"
  proof (cases "sent (fs_pcs s ! i) pc'")
    case Nil
    have "published (fs_pcs s' ! j) \<noteq> None \<longleftrightarrow> published (fs_pcs s ! j) \<noteq> None" for j
      using Nil published_stays [OF w] i len
      by (cases "j = i") (auto simp: s' sent_def split: option.splits)
    then have "senders s' = senders s" by (simp add: senders_def len len')
    moreover have "arrived s' = arrived s" and "fs_ch s' = fs_ch s" using Nil by (simp_all add: arrived_def s')
    ultimately show ?thesis using inv keep unfolding fastest_inv_def by metis
  next
    case (Cons x xs)
    then have none: "published (fs_pcs s ! i) = None" and x: "published pc' = Some x" "xs = []"
      by (auto simp: sent_def split: option.splits)
    have ord: "fa_order (snd x) = int i + 1"
      using published_ok [OF ok] x(1) by (cases x) (auto simp: attempt_ok_def)
    have "published (fs_pcs s' ! j) \<noteq> None \<longleftrightarrow> published (fs_pcs s ! j) \<noteq> None \<or> j = i"
      if "j < length targets" for j
      using x i len that by (cases "j = i") (auto simp: s')
    then have "senders s' = insert (int i + 1) (senders s)"
      unfolding senders_def len len' using i by blast
    moreover have "int i + 1 \<notin> senders s" using none by (auto simp: senders_def)
    moreover have "arrived s' = arrived s @ [int i + 1]" using Cons x ord by (simp add: arrived_def s')
    moreover have "published (fs_pcs s' ! i) = Some x" using x i len by (simp add: s')
    moreover have "fs_ch s' = fs_ch s @ [x]" using Cons x by (simp add: s')
    ultimately show ?thesis using inv keep i ord unfolding fastest_inv_def by auto
  qed
  ultimately show ?thesis using len' oks unfolding fastest_inv_def by blast
qed

lemma fastest_inv_next:
  assumes "fastest_inv targets s"
  shows "fastest_inv targets (fastest_next ctx targets s l)"
proof (cases l)
  case (Tick d)
  then show ?thesis using assms
    by (simp add: fastest_next_def fastest_inv_def arrived_def senders_def)
next
  case (Work i pick answer)
  then show ?thesis
    using assms fastest_inv_work by (auto simp: fastest_next_def split: option.splits)
next
  case Collect
  then show ?thesis
    using assms fastest_inv_collect by (auto simp: fastest_next_def split: option.splits)
qed

lemma fastest_inv_run: "fastest_inv targets s \<Longrightarrow> fastest_inv targets (fastest_run ctx targets sched s)"
  unfolding fastest_run_def by (rule foldl_invariant) (auto intro: fastest_inv_next)

text \<open>A success on the channel is the answer that the schedule gave the goroutine's provider.\<close>

definition answer_of :: "'p wpc \<Rightarrow> ChatResponse option" where
  "answer_of pc = (case pc of
     AtRecord (Inr resp) a \<Rightarrow> Some resp
   | AtRelease (Inr resp, a) \<Rightarrow> Some resp
   | Finished (Inr resp, a) \<Rightarrow> Some resp
   | _ \<Rightarrow> None)"

lemma answer_of_step:
  "worker_step ctx t order pick answer pc w = Some (pc', w') \<Longrightarrow> answer_of pc' = Some resp \<Longrightarrow>
   answer_of pc = Some resp \<or> answer = Inr resp"
  by (cases pc) (auto simp: answer_of_def split: option.splits prod.splits sum.splits)

definition answered_in :: "label list \<Rightarrow> 'p fastest \<Rightarrow> bool" where
  "answered_in sched s \<longleftrightarrow> (\<forall>i < length (fs_pcs s). \<forall>resp. answer_of (fs_pcs s ! i) = Some resp \<longrightarrow>
     (\<exists>pick. Work i pick (Inr resp) \<in> set sched))"

lemma answered_in_next:
  assumes "answered_in sched s" and "l \<in> set sched"
  shows "answered_in sched (fastest_next ctx targets s l)"
proof (cases l)
  case (Work i pick answer)
  show ?thesis
  proof (cases "fastest_work ctx targets i pick answer s")
    case None
    then show ?thesis using assms(1) Work by (simp add: fastest_next_def)
  next
    case (Some s')
    then obtain pc' w' where i: "i < length (fs_pcs s)"
      and w: "worker_step (WithCancel ctx (fs_cancelled s)) (targets ! i) (int i + 1) pick answer
        (fs_pcs s ! i) (fs_world s) = Some (pc', w')"
      and pcs: "fs_pcs s' = (fs_pcs s)[i := pc']"
      by (auto simp: fastest_work_def split: if_splits option.splits)
    have "answered_in sched s'"
      using assms i answer_of_step [OF w] Work unfolding answered_in_def pcs
      by (auto simp: nth_list_update)
    then show ?thesis using Some Work by (simp add: fastest_next_def)
  qed
next
  case Collect
  have "fs_pcs (fastest_next ctx targets s l) = fs_pcs s"
    using Collect by (auto simp: fastest_next_def fastest_collect_def Let_def
        split: option.splits list.splits sum.splits)
  then show ?thesis using assms(1) by (simp add: answered_in_def)
qed (use assms(1) in \<open>simp add: fastest_next_def answered_in_def\<close>)

lemma answered_in_run: "answered_in sched (fastest_run ctx targets sched (fastest_start targets w))"
  unfolding fastest_run_def
proof (rule foldl_invariant)
  show "answered_in sched (fastest_start targets w)"
    by (simp add: answered_in_def fastest_start_def answer_of_def)
qed (rule answered_in_next)

text \<open>
  C25. Whatever the schedule, what the concurrent strategy returns is right: the attempts it reports are
  results of different targets, at most one of them is a success and then it is the last, and the
  response is the answer that the schedule gave that target's provider (marked as a fallback unless it is
  the primary's); an error is returned only after every target has failed.
\<close>

theorem fastest_returns_first_success:
  assumes "executeFastest ctx targets sched w = Some ((r, as), w')" and "targets \<noteq> []"
  shows "distinct (map fa_order as) \<and> as \<noteq> [] \<and>
    (\<forall>a \<in> set as. \<exists>i < length targets. \<exists>r. fa_order a = int i + 1 \<and> attempt_ok (targets ! i) (int i + 1) r a) \<and>
    (\<forall>a \<in> set (butlast as). fa_status a \<noteq> ''success'') \<and>
    (case r of
       Inl e \<Rightarrow> length as = length targets \<and> fa_status (last as) \<noteq> ''success''
     | Inr resp \<Rightarrow> fa_status (last as) = ''success'' \<and>
         (\<exists>resp0 pick. Work (nat (fa_order (last as) - 1)) pick (Inr resp0) \<in> set sched \<and>
            resp = (if fa_order (last as) = 1 then resp0 else mark_fallback fastest_reason resp0)))"
proof -
  let ?s = "fastest_run ctx targets sched (fastest_start targets w)"
  have inv: "fastest_inv targets ?s" using fastest_inv_start [OF assms(2)] by (rule fastest_inv_run)
  have res: "fs_result ?s = Some (r, as)" using assms(1) by (auto simp: executeFastest_def Let_def)
  have ro: "result_ok targets (fs_pcs ?s) (fs_attempts ?s) (fs_result ?s)" using inv by (simp add: fastest_inv_def)
  have as: "as = fs_attempts ?s" and ne: "as \<noteq> []"
    using ro res assms(2) by (auto simp: result_ok_def split: sum.splits)
  have "distinct (map fa_order as)" using inv as by (simp add: fastest_inv_def arrived_def)
  moreover have each: "\<exists>i < length targets. \<exists>r. fa_order a = int i + 1 \<and> attempt_ok (targets ! i) (int i + 1) r a"
    if a: "a \<in> set as" for a
  proof -
    obtain i r where "i < length targets" "fa_order a = int i + 1" "published (fs_pcs ?s ! i) = Some (r, a)"
      using inv a as unfolding fastest_inv_def by blast
    then show ?thesis using inv published_ok unfolding fastest_inv_def by blast
  qed
  moreover have "\<forall>a \<in> set (butlast as). fa_status a \<noteq> ''success''"
    using ro res by (cases r) (auto simp: result_ok_def dest: in_set_butlastD)
  moreover have "case r of
       Inl e \<Rightarrow> length as = length targets \<and> fa_status (last as) \<noteq> ''success''
     | Inr resp \<Rightarrow> fa_status (last as) = ''success'' \<and>
         (\<exists>resp0 pick. Work (nat (fa_order (last as) - 1)) pick (Inr resp0) \<in> set sched \<and>
            resp = (if fa_order (last as) = 1 then resp0 else mark_fallback fastest_reason resp0))"
  proof (cases r)
    case (Inl e)
    then show ?thesis using ro res ne by (auto simp: result_ok_def)
  next
    case (Inr resp)
    then obtain i resp0 where i: "i < length targets" "published (fs_pcs ?s ! i) = Some (Inr resp0, last as)"
      "fa_order (last as) = int i + 1" "resp = (if i = 0 then resp0 else mark_fallback fastest_reason resp0)"
      using ro res by (auto simp: result_ok_def)
    have "attempt_ok (targets ! i) (int i + 1) (Inr resp0) (last as)"
      using inv i(1,2) published_ok unfolding fastest_inv_def by blast
    moreover have "\<exists>pick. Work i pick (Inr resp0) \<in> set sched"
      using answered_in_run [of sched ctx targets w] i(1,2) inv
      by (auto simp: answered_in_def fastest_inv_def published_def answer_of_def split: wpc.splits)
    ultimately show ?thesis using Inr i by (auto simp: attempt_ok_def)
  qed
  ultimately show ?thesis using ne by blast
qed

subsection \<open>The concurrent strategy always comes to an end\<close>

text \<open>The goroutines of a request as a system of theory \<open>Workers\<close>, numbered by target.\<close>

definition fs_system :: "FallbackTarget list \<Rightarrow> 'p fastest \<Rightarrow> 'p system" where
  "fs_system targets s =
     \<lparr>sy_world = fs_world s,
      sy_workers = (\<lambda>i. if i < length (fs_pcs s) then Some (targets ! i, fs_pcs s ! i) else None)\<rparr>"

lemma spawn_many:
  "sys_reach w0 \<lparr>sy_world = w0, sy_workers = (\<lambda>i. if i < n then Some (f i, AtBreaker) else None)\<rparr>"
proof (induction n)
  case 0
  then show ?case using sys_reach.init by simp
next
  case (Suc n)
  have eq: "(\<lambda>i. if i < Suc n then Some (f i, AtBreaker) else None) =
      (\<lambda>i. if i < n then Some (f i, AtBreaker) else None)(n \<mapsto> (f n, AtBreaker))"
    by (auto simp: fun_eq_iff less_Suc_eq)
  have "sys_reach w0 \<lparr>sy_world = w0,
      sy_workers = (\<lambda>i. if i < n then Some (f i, AtBreaker) else None)(n \<mapsto> (f n, AtBreaker))\<rparr>"
    using sys_reach.step [OF Suc sys_step.spawn, of n "f n"] by simp
  then show ?case unfolding eq .
qed

lemma fs_system_start: "sys_reach w (fs_system targets (fastest_start targets w))"
proof -
  have "fs_system targets (fastest_start targets w) =
      \<lparr>sy_world = w, sy_workers = (\<lambda>i. if i < length targets then Some (targets ! i, AtBreaker) else None)\<rparr>"
    by (auto simp: fs_system_def fastest_start_def fun_eq_iff)
  then show ?thesis using spawn_many by simp
qed

lemma fs_system_step:
  assumes "sys_reach w0 (fs_system targets s)" and "fastest_step ctx targets l s = Some s'"
    and "length (fs_pcs s) = length targets"
  shows "sys_reach w0 (fs_system targets s')"
proof (cases l)
  case (Work i pick answer)
  then obtain pc' w' where i: "i < length targets"
    and w: "worker_step (WithCancel ctx (fs_cancelled s)) (targets ! i) (int i + 1) pick answer
      (fs_pcs s ! i) (fs_world s) = Some (pc', w')"
    and s': "s' = s\<lparr>fs_world := w', fs_pcs := (fs_pcs s)[i := pc'], fs_ch := fs_ch s @ sent (fs_pcs s ! i) pc'\<rparr>"
    using assms(2) by (auto simp: fastest_work_def split: if_splits option.splits)
  have "fs_system targets s' = (fs_system targets s)\<lparr>sy_world := w',
      sy_workers := (sy_workers (fs_system targets s))(i \<mapsto> (targets ! i, pc'))\<rparr>"
    using i assms(3) by (auto simp: fs_system_def s' fun_eq_iff nth_list_update)
  moreover have "sy_workers (fs_system targets s) i = Some (targets ! i, fs_pcs s ! i)"
    using i assms(3) by (simp add: fs_system_def)
  ultimately show ?thesis
    using sys_reach.step [OF assms(1) sys_step.work [of "fs_system targets s" i]] w
    by (fastforce simp: fs_system_def)
next
  case Collect
  then have same: "fs_pcs s' = fs_pcs s" "fs_world s' = fs_world s"
    using assms(2) by (auto simp: fastest_collect_def Let_def split: option.splits list.splits sum.splits if_splits)
  have "fs_system targets s' = fs_system targets s" unfolding fs_system_def same ..
  then show ?thesis using assms(1) by simp
next
  case (Tick d)
  then have "fs_system targets s' = (fs_system targets s)
      \<lparr>sy_world := (sy_world (fs_system targets s))\<lparr>w_now := w_now (sy_world (fs_system targets s)) + int d\<rparr>\<rparr>"
    using assms(2) by (auto simp: fs_system_def)
  then show ?thesis using sys_reach.step [OF assms(1) sys_step.tick [of "int d"]] by simp
qed

definition steps_left :: "'p wpc \<Rightarrow> nat" where
  "steps_left pc = (case pc of AtBreaker \<Rightarrow> 7 | AtLookup \<Rightarrow> 6 | AtAcquire p \<Rightarrow> 5 | AtCall p \<Rightarrow> 4
     | InCall p c t \<Rightarrow> 3 | AtRecord r a \<Rightarrow> 2 | AtRelease x \<Rightarrow> 1 | Finished x \<Rightarrow> 0)"

definition work_left :: "FallbackTarget list \<Rightarrow> 'p fastest \<Rightarrow> nat" where
  "work_left targets s = sum_list (map steps_left (fs_pcs s)) + (length targets - length (fs_attempts s))"

lemma worker_step_less:
  "worker_step ctx t order pick answer pc w = Some (pc', w') \<Longrightarrow> steps_left pc' < steps_left pc"
  by (cases pc) (auto simp: steps_left_def split: option.splits prod.splits sum.splits)

lemma worker_step_order:
  "worker_step ctx t order pick answer pc w = None \<longleftrightarrow> worker_step ctx t order' pick answer pc w = None"
  by (cases pc) (auto split: option.splits prod.splits sum.splits)

lemma sum_list_update_less:
  "i < length xs \<Longrightarrow> f y < f (xs ! i) \<Longrightarrow> sum_list (map f (xs[i := y])) < sum_list (map (f :: _ \<Rightarrow> nat) xs)"
  by (induction xs arbitrary: i) (auto split: nat.splits)

text \<open>Time passes by itself; every other label is a step of the program.\<close>

fun working :: "label \<Rightarrow> bool" where
  "working (Work i pick answer) = True"
| "working Collect = True"
| "working (Tick d) = False"

text \<open>How many labels of a schedule are such steps and were possible when their turn came.\<close>

fun steps_taken :: "context_err \<Rightarrow> FallbackTarget list \<Rightarrow> label list \<Rightarrow> 'p fastest \<Rightarrow> nat" where
  "steps_taken ctx targets [] s = 0"
| "steps_taken ctx targets (l # sched) s =
     (if working l \<and> fastest_step ctx targets l s \<noteq> None then 1 else 0) +
     steps_taken ctx targets sched (fastest_next ctx targets s l)"

lemma working_step_less:
  assumes inv: "fastest_inv targets s" and "working l" and st: "fastest_step ctx targets l s = Some s'"
  shows "work_left targets s' < work_left targets s"
proof (cases l)
  case (Work i pick answer)
  then obtain pc' w' where i: "i < length (fs_pcs s)"
    and w: "worker_step (WithCancel ctx (fs_cancelled s)) (targets ! i) (int i + 1) pick answer
      (fs_pcs s ! i) (fs_world s) = Some (pc', w')"
    and s': "s' = s\<lparr>fs_world := w', fs_pcs := (fs_pcs s)[i := pc'], fs_ch := fs_ch s @ sent (fs_pcs s ! i) pc'\<rparr>"
    using st by (auto simp: fastest_work_def split: if_splits option.splits)
  show ?thesis
    using sum_list_update_less [of i "fs_pcs s" steps_left pc', OF i worker_step_less [OF w]]
    by (simp add: work_left_def s')
next
  case Collect
  then obtain r a rest where ch: "fs_ch s = (r, a) # rest" and res: "fs_result s = None"
    using st by (auto simp: fastest_collect_def split: option.splits list.splits)
  have "fs_pcs s' = fs_pcs s" "length (fs_attempts s') = Suc (length (fs_attempts s))"
    using st Collect ch res by (auto simp: fastest_collect_def Let_def split: sum.splits if_splits)
  moreover have "length (fs_attempts s) < length targets"
    using inv res by (simp add: fastest_inv_def result_ok_def)
  ultimately show ?thesis by (simp add: work_left_def)
qed (use assms in simp)

lemma fastest_next_left:
  assumes "fastest_inv targets s"
  shows "(if working l \<and> fastest_step ctx targets l s \<noteq> None then 1 else 0) +
     work_left targets (fastest_next ctx targets s l) \<le> work_left targets s"
proof (cases "fastest_step ctx targets l s")
  case (Some s')
  show ?thesis
  proof (cases "working l")
    case True
    then show ?thesis using working_step_less [OF assms True Some] Some by (simp add: fastest_next_def)
  next
    case False
    then obtain d where "l = Tick d" by (cases l) auto
    then show ?thesis by (simp add: fastest_next_def work_left_def)
  qed
qed (simp add: fastest_next_def)

lemma steps_taken_left:
  "fastest_inv targets s \<Longrightarrow>
   steps_taken ctx targets sched s + work_left targets (fastest_run ctx targets sched s) \<le> work_left targets s"
proof (induction sched arbitrary: s)
  case (Cons l sched)
  let ?s' = "fastest_next ctx targets s l"
  have "steps_taken ctx targets sched ?s' + work_left targets (fastest_run ctx targets sched ?s')
      \<le> work_left targets ?s'"
    by (rule Cons.IH [OF fastest_inv_next [OF Cons.prems]])
  moreover have "fastest_run ctx targets (l # sched) s = fastest_run ctx targets sched ?s'"
    by (simp add: fastest_run_def)
  ultimately show ?case using fastest_next_left [OF Cons.prems, of l ctx] by simp
qed (simp add: fastest_run_def)

lemma work_progress:
  assumes "fastest_inv targets s" and "can_move (fs_system targets s) (WithCancel ctx (fs_cancelled s)) i"
  shows "\<exists>l s'. working l \<and> fastest_step ctx targets l s = Some s'"
proof -
  have len: "length (fs_pcs s) = length targets" using assms(1) by (simp add: fastest_inv_def)
  obtain order pick answer where i: "i < length targets"
    and m: "worker_step (WithCancel ctx (fs_cancelled s)) (targets ! i) order pick answer (fs_pcs s ! i) (fs_world s) \<noteq> None"
    using assms(2) len by (auto simp: can_move_def fs_system_def split: if_splits simp del: not_None_eq)
  then obtain pc' w' where "worker_step (WithCancel ctx (fs_cancelled s)) (targets ! i) (int i + 1) pick answer
      (fs_pcs s ! i) (fs_world s) = Some (pc', w')"
    using worker_step_order by (metis not_None_eq surj_pair)
  then have "fastest_step ctx targets (Work i pick answer) s \<noteq> None"
    using i len by (simp add: fastest_work_def)
  then show ?thesis using working.simps(1) by blast
qed

lemma collect_progress:
  assumes "fs_result s = None" and "fs_ch s \<noteq> []"
  shows "\<exists>l s'. working l \<and> fastest_step ctx targets l s = Some s'"
proof -
  obtain r a rest where ch: "fs_ch s = (r, a) # rest" using assms(2) by (cases "fs_ch s") auto
  have "fastest_step ctx targets Collect s \<noteq> None"
    using assms(1) ch by (auto simp: fastest_collect_def Let_def split: sum.split)
  then show ?thesis using working.simps(2) by blast
qed

lemma fastest_progress:
  assumes inv: "fastest_inv targets s" and reach: "sys_reach w0 (fs_system targets s)" and "open_slots w0"
    and res: "fs_result s = None"
  shows "\<exists>l s'. working l \<and> fastest_step ctx targets l s = Some s'"
proof (cases "\<exists>k. unfinished (fs_system targets s) k")
  case True
  then show ?thesis using some_can_move [OF reach assms(3)] work_progress [OF inv] by blast
next
  case False
  have len: "length (fs_pcs s) = length targets" using inv by (simp add: fastest_inv_def)
  have "published (fs_pcs s ! i) \<noteq> None" if i: "i < length targets" for i
  proof -
    have "\<not> unfinished (fs_system targets s) i" using False by blast
    then obtain x where "fs_pcs s ! i = Finished x"
      using i len by (auto simp: unfinished_def fs_system_def)
    then show ?thesis by (simp add: published_def)
  qed
  then have "senders s = (\<lambda>i. int i + 1) ` {..< length targets}"
    using len by (auto simp: senders_def)
  then have "card (senders s) = length targets"
    by (simp add: card_image inj_on_def)
  then have "length (arrived s) = length targets"
    using inv distinct_card [of "arrived s"] by (simp add: fastest_inv_def)
  moreover have "length (fs_attempts s) < length targets"
    using inv res by (simp add: fastest_inv_def result_ok_def)
  ultimately have "fs_ch s \<noteq> []" by (auto simp: arrived_def)
  then show ?thesis by (rule collect_progress [OF res])
qed

lemma fastest_run_reach:
  assumes "fastest_inv targets s" and "sys_reach w0 (fs_system targets s)"
  shows "sys_reach w0 (fs_system targets (fastest_run ctx targets sched s))"
  using assms
proof (induction sched arbitrary: s)
  case (Cons l sched)
  have "sys_reach w0 (fs_system targets (fastest_next ctx targets s l))"
    using Cons.prems fs_system_step [OF Cons.prems(2)]
    by (auto simp: fastest_next_def fastest_inv_def split: option.split)
  then show ?case using Cons.IH fastest_inv_next [OF Cons.prems(1)] by (simp add: fastest_run_def)
qed (simp add: fastest_run_def)

lemma work_left_bound: "fastest_inv targets s \<Longrightarrow> work_left targets s \<le> 8 * length targets"
proof -
  assume "fastest_inv targets s"
  then have "length (fs_pcs s) = length targets" by (simp add: fastest_inv_def)
  moreover have "sum_list (map steps_left pcs) \<le> 7 * length pcs" for pcs :: "'a wpc list"
    by (induction pcs) (auto simp: steps_left_def split: wpc.splits)
  ultimately have "sum_list (map steps_left (fs_pcs s)) \<le> 7 * length targets" by metis
  then show ?thesis unfolding work_left_def by linarith
qed

text \<open>
  C26. The concurrent strategy cannot hang when providers answer.  Whatever the schedule, the goroutines
  and the collector together take at most eight steps per target (seven each, one receive for each
  result), so no schedule keeps the call busy for longer; and as long as it has not returned, it has
  steps left and one of them is possible, even when every goroutine waits for slots that only the
  others can give back.  Other requests may hold all slots but one of each provider for ever.
\<close>

theorem fastest_always_finishes:
  assumes "open_slots w" and "targets \<noteq> []"
  shows "steps_taken ctx targets sched (fastest_start targets w) \<le> 8 * length targets \<and>
    (executeFastest ctx targets sched w = None \<longrightarrow>
       steps_taken ctx targets sched (fastest_start targets w) < 8 * length targets \<and>
       (\<exists>l s'. working l \<and>
          fastest_step ctx targets l (fastest_run ctx targets sched (fastest_start targets w)) = Some s'))"
proof -
  let ?start = "fastest_start targets w" and ?now = "fastest_run ctx targets sched (fastest_start targets w)"
  have inv0: "fastest_inv targets ?start" by (rule fastest_inv_start [OF assms(2)])
  have inv: "fastest_inv targets ?now" using inv0 by (rule fastest_inv_run)
  have reach: "sys_reach w (fs_system targets ?now)"
    by (rule fastest_run_reach [OF inv0 fs_system_start])
  have bound: "steps_taken ctx targets sched ?start + work_left targets ?now \<le> 8 * length targets"
    using steps_taken_left [OF inv0, of ctx sched] work_left_bound [OF inv0] by linarith
  have "steps_taken ctx targets sched ?start < 8 * length targets \<and>
      (\<exists>l s'. working l \<and> fastest_step ctx targets l ?now = Some s')"
    if "executeFastest ctx targets sched w = None"
  proof -
    have "fs_result ?now = None" using that by (simp add: executeFastest_def Let_def)
    then obtain l s' where l: "working l" "fastest_step ctx targets l ?now = Some s'"
      using fastest_progress [OF inv reach assms(1)] by blast
    then have "work_left targets s' < work_left targets ?now" by (rule working_step_less [OF inv])
    then show ?thesis using bound l by auto
  qed
  moreover have "steps_taken ctx targets sched ?start \<le> 8 * length targets" using bound by linarith
  ultimately show ?thesis by blast
qed

subsection \<open>What the losers pay\<close>

text \<open>
  Two targets; the second answers first, its success cancels the other, whose call then ends with the
  context's error.  The run is a schedule, evaluated below.
\<close>

definition race_targets :: "FallbackTarget list" where
  "race_targets = [\<lparr>ft_provider = ''claude'', ft_model = ''m''\<rparr>, \<lparr>ft_provider = ''gpt'', ft_model = ''n''\<rparr>]"

definition race_schedule :: "label list" where
  "race_schedule =
     replicate 4 (Work 0 PickSend (Inl [])) @ replicate 4 (Work 1 PickSend (Inl [])) @
     [Work 1 PickSend (Inr (sample_response ''gpt'')), Work 1 PickSend (Inl []), Work 1 PickSend (Inl []), Collect,
      Work 0 PickSend (Inl context_canceled), Work 0 PickSend (Inl []), Work 0 PickSend (Inl [])]"

lemmas race_eval =
  fastest_run_def fastest_next_def fastest_work_def fastest_collect_def fastest_start_def race_targets_def
  race_schedule_def sample_world_def sample_router_def NewRouter_def sample_fallback_config_def NewRegistry_def
  Register_def Registry_Get_def CheckCircuitBreaker_def Allow_def set_breaker_def AcquireSemaphore_def
  Acquire_def NewSemaphore_def set_semaphore_def ReleaseSemaphore_def Release_def RouterRecordFailure_def
  RouterRecordSuccess_def RecordSuccess_def RecordFailure_def WithCancel_def end_context_def Background_def
  sent_def published_def Let_def

text \<open>
  The strategy counts its own cancellation against the provider that was slower: whatever closed
  breaker the primary has, a race it loses leaves it with one more failure, though the only error it
  returned is the context's own "context canceled"; with a count one below the threshold the breaker
  opens.
\<close>

theorem cancelled_loser_recorded_as_failure:
  "\<exists>resp as w'. executeFastest Background race_targets race_schedule
      (set_breaker ''claude'' (cb\<lparr>cb_state := StateClosed\<rparr>) sample_world) = Some ((Inr resp, as), w') \<and>
    r_breakers (w_router w') ''claude'' = Some (RecordFailure 0 (cb\<lparr>cb_state := StateClosed\<rparr>))"
  by (simp add: executeFastest_def race_eval numeral_eq_Suc)

lemma race_result:
  "\<exists>r as w'. executeFastest Background race_targets race_schedule sample_world = Some ((r, as), w')"
  by (simp add: executeFastest_def race_eval numeral_eq_Suc)

theorem fastest_returns_first_success_witness:
  "\<exists>r as w'. executeFastest Background race_targets race_schedule sample_world = Some ((r, as), w') \<and>
    (distinct (map fa_order as) \<and> as \<noteq> [] \<and>
    (\<forall>a \<in> set as. \<exists>i < length race_targets. \<exists>r. fa_order a = int i + 1 \<and>
       attempt_ok (race_targets ! i) (int i + 1) r a) \<and>
    (\<forall>a \<in> set (butlast as). fa_status a \<noteq> ''success'') \<and>
    (case r of
       Inl e \<Rightarrow> length as = length race_targets \<and> fa_status (last as) \<noteq> ''success''
     | Inr resp \<Rightarrow> fa_status (last as) = ''success'' \<and>
         (\<exists>resp0 pick. Work (nat (fa_order (last as) - 1)) pick (Inr resp0) \<in> set race_schedule \<and>
            resp = (if fa_order (last as) = 1 then resp0 else mark_fallback fastest_reason resp0))))"
proof -
  obtain r as w' where run: "executeFastest Background race_targets race_schedule sample_world = Some ((r, as), w')"
    using race_result by blast
  moreover have "race_targets \<noteq> []" by (simp add: race_targets_def)
  ultimately show ?thesis using fastest_returns_first_success [OF run] by blast
qed

lemma race_begun:
  "executeFastest Background race_targets [Work 1 PickSend (Inl []), Tick 5] sample_world = None"
  by (simp add: executeFastest_def race_eval)

theorem fastest_always_finishes_witness:
  "steps_taken Background race_targets [Work 1 PickSend (Inl []), Tick 5] (fastest_start race_targets sample_world)
      < 8 * length race_targets \<and>
   (\<exists>l s'. working l \<and> fastest_step Background race_targets l
      (fastest_run Background race_targets [Work 1 PickSend (Inl []), Tick 5]
         (fastest_start race_targets sample_world)) = Some s')"
proof -
  have "open_slots sample_world"
    by (rule fresh_open, rule fresh_NewRouter) (simp add: sample_world_def sample_router_def)
  moreover have "race_targets \<noteq> []" by (simp add: race_targets_def)
  ultimately show ?thesis using fastest_always_finishes race_begun by blast
qed

end
