(* ===== verification/Prompt.thy ===== *)
theory Prompt
  imports Paths Config "HOL-Library.AList"
begin

text \<open>
  \<^verbatim>\<open>internal/config/prompt.go\<close>: the layered system prompt and the cache of parsed prompt files.  The
  cache is an association list with distinct keys; \<open>order\<close> is the order in which \<^verbatim>\<open>range\<close> visits it when
  the cache is halved, and the list \<open>variables\<close> gives the template variables in the order their map is
  visited, each with the text \<^verbatim>\<open>%v\<close> prints for its value.
\<close>

record PromptConfig =
  pr_system_prompt :: string
  pr_task_prompt :: string

type_synonym prompt_cache = "(string \<times> PromptConfig) list"

record PromptManager =
  pmg_prompts_dir :: string
  pmg_cache :: prompt_cache

record prompt_env =
  pe_read :: read_file
  pe_unmarshal :: "string \<Rightarrow> error_text + PromptConfig"
  pe_order :: "prompt_cache \<Rightarrow> string list"

definition maxPromptCacheSize :: nat where
  "maxPromptCacheSize = 256"

definition NewPromptManager :: "string \<Rightarrow> PromptManager" where
  "NewPromptManager promptsDir = \<lparr>pmg_prompts_dir = promptsDir, pmg_cache = []\<rparr>"

definition read_prompt :: "prompt_env \<Rightarrow> string \<Rightarrow> string \<Rightarrow> error_text + PromptConfig" where
  "read_prompt env dir relativePath =
     (case pe_read env (path_join [dir, relativePath]) of
        Inl err \<Rightarrow> Inl err
      | Inr data \<Rightarrow>
         (case pe_unmarshal env data of
            Inl err \<Rightarrow> Inl (bytes [237, 148, 132, 235, 161, 172, 237, 148, 132, 237, 138, 184, 32, 237, 140, 140, 236, 139, 177, 32, 236, 139, 164, 237, 140, 168, 32, 40] @ relativePath @ ''): '' @ err)
          | Inr cfg \<Rightarrow> Inr cfg))"

definition evict_half :: "string list \<Rightarrow> prompt_cache \<Rightarrow> prompt_cache" where
  "evict_half order cache = foldl (\<lambda>c k. AList.delete k c) cache (take (length cache div 2) order)"

definition prompt_load ::
  "prompt_env \<Rightarrow> string \<Rightarrow> PromptManager \<Rightarrow> (error_text + PromptConfig) \<times> PromptManager" where
  "prompt_load env relativePath pm =
     (case map_of (pmg_cache pm) relativePath of
        Some cached \<Rightarrow> (Inr cached, pm)
      | None \<Rightarrow>
         (case read_prompt env (pmg_prompts_dir pm) relativePath of
            Inl err \<Rightarrow> (Inl err, pm)
          | Inr cfg \<Rightarrow>
             (let cache = (if length (pmg_cache pm) \<ge> maxPromptCacheSize
                           then evict_half (pe_order env (pmg_cache pm)) (pmg_cache pm)
                           else pmg_cache pm)
              in (Inr cfg, pm \<lparr>pmg_cache := AList.update relativePath cfg cache\<rparr>))))"

definition substituteVariables :: "string \<Rightarrow> (string \<times> string) list \<Rightarrow> string" where
  "substituteVariables template variables =
     foldl (\<lambda>result (key, val). replace_all result (''{{'' @ key @ ''}}'') val) template variables"

text \<open>One layer: a file whose system prompt is appended when the file loads and the text is not empty.\<close>

definition add_layer ::
  "prompt_env \<Rightarrow> string \<Rightarrow> string list \<times> PromptManager \<Rightarrow> string list \<times> PromptManager" where
  "add_layer env relativePath st =
     (case st of (parts, pm) \<Rightarrow>
        case prompt_load env relativePath pm of
          (Inr cfg, pm') \<Rightarrow>
            (if pr_system_prompt cfg \<noteq> [] then parts @ [pr_system_prompt cfg] else parts, pm')
        | (Inl _, pm') \<Rightarrow> (parts, pm'))"

definition task_text :: "PromptConfig \<Rightarrow> string" where
  "task_text cfg = (if pr_task_prompt cfg = [] then pr_system_prompt cfg else pr_task_prompt cfg)"

definition task_layer ::
  "prompt_env \<Rightarrow> string \<Rightarrow> string \<Rightarrow> PromptManager \<Rightarrow> string \<times> PromptManager" where
  "task_layer env provider task pm =
     (let (t1, pm1) =
        (if provider \<noteq> [] then
           (case prompt_load env (path_join [''tasks'', yaml_name (task @ ''.'' @ provider)]) pm of
              (Inr override, pm') \<Rightarrow> (task_text override, pm')
            | (Inl _, pm') \<Rightarrow> ([], pm'))
         else ([], pm))
      in if t1 = [] then
           (case prompt_load env (path_join [''tasks'', yaml_name task]) pm1 of
              (Inr base, pm') \<Rightarrow> (task_text base, pm')
            | (Inl _, pm') \<Rightarrow> (t1, pm'))
         else (t1, pm1))"

fun first_unsafe :: "string list \<Rightarrow> string option" where
  "first_unsafe [] = None"
| "first_unsafe (n # ns) = (if unsafe_name n then Some n else first_unsafe ns)"

definition Build ::
  "prompt_env \<Rightarrow> string \<Rightarrow> string \<Rightarrow> string \<Rightarrow> (string \<times> string) list \<Rightarrow> PromptManager
   \<Rightarrow> (error_text + string) \<times> PromptManager" where
  "Build env provider project task variables pm =
     (case first_unsafe [project, task, provider] of
        Some name \<Rightarrow>
          (Inl (bytes [236, 158, 152, 235, 170, 187, 235, 144, 156, 32, 236, 157, 180, 235, 166, 132, 58, 32] @ quote name @ bytes [32, 40, 234, 178, 189, 235, 161, 156, 32, 234, 181, 172, 235, 182, 132, 236, 158, 144, 32, 236, 130, 172, 236, 154, 169, 32, 235, 182, 136, 234, 176, 128, 41]), pm)
      | None \<Rightarrow>
         (let st1 = add_layer env ''base.yaml'' ([], pm);
              st2 = (if project \<noteq> [] then add_layer env (path_join [''projects'', yaml_name project]) st1 else st1);
              st3 = (if provider \<noteq> [] then add_layer env (path_join [''models'', yaml_name provider]) st2 else st2);
              (parts, pm4) =
                (if task \<noteq> [] then
                   (case task_layer env provider task (snd st3) of
                      (t, pm') \<Rightarrow> (if t \<noteq> [] then fst st3 @ [t] else fst st3, pm'))
                 else st3);
              result = join newline parts;
              result = (if variables \<noteq> [] then substituteVariables result variables else result)
          in (Inr (trim_space result), pm4)))"

subsection \<open>The cache is invisible\<close>

text \<open>The cache holds what reading the files again would give.\<close>

definition coherent :: "prompt_env \<Rightarrow> PromptManager \<Rightarrow> bool" where
  "coherent env pm \<longleftrightarrow> distinct (map fst (pmg_cache pm)) \<and> length (pmg_cache pm) \<le> maxPromptCacheSize \<and>
     (\<forall>(k, cfg) \<in> set (pmg_cache pm). read_prompt env (pmg_prompts_dir pm) k = Inr cfg)"

definition order_ok :: "prompt_env \<Rightarrow> bool" where
  "order_ok env \<longleftrightarrow> (\<forall>c. distinct (map fst c) \<longrightarrow> distinct (pe_order env c) \<and> set (pe_order env c) = fst ` set c)"

lemma evict_half_subset: "set (evict_half order cache) \<subseteq> set cache"
proof -
  have "set (foldl (\<lambda>c k. AList.delete k c) cache ks) \<subseteq> set cache" for ks
    by (rule foldl_invariant) (auto simp: AList.delete_eq)
  then show ?thesis by (simp add: evict_half_def)
qed

lemma evict_half_distinct:
  "distinct (map fst cache) \<Longrightarrow> distinct (map fst (evict_half order cache))"
  unfolding evict_half_def by (rule foldl_invariant) (auto intro: AList.distinct_delete)

lemma alist_update_fresh: "k \<notin> fst ` set al \<Longrightarrow> AList.update k v al = al @ [(k, v)]"
  by (induction al) auto

lemma keys_delete:
  "distinct (map fst c) \<Longrightarrow> map fst (AList.delete k c) = remove1 k (map fst c)"
  by (simp add: AList.delete_keys distinct_remove1_removeAll)

lemma length_delete_key:
  "distinct (map fst c) \<Longrightarrow> k \<in> fst ` set c \<Longrightarrow> length (AList.delete k c) = length c - 1"
  using arg_cong [OF keys_delete, of c length k] by (simp add: length_remove1)

lemma length_evict:
  assumes "distinct (map fst c)" and "distinct ks" and "set ks \<subseteq> fst ` set c"
  shows "length (foldl (\<lambda>c k. AList.delete k c) c ks) + length ks = length c"
  using assms
proof (induction ks arbitrary: c)
  case (Cons k ks)
  have k: "k \<in> fst ` set c" using Cons.prems by simp
  then have "c \<noteq> []" by auto
  have "set ks \<subseteq> fst ` set (AList.delete k c)"
    using Cons.prems arg_cong [OF keys_delete [of c k], of set] by auto
  then have "length (foldl (\<lambda>c k. AList.delete k c) (AList.delete k c) ks) + length ks =
      length (AList.delete k c)"
    using Cons by (intro Cons.IH) (auto intro: AList.distinct_delete)
  then show ?case
    using length_delete_key [OF Cons.prems(1) k] \<open>c \<noteq> []\<close> by simp
qed simp

lemma length_evict_half:
  assumes "order_ok env" and "distinct (map fst c)"
  shows "length (evict_half (pe_order env c) c) = length c - length c div 2"
proof -
  have o': "distinct (pe_order env c)" "set (pe_order env c) = fst ` set c"
    using assms by (auto simp: order_ok_def)
  then have "length (pe_order env c) = length c"
    using assms(2) by (metis distinct_card length_map set_map)
  then have "length (take (length c div 2) (pe_order env c)) = length c div 2" by simp
  then show ?thesis
    using length_evict [OF assms(2), of "take (length c div 2) (pe_order env c)"] o'
      set_take_subset [of "length c div 2" "pe_order env c"]
    by (simp add: evict_half_def)
qed

lemma load_transparent:
  assumes "coherent env pm" and "order_ok env"
  shows "fst (prompt_load env path pm) = read_prompt env (pmg_prompts_dir pm) path"
    and "coherent env (snd (prompt_load env path pm))"
    and "pmg_prompts_dir (snd (prompt_load env path pm)) = pmg_prompts_dir pm"
proof -
  let ?c = "pmg_cache pm"
  have c: "distinct (map fst ?c)" "length ?c \<le> maxPromptCacheSize"
    "\<forall>(k, cfg) \<in> set ?c. read_prompt env (pmg_prompts_dir pm) k = Inr cfg"
    using assms(1) by (auto simp: coherent_def)
  show "fst (prompt_load env path pm) = read_prompt env (pmg_prompts_dir pm) path"
    using c(3) by (cases "map_of ?c path")
      (auto simp: prompt_load_def Let_def split: sum.split dest!: map_of_SomeD)
  show "pmg_prompts_dir (snd (prompt_load env path pm)) = pmg_prompts_dir pm"
    by (auto simp: prompt_load_def Let_def split: option.split sum.split)
  show "coherent env (snd (prompt_load env path pm))"
  proof (cases "map_of ?c path = None \<and> sum_case_ok (read_prompt env (pmg_prompts_dir pm) path)")
    case False
    then have "snd (prompt_load env path pm) = pm"
      by (auto simp: prompt_load_def sum_case_ok_def split: option.split sum.split)
    then show ?thesis using assms(1) by simp
  next
    case True
    then obtain cfg where cfg: "read_prompt env (pmg_prompts_dir pm) path = Inr cfg"
      by (auto simp: sum_case_ok_def split: sum.splits)
    let ?c' = "if length ?c \<ge> maxPromptCacheSize then evict_half (pe_order env ?c) ?c else ?c"
    have sub: "set ?c' \<subseteq> set ?c" using evict_half_subset by (auto split: if_splits)
    have dist: "distinct (map fst ?c')" using evict_half_distinct c(1) by simp
    have len: "length ?c' < maxPromptCacheSize"
      using length_evict_half [OF assms(2) c(1)] c(2) by (auto simp: maxPromptCacheSize_def)
    have fresh: "path \<notin> fst ` set ?c'"
      using True sub by (metis image_mono map_of_eq_None_iff subsetD)
    have upd: "AList.update path cfg ?c' = ?c' @ [(path, cfg)]"
      using fresh by (rule alist_update_fresh)
    show ?thesis
      using True cfg sub dist len fresh c(3)
      by (auto simp: prompt_load_def coherent_def Let_def upd)
  qed
qed

subsection \<open>What a prompt is\<close>

text \<open>
  The specification reads the files directly: the layers present, in the order base, project, model,
  task, where a task file for the provider takes precedence over the general one.
\<close>

definition in_dir :: "string \<Rightarrow> string \<Rightarrow> string" where
  "in_dir d name = d @ ''/'' @ yaml_name name"

definition system_layer :: "prompt_env \<Rightarrow> string \<Rightarrow> string \<Rightarrow> string list" where
  "system_layer env dir path =
     (case read_prompt env dir path of
        Inr cfg \<Rightarrow> if pr_system_prompt cfg = [] then [] else [pr_system_prompt cfg]
      | Inl _ \<Rightarrow> [])"

definition task_of_file :: "prompt_env \<Rightarrow> string \<Rightarrow> string \<Rightarrow> string" where
  "task_of_file env dir path =
     (case read_prompt env dir path of Inr cfg \<Rightarrow> task_text cfg | Inl _ \<Rightarrow> [])"

definition task_of :: "prompt_env \<Rightarrow> string \<Rightarrow> string \<Rightarrow> string \<Rightarrow> string" where
  "task_of env dir provider task =
     (let special = (if provider = [] then []
         else task_of_file env dir (in_dir ''tasks'' (task @ ''.'' @ provider)))
      in if special = [] then task_of_file env dir (in_dir ''tasks'' task) else special)"

definition prompt_layers :: "prompt_env \<Rightarrow> string \<Rightarrow> string \<Rightarrow> string \<Rightarrow> string \<Rightarrow> string list" where
  "prompt_layers env dir provider project task =
     system_layer env dir ''base.yaml''
     @ (if project = [] then [] else system_layer env dir (in_dir ''projects'' project))
     @ (if provider = [] then [] else system_layer env dir (in_dir ''models'' provider))
     @ (if task = [] \<or> task_of env dir provider task = [] then [] else [task_of env dir provider task])"

definition prompt_text ::
  "prompt_env \<Rightarrow> string \<Rightarrow> string \<Rightarrow> string \<Rightarrow> string \<Rightarrow> (string \<times> string) list \<Rightarrow> string" where
  "prompt_text env dir provider project task variables =
     trim_space (substituteVariables (join newline (prompt_layers env dir provider project task)) variables)"

lemma substituteVariables_Nil [simp]: "substituteVariables s [] = s"
  by (simp add: substituteVariables_def)

lemma first_unsafe_None: "first_unsafe ns = None \<longleftrightarrow> (\<forall>n \<in> set ns. \<not> unsafe_name n)"
  by (induction ns) auto

lemma add_layer_spec:
  assumes "coherent env pm" and "order_ok env" and "pmg_prompts_dir pm = dir"
  shows "\<exists>pm'. add_layer env path (parts, pm) = (parts @ system_layer env dir path, pm') \<and>
    coherent env pm' \<and> pmg_prompts_dir pm' = dir"
proof -
  obtain r pm' where l: "prompt_load env path pm = (r, pm')" by (metis surj_pair)
  show ?thesis
    using load_transparent [OF assms(1,2), of path] assms(3) l
    by (auto simp: add_layer_def system_layer_def split: sum.split)
qed

lemma load_spec:
  assumes "coherent env pm" and "order_ok env" and "pmg_prompts_dir pm = dir"
  shows "\<exists>pm'. prompt_load env path pm = (read_prompt env dir path, pm') \<and> coherent env pm' \<and>
    pmg_prompts_dir pm' = dir"
  using load_transparent [OF assms(1,2), of path] assms(3) by (metis prod.collapse)

lemma slash_free: "\<not> unsafe_name a \<Longrightarrow> \<not> unsafe_name b \<Longrightarrow> slash \<notin> set (a @ ''.'' @ b)"
  using safe_name_chars by (auto simp: slash_def)

lemma named_segments: "plain_segment ''projects''" "plain_segment ''models''" "plain_segment ''tasks''"
  by (simp_all add: plain_segment_def slash_def)

lemma named_path:
  assumes "plain_segment d" and "slash \<notin> set n"
  shows "path_join [d, yaml_name n] = in_dir d n"
  using path_join_plain_pair [OF assms(1) plain_segment_yaml [OF assms(2)]]
  by (simp add: slash_def in_dir_def)

lemma task_layer_spec:
  assumes "coherent env pm" and "order_ok env" and "pmg_prompts_dir pm = dir"
    and "\<not> unsafe_name provider" and "\<not> unsafe_name task"
  shows "\<exists>pm'. task_layer env provider task pm = (task_of env dir provider task, pm') \<and>
    coherent env pm' \<and> pmg_prompts_dir pm' = dir"
proof -
  define p1 p2 where "p1 = in_dir ''tasks'' task"
    and "p2 = in_dir ''tasks'' (task @ ''.'' @ provider)"
  have n: "path_join [''tasks'', yaml_name task] = p1"
    "path_join [''tasks'', yaml_name (task @ ''.'' @ provider)] = p2"
    unfolding p1_def p2_def
    by - (rule named_path [OF named_segments(3) conjunct1 [OF safe_name_chars [OF assms(5)]]],
        rule named_path [OF named_segments(3) slash_free [OF assms(5,4)]])
  have spec: "task_of env dir provider task =
      (let special = (if provider = [] then [] else task_of_file env dir p2)
       in if special = [] then task_of_file env dir p1 else special)"
    by (simp only: task_of_def p1_def p2_def)
  have one: "\<exists>pm2. (case prompt_load env path pm1 of
        (Inr base, pm') \<Rightarrow> (task_text base, pm') | (Inl _, pm') \<Rightarrow> ([], pm')) =
      (task_of_file env dir path, pm2) \<and> coherent env pm2 \<and> pmg_prompts_dir pm2 = dir"
    if "coherent env pm1" and "pmg_prompts_dir pm1 = dir" for pm1 path
    using load_spec [OF that(1) assms(2) that(2), of path]
    by (auto simp: task_of_file_def split: sum.split)
  show ?thesis
  proof (cases "provider = []")
    case True
    then show ?thesis using one [OF assms(1,3), of p1] spec by (simp add: task_layer_def n(1))
  next
    case False
    obtain pm1 where pm1: "(case prompt_load env p2 pm of
        (Inr base, pm') \<Rightarrow> (task_text base, pm') | (Inl _, pm') \<Rightarrow> ([], pm')) = (task_of_file env dir p2, pm1)"
      "coherent env pm1" "pmg_prompts_dir pm1 = dir"
      using one [OF assms(1,3), of p2] by metis
    show ?thesis
      using False pm1 one [OF pm1(2,3), of p1]
      unfolding task_layer_def spec n by (cases "task_of_file env dir p2 = []") (simp_all add: Let_def)
  qed
qed

text \<open>
  C27. \<^verbatim>\<open>Build\<close> implements the layering its comment promises, and the cache is invisible: from every
  manager whose cache is coherent with the files, the prompt is the one read from the files directly,
  and the cache stays coherent, duplicate-free and within its 256 entries.
\<close>

theorem build_is_layered_prompt:
  assumes "coherent env pm" and "order_ok env"
    and "\<not> unsafe_name project" and "\<not> unsafe_name task" and "\<not> unsafe_name provider"
  shows "fst (Build env provider project task variables pm) =
      Inr (prompt_text env (pmg_prompts_dir pm) provider project task variables) \<and>
    coherent env (snd (Build env provider project task variables pm))"
proof -
  let ?dir = "pmg_prompts_dir pm"
  have safe: "first_unsafe [project, task, provider] = None" using assms(3-5) by simp
  have n: "path_join [''projects'', yaml_name project] = in_dir ''projects'' project"
    "path_join [''models'', yaml_name provider] = in_dir ''models'' provider"
    by - (rule named_path [OF named_segments(1) conjunct1 [OF safe_name_chars [OF assms(3)]]],
        rule named_path [OF named_segments(2) conjunct1 [OF safe_name_chars [OF assms(5)]]])
  let ?A = "\<lambda>parts st. \<exists>pm'. st = (parts, pm') \<and> coherent env pm' \<and> pmg_prompts_dir pm' = ?dir"
  have layer: "?A (parts @ (if c then system_layer env ?dir path else [])) (if c then add_layer env path st else st)"
    if "?A parts st" for parts st path c
    using that add_layer_spec [OF _ assms(2)] by (cases c) auto
  define st1 where "st1 = add_layer env ''base.yaml'' ([], pm)"
  have s1: "?A (system_layer env ?dir ''base.yaml'') st1"
    using layer [of "([], pm)" "[]" True "''base.yaml''"] assms(1) by (simp add: st1_def)
  define st2 where "st2 = (if project \<noteq> [] then add_layer env (in_dir ''projects'' project) st1 else st1)"
  note s2 = layer [OF s1, of "project \<noteq> []" "in_dir ''projects'' project", folded st2_def]
  define st3 where "st3 = (if provider \<noteq> [] then add_layer env (in_dir ''models'' provider) st2 else st2)"
  note s3 = layer [OF s2, of "provider \<noteq> []" "in_dir ''models'' provider", folded st3_def]
  obtain pm3 where pm3: "st3 = ((system_layer env ?dir ''base.yaml'' @
      (if project \<noteq> [] then system_layer env ?dir (in_dir ''projects'' project) else [])) @
      (if provider \<noteq> [] then system_layer env ?dir (in_dir ''models'' provider) else []), pm3)"
    "coherent env pm3" "pmg_prompts_dir pm3 = ?dir"
    using s3 by blast
  obtain pm4 where pm4: "task_layer env provider task pm3 = (task_of env ?dir provider task, pm4)"
    "coherent env pm4" "pmg_prompts_dir pm4 = ?dir"
    using task_layer_spec [OF pm3(2) assms(2) pm3(3) assms(5,4)] by blast
  show ?thesis
    unfolding Build_def safe option.case n st1_def [symmetric] Let_def
    unfolding st2_def [symmetric] unfolding st3_def [symmetric]
    using pm3 pm4 by (auto simp: prompt_text_def prompt_layers_def)
qed

definition sample_prompt_env :: prompt_env where
  "sample_prompt_env =
     \<lparr>pe_read = (\<lambda>p. if p = ''prompts/base.yaml'' then Inr ''be kind'' else Inl ''absent''),
      pe_unmarshal = (\<lambda>d. Inr \<lparr>pr_system_prompt = d, pr_task_prompt = []\<rparr>),
      pe_order = map fst\<rparr>"

lemma sample_order_ok: "order_ok sample_prompt_env"
  by (simp add: order_ok_def sample_prompt_env_def)

lemma empty_cache_coherent: "coherent env (NewPromptManager dir)"
  by (simp add: coherent_def NewPromptManager_def)

lemma ascii_names_safe: "\<not> unsafe_name ''app''" "\<not> unsafe_name []"
  by (simp_all add: unsafe_name_def is_abs_def has_prefix_def contains_any_def slash_def backslash_def)

theorem build_is_layered_prompt_witness:
  "fst (Build sample_prompt_env [] ''app'' [] [(''x'', ''y'')] (NewPromptManager ''prompts'')) =
     Inr (prompt_text sample_prompt_env (pmg_prompts_dir (NewPromptManager ''prompts'')) [] ''app'' [] [(''x'', ''y'')]) \<and>
   coherent sample_prompt_env
     (snd (Build sample_prompt_env [] ''app'' [] [(''x'', ''y'')] (NewPromptManager ''prompts'')))"
  by (rule build_is_layered_prompt)
    (rule empty_cache_coherent sample_order_ok ascii_names_safe)+

end
