(* ===== verification/Http.thy ===== *)
theory Http
  imports Prelude
begin

text \<open>
  What the handlers and the middleware use of \<^verbatim>\<open>gin\<close>, \<^verbatim>\<open>net/http\<close>, \<^verbatim>\<open>strconv\<close> and \<^verbatim>\<open>encoding/json\<close>: a request
  context with its inputs and the values set on it, JSON bodies as trees, and decimal parsing.
\<close>

datatype json =
    JNull
  | JBool bool
  | JInt int
  | JFloat rat
  | JStr string
  | JList "json list"
  | JObj "(string \<times> json) list"

record http_response =
  rs_status :: int
  rs_body :: json

text \<open>\<^verbatim>\<open>gin.H{"error": e}\<close>.\<close>

definition error_response :: "int \<Rightarrow> error_text \<Rightarrow> http_response" where
  "error_response status e = \<lparr>rs_status = status, rs_body = JObj [(''error'', JStr e)]\<rparr>"

definition json_response :: "int \<Rightarrow> (string \<times> json) list \<Rightarrow> http_response" where
  "json_response status kvs = \<lparr>rs_status = status, rs_body = JObj kvs\<rparr>"

text \<open>A slice: a nil slice, which an empty result is here, is \<^verbatim>\<open>null\<close>.\<close>

definition json_list :: "('a \<Rightarrow> json) \<Rightarrow> 'a list \<Rightarrow> json" where
  "json_list f xs = (if xs = [] then JNull else JList (map f xs))"

text \<open>
  The parts of \<^verbatim>\<open>gin.Context\<close> in use.  \<^verbatim>\<open>GetHeader\<close>, \<^verbatim>\<open>Query\<close> and \<^verbatim>\<open>Param\<close> give the empty string for what is
  absent; the \<^verbatim>\<open>Keys\<close> in use are the client id, the service name, the mark of a trusted network and
  the trace id.
\<close>

record gin =
  gn_client_ip :: string
  gn_header :: "string \<Rightarrow> string"
  gn_get_query :: "string \<Rightarrow> string option"
  gn_param :: "string \<Rightarrow> string"
  gn_client_id :: "string option"
  gn_service_name :: "string option"
  gn_trusted :: "bool option"
  gn_trace_id :: "string option"
  gn_out_headers :: "(string \<times> string) list"

definition gn_query :: "gin \<Rightarrow> string \<Rightarrow> string" where
  "gn_query c k = (case gn_get_query c k of Some v \<Rightarrow> v | None \<Rightarrow> [])"

definition default_query :: "gin \<Rightarrow> string \<Rightarrow> string \<Rightarrow> string" where
  "default_query c k d = (case gn_get_query c k of Some v \<Rightarrow> v | None \<Rightarrow> d)"

definition set_out_header :: "string \<Rightarrow> string \<Rightarrow> gin \<Rightarrow> gin" where
  "set_out_header k v c = c\<lparr>gn_out_headers := filter (\<lambda>(k', _). k' \<noteq> k) (gn_out_headers c) @ [(k, v)]\<rparr>"

subsection \<open>Decimal numbers\<close>

definition digit_value :: "char \<Rightarrow> nat option" where
  "digit_value c = (let n = (of_char c :: nat) in if 48 \<le> n \<and> n \<le> 57 then Some (n - 48) else None)"

fun parse_digits :: "nat \<Rightarrow> string \<Rightarrow> nat option" where
  "parse_digits acc [] = Some acc"
| "parse_digits acc (c # s) =
     (case digit_value c of None \<Rightarrow> None | Some d \<Rightarrow> parse_digits (10 * acc + d) s)"

text \<open>\<^verbatim>\<open>strconv.ParseInt(s, 10, 64)\<close> and \<^verbatim>\<open>strconv.Atoi\<close>: \<^const>\<open>None\<close> for a syntax or range error.\<close>

definition parse_int :: "string \<Rightarrow> int option" where
  "parse_int s =
     (let (neg, ds) = (case s of
            c # r \<Rightarrow> if c = CHR ''-'' then (True, r) else if c = CHR ''+'' then (False, r) else (False, s)
          | [] \<Rightarrow> (False, []))
      in if ds = [] then None
         else (case parse_digits 0 ds of
                 None \<Rightarrow> None
               | Some n \<Rightarrow>
                   (let i = (if neg then - int n else int n)
                    in if - 9223372036854775808 \<le> i \<and> i \<le> 9223372036854775807 then Some i else None)))"

lemma parse_digits_append:
  "parse_digits acc (s @ t) = (case parse_digits acc s of None \<Rightarrow> None | Some n \<Rightarrow> parse_digits n t)"
  by (induction s arbitrary: acc) (auto split: option.splits)

lemma digit_value_digit: "n < 10 \<Longrightarrow> digit_value (char_of (48 + n)) = Some n"
  by (simp add: digit_value_def of_char_of Let_def)

lemma parse_show_nat: "parse_digits 0 (show_nat n) = Some n"
proof (induction n rule: less_induct)
  case (less n)
  show ?case
  proof (cases "n < 10")
    case True
    then show ?thesis by (subst show_nat.simps) (simp add: digit_value_digit)
  next
    case False
    then have "parse_digits 0 (show_nat (n div 10)) = Some (n div 10)"
      by (intro less.IH) simp
    moreover have "digit_value (char_of (48 + n mod 10)) = Some (n mod 10)"
      by (rule digit_value_digit) simp
    ultimately show ?thesis using False by (subst show_nat.simps) (simp add: parse_digits_append)
  qed
qed

lemma show_nat_first: "\<exists>c s. show_nat n = c # s \<and> c \<noteq> CHR ''-'' \<and> c \<noteq> CHR ''+''"
proof (cases "show_nat n")
  case Nil
  then show ?thesis by simp
next
  case (Cons c s)
  then have "digit_value c \<noteq> None"
    using parse_show_nat [of n] by (auto split: option.splits)
  then have "c \<noteq> CHR ''-'' \<and> c \<noteq> CHR ''+''" by (auto simp: digit_value_def)
  then show ?thesis using Cons by simp
qed

lemma parse_show_int:
  assumes "- 9223372036854775808 \<le> i" and "i \<le> 9223372036854775807"
  shows "parse_int (show_int i) = Some i"
proof -
  obtain c s where c: "show_nat (nat i) = c # s" "c \<noteq> CHR ''-''" "c \<noteq> CHR ''+''"
    using show_nat_first by metis
  show ?thesis
    using assms c parse_show_nat [of "nat i"] parse_show_nat [of "nat (- i)"]
    by (cases "i < 0") (simp_all add: parse_int_def show_int_def Let_def)
qed

text \<open>\<^verbatim>\<open>limit\<close> parameters: the default, the value given when it is positive, and at most \<^term>\<open>m\<close>.\<close>

definition query_limit :: "int \<Rightarrow> int \<Rightarrow> string \<Rightarrow> int" where
  "query_limit d m l =
     (let limit = (if l \<noteq> [] then (case parse_int l of Some n \<Rightarrow> if n > 0 then n else d | None \<Rightarrow> d) else d)
      in if limit > m then m else limit)"

lemma query_limit_range: "1 \<le> d \<Longrightarrow> 1 \<le> m \<Longrightarrow> 1 \<le> query_limit d m l \<and> query_limit d m l \<le> m"
  by (auto simp: query_limit_def Let_def split: option.splits)

end
