(* ===== verification/Services.thy ===== *)
theory Services
  imports Http
begin

text \<open>
  The services the gateway runs on: Redis and the clock's text format.  A Redis client is a record of
  operations on a state of unknown type; what its documentation promises is stated with a view
  \<open>view r t k\<close>, the value a key has at a time unless somebody changes it.  A command can fail, and a
  failed write may or may not have taken effect.
\<close>

datatype redis_reply = RedisNil | RedisErr error_text | RedisVal string

record 'r redis =
  rd_get :: "go_time \<Rightarrow> 'r \<Rightarrow> string \<Rightarrow> redis_reply"
  rd_set :: "go_time \<Rightarrow> 'r \<Rightarrow> string \<Rightarrow> string \<Rightarrow> duration \<Rightarrow> error_text option \<times> 'r"
  rd_del :: "go_time \<Rightarrow> 'r \<Rightarrow> string \<Rightarrow> error_text option \<times> 'r"

text \<open>\<open>SET\<close> with an expiry of 0 keeps the key for ever.\<close>

definition set_view ::
  "(go_time \<Rightarrow> string \<Rightarrow> string option) \<Rightarrow> go_time \<Rightarrow> string \<Rightarrow> string \<Rightarrow> duration
   \<Rightarrow> go_time \<Rightarrow> string \<Rightarrow> string option" where
  "set_view v now k x ttl =
     (\<lambda>t k'. if k' = k then (if ttl \<le> 0 \<or> t < now + ttl then Some x else None) else v t k')"

definition del_view ::
  "(go_time \<Rightarrow> string \<Rightarrow> string option) \<Rightarrow> string \<Rightarrow> go_time \<Rightarrow> string \<Rightarrow> string option" where
  "del_view v k = (\<lambda>t k'. if k' = k then None else v t k')"

definition redis_ok :: "'r redis \<Rightarrow> ('r \<Rightarrow> go_time \<Rightarrow> string \<Rightarrow> string option) \<Rightarrow> bool" where
  "redis_ok rd view \<longleftrightarrow>
     (\<forall>now r k. rd_get rd now r k = RedisNil \<longrightarrow> view r now k = None) \<and>
     (\<forall>now r k x. rd_get rd now r k = RedisVal x \<longrightarrow> view r now k = Some x) \<and>
     (\<forall>now r k x ttl e r'. rd_set rd now r k x ttl = (e, r') \<longrightarrow>
        view r' = set_view (view r) now k x ttl \<or> (e \<noteq> None \<and> view r' = view r)) \<and>
     (\<forall>now r k e r'. rd_del rd now r k = (e, r') \<longrightarrow>
        view r' = del_view (view r) k \<or> (e \<noteq> None \<and> view r' = view r))"

lemma redis_get_val: "redis_ok rd view \<Longrightarrow> rd_get rd now r k = RedisVal x \<Longrightarrow> view r now k = Some x"
  by (simp add: redis_ok_def)

lemma redis_get_nil: "redis_ok rd view \<Longrightarrow> rd_get rd now r k = RedisNil \<Longrightarrow> view r now k = None"
  by (simp add: redis_ok_def)

lemma redis_set_view:
  "redis_ok rd view \<Longrightarrow> rd_set rd now r k x ttl = (e, r') \<Longrightarrow>
   view r' = set_view (view r) now k x ttl \<or> (e \<noteq> None \<and> view r' = view r)"
  unfolding redis_ok_def by blast

lemma redis_del_view:
  "redis_ok rd view \<Longrightarrow> rd_del rd now r k = (e, r') \<Longrightarrow>
   view r' = del_view (view r) k \<or> (e \<noteq> None \<and> view r' = view r)"
  unfolding redis_ok_def by blast

text \<open>A server that never fails, for concrete instances: a list of keys with value and expiry.\<close>

type_synonym mem_redis = "(string \<times> string \<times> go_time option) list"

definition mem_view :: "mem_redis \<Rightarrow> go_time \<Rightarrow> string \<Rightarrow> string option" where
  "mem_view r t k = (case map_of r k of
     None \<Rightarrow> None
   | Some (x, None) \<Rightarrow> Some x
   | Some (x, Some e) \<Rightarrow> if t < e then Some x else None)"

definition mem_redis :: "mem_redis redis" where
  "mem_redis =
     \<lparr>rd_get = (\<lambda>now r k. case mem_view r now k of None \<Rightarrow> RedisNil | Some x \<Rightarrow> RedisVal x),
      rd_set = (\<lambda>now r k x ttl. (None, (k, x, if ttl \<le> 0 then None else Some (now + ttl)) # r)),
      rd_del = (\<lambda>now r k. (None, filter (\<lambda>e. fst e \<noteq> k) r))\<rparr>"

lemma mem_redis_ok: "redis_ok mem_redis mem_view"
proof -
  have "map_of (filter (\<lambda>e. fst e \<noteq> k) r) k' = (if k' = k then None else map_of r k')" for r :: mem_redis and k k'
    by (induction r) auto
  then show ?thesis
    by (auto simp: redis_ok_def mem_redis_def mem_view_def set_view_def del_view_def fun_eq_iff
        split: option.splits)
qed

text \<open>
  \<^verbatim>\<open>Time.Format\<close> and \<^verbatim>\<open>time.Parse\<close> with the layout RFC 3339, which keeps whole seconds.
\<close>

record time_format =
  tf_format :: "go_time \<Rightarrow> string"
  tf_parse :: "string \<Rightarrow> error_text + go_time"

definition whole_seconds :: "go_time \<Rightarrow> go_time" where
  "whole_seconds t = t div second * second"

definition time_format_ok :: "time_format \<Rightarrow> bool" where
  "time_format_ok tf \<longleftrightarrow> (\<forall>t. tf_parse tf (tf_format tf t) = Inr (whole_seconds t))"

lemma whole_seconds_le: "whole_seconds t \<le> t" "t < whole_seconds t + second"
proof -
  have "t = whole_seconds t + t mod second" by (simp add: whole_seconds_def)
  moreover have "0 \<le> t mod second" and "t mod second < second" by (simp_all add: second_def)
  ultimately show "whole_seconds t \<le> t" "t < whole_seconds t + second" by linarith+
qed

text \<open>A concrete format: the seconds in decimal.\<close>

definition sample_time :: time_format where
  "sample_time = \<lparr>tf_format = (\<lambda>t. show_int (t div second)),
     tf_parse = (\<lambda>s. case (case s of c # r \<Rightarrow> if c = CHR ''-'' then map_option (\<lambda>n. - int n) (parse_digits 0 r)
                                     else map_option int (parse_digits 0 s) | [] \<Rightarrow> None) of
                   None \<Rightarrow> Inl ''cannot parse'' | Some n \<Rightarrow> Inr (n * second))\<rparr>"

lemma sample_time_ok: "time_format_ok sample_time"
proof -
  have "tf_parse sample_time (tf_format sample_time t) = Inr (whole_seconds t)" for t
  proof -
    obtain c r where c: "show_nat (nat (t div second)) = c # r" "c \<noteq> CHR ''-''" using show_nat_first by metis
    show ?thesis
      using c parse_show_nat [of "nat (t div second)"] parse_show_nat [of "nat (- (t div second))"]
      by (cases "t div second < 0") (simp_all add: sample_time_def show_int_def whole_seconds_def)
  qed
  then show ?thesis by (simp add: time_format_ok_def)
qed

end
