(* ===== verification/Logs.thy ===== *)
theory Logs
  imports Http Services Requests "HOL-Library.List_Lexorder" "HOL-Library.Char_ord" "HOL-Library.Multiset"
begin

text \<open>
  \<^verbatim>\<open>internal/store/requestlog.go\<close>: the asynchronous writer of request logs as a bounded queue between
  goroutines, and the reader, whose conditions are clauses with their SQL text, their arguments and their
  meaning on rows.  SQLite's date functions and its sums and averages of floats are arguments.
\<close>

subsection \<open>Rows\<close>

record FallbackAttemptLog =
  fl_order :: int
  fl_provider :: string
  fl_model :: string
  fl_status :: string
  fl_error :: string
  fl_latency_ms :: int

record RequestLog =
  lg_trace_id :: string
  lg_client_id :: string
  lg_client_ip :: string
  lg_api_key_id :: int
  lg_project :: string
  lg_task :: string
  lg_requested_provider :: string
  lg_requested_model :: string
  lg_prompt_hash :: string
  lg_input_preview :: string
  lg_options_json :: string
  lg_actual_provider :: string
  lg_actual_model :: string
  lg_fallback_used :: bool
  lg_fallback_chain :: "FallbackAttemptLog list"
  lg_routing_reason :: string
  lg_status :: string
  lg_error_code :: string
  lg_error_message :: string
  lg_input_tokens :: int
  lg_output_tokens :: int
  lg_cost_usd :: float64
  lg_latency_ms :: int
  lg_provider_latency_ms :: int
  lg_search_grounding :: bool
  lg_output_preview :: string
  lg_metadata :: "(string \<times> json) list"

text \<open>The columns of \<^verbatim>\<open>request_logs\<close> (migration 003); the ones that can be NULL are options.\<close>

record log_row =
  rw_id :: int
  rw_trace_id :: string
  rw_timestamp :: string
  rw_client_id :: "string option"
  rw_client_ip :: "string option"
  rw_api_key_id :: "int option"
  rw_project :: "string option"
  rw_task :: "string option"
  rw_requested_provider :: "string option"
  rw_requested_model :: "string option"
  rw_prompt_hash :: "string option"
  rw_input_preview :: "string option"
  rw_options_json :: "string option"
  rw_actual_provider :: "string option"
  rw_actual_model :: "string option"
  rw_fallback_used :: int
  rw_fallback_chain_json :: "string option"
  rw_routing_reason :: "string option"
  rw_status :: string
  rw_error_code :: "string option"
  rw_error_message :: "string option"
  rw_input_tokens :: "int option"
  rw_output_tokens :: "int option"
  rw_cost_usd :: "float64 option"
  rw_latency_ms :: "int option"
  rw_provider_latency_ms :: "int option"
  rw_search_grounding :: int
  rw_output_preview :: "string option"
  rw_metadata_json :: "string option"

record logs_table =
  lt_rows :: "log_row list"
  lt_next_id :: int

definition nilIfEmpty :: "string \<Rightarrow> string option" where
  "nilIfEmpty s = (if s = [] then None else Some s)"

text \<open>\<^verbatim>\<open>json.Marshal\<close> of the two structured columns is an argument; its errors leave the column NULL.\<close>

record log_json =
  lj_chain :: "FallbackAttemptLog list \<Rightarrow> error_text + string"
  lj_metadata :: "(string \<times> json) list \<Rightarrow> error_text + string"

definition json_column :: "('a list \<Rightarrow> error_text + string) \<Rightarrow> 'a list \<Rightarrow> string option" where
  "json_column marshal xs =
     (if length xs > 0 then (case marshal xs of Inl _ \<Rightarrow> None | Inr s \<Rightarrow> Some s) else None)"

definition log_row_of :: "log_json \<Rightarrow> int \<Rightarrow> string \<Rightarrow> RequestLog \<Rightarrow> log_row" where
  "log_row_of lj id' now l =
     \<lparr>rw_id = id', rw_trace_id = lg_trace_id l, rw_timestamp = now,
      rw_client_id = Some (lg_client_id l), rw_client_ip = Some (lg_client_ip l),
      rw_api_key_id = (if lg_api_key_id l > 0 then Some (lg_api_key_id l) else None),
      rw_project = Some (lg_project l), rw_task = Some (lg_task l),
      rw_requested_provider = Some (lg_requested_provider l), rw_requested_model = Some (lg_requested_model l),
      rw_prompt_hash = Some (lg_prompt_hash l), rw_input_preview = Some (lg_input_preview l),
      rw_options_json = Some (lg_options_json l),
      rw_actual_provider = Some (lg_actual_provider l), rw_actual_model = Some (lg_actual_model l),
      rw_fallback_used = (if lg_fallback_used l then 1 else 0),
      rw_fallback_chain_json = json_column (lj_chain lj) (lg_fallback_chain l),
      rw_routing_reason = Some (lg_routing_reason l), rw_status = lg_status l,
      rw_error_code = nilIfEmpty (lg_error_code l), rw_error_message = nilIfEmpty (lg_error_message l),
      rw_input_tokens = Some (lg_input_tokens l), rw_output_tokens = Some (lg_output_tokens l),
      rw_cost_usd = Some (lg_cost_usd l), rw_latency_ms = Some (lg_latency_ms l),
      rw_provider_latency_ms = Some (lg_provider_latency_ms l),
      rw_search_grounding = (if lg_search_grounding l then 1 else 0),
      rw_output_preview = Some (lg_output_preview l),
      rw_metadata_json = json_column (lj_metadata lj) (lg_metadata l)\<rparr>"

text \<open>The insertion respects the unique column \<^verbatim>\<open>trace_id\<close>.\<close>

definition log_insert ::
  "log_json \<Rightarrow> time_format \<Rightarrow> error_text option \<Rightarrow> go_time \<Rightarrow> RequestLog \<Rightarrow> logs_table
   \<Rightarrow> error_text option \<times> logs_table" where
  "log_insert lj tf fail nowt l t =
     (let err = (case fail of
                   Some e \<Rightarrow> Some e
                 | None \<Rightarrow> if lg_trace_id l \<in> set (map rw_trace_id (lt_rows t))
                           then Some ''UNIQUE constraint failed: request_logs.trace_id'' else None)
      in case err of
           Some e \<Rightarrow> (Some ((bytes [235, 161, 156, 234, 183, 184, 32, 73, 78, 83, 69, 82, 84, 32, 236, 139, 164, 237, 140, 168, 58, 32]) @ e), t)
         | None \<Rightarrow> (None, t\<lparr>lt_rows := lt_rows t @ [log_row_of lj (lt_next_id t) (tf_format tf nowt) l],
                            lt_next_id := lt_next_id t + 1\<rparr>))"

subsection \<open>The writer\<close>

text \<open>
  The channel with its capacity, whether it is closed, whether \<^verbatim>\<open>consume\<close> has returned (\<open>done\<close>), and the table.
  \<^verbatim>\<open>Write\<close> gives \<^const>\<open>None\<close> when it panics, on a closed channel.
\<close>

record RequestLogWriter =
  lw_ch :: "RequestLog list"
  lw_cap :: nat
  lw_closed :: bool
  lw_done :: bool
  lw_table :: logs_table

definition NewRequestLogWriter :: "int \<Rightarrow> logs_table \<Rightarrow> RequestLogWriter" where
  "NewRequestLogWriter bufSize t =
     \<lparr>lw_ch = [], lw_cap = nat (if bufSize \<le> 0 then 1000 else bufSize), lw_closed = False, lw_done = False,
      lw_table = t\<rparr>"

definition log_write :: "RequestLog \<Rightarrow> RequestLogWriter \<Rightarrow> RequestLogWriter option" where
  "log_write l w =
     (if lw_closed w then None
      else if length (lw_ch w) < lw_cap w then Some (w\<lparr>lw_ch := lw_ch w @ [l]\<rparr>)
      else Some w)"

definition writer_close :: "RequestLogWriter \<Rightarrow> RequestLogWriter option" where
  "writer_close w = (if lw_closed w then None else Some (w\<lparr>lw_closed := True\<rparr>))"

text \<open>One turn of the loop in \<^verbatim>\<open>consume\<close>; \<^const>\<open>None\<close> while it has to wait.\<close>

definition consume :: "log_json \<Rightarrow> time_format \<Rightarrow> error_text option \<Rightarrow> go_time \<Rightarrow> RequestLogWriter \<Rightarrow> RequestLogWriter option" where
  "consume lj tf fail now w =
     (if lw_done w then None
      else (case lw_ch w of
              l # ls \<Rightarrow> Some (w\<lparr>lw_ch := ls, lw_table := snd (log_insert lj tf fail now l (lw_table w))\<rparr>)
            | [] \<Rightarrow> if lw_closed w then Some (w\<lparr>lw_done := True\<rparr>) else None))"

text \<open>
  All interleavings of writers, the consumer and \<^verbatim>\<open>Close\<close>, with what was accepted, what was dropped and what
  the consumer has taken so far.
\<close>

record writer_trace =
  wt_writer :: RequestLogWriter
  wt_accepted :: "RequestLog list"
  wt_dropped :: "RequestLog list"
  wt_taken :: "(error_text option \<times> go_time \<times> RequestLog) list"

inductive writer_run :: "log_json \<Rightarrow> time_format \<Rightarrow> int \<Rightarrow> logs_table \<Rightarrow> writer_trace \<Rightarrow> bool"
  for lj tf bufSize t0 where
  start: "writer_run lj tf bufSize t0 \<lparr>wt_writer = NewRequestLogWriter bufSize t0, wt_accepted = [], wt_dropped = [], wt_taken = []\<rparr>"
| queued: "writer_run lj tf bufSize t0 s \<Longrightarrow> log_write l (wt_writer s) = Some w \<Longrightarrow> lw_ch w \<noteq> lw_ch (wt_writer s) \<Longrightarrow>
    writer_run lj tf bufSize t0 (s\<lparr>wt_writer := w, wt_accepted := wt_accepted s @ [l]\<rparr>)"
| dropped: "writer_run lj tf bufSize t0 s \<Longrightarrow> log_write l (wt_writer s) = Some w \<Longrightarrow> lw_ch w = lw_ch (wt_writer s) \<Longrightarrow>
    writer_run lj tf bufSize t0 (s\<lparr>wt_writer := w, wt_dropped := wt_dropped s @ [l]\<rparr>)"
| taken: "writer_run lj tf bufSize t0 s \<Longrightarrow> consume lj tf fail now (wt_writer s) = Some w \<Longrightarrow>
    writer_run lj tf bufSize t0 (s\<lparr>wt_writer := w,
      wt_taken := wt_taken s @ (case lw_ch (wt_writer s) of [] \<Rightarrow> [] | l # _ \<Rightarrow> [(fail, now, l)])\<rparr>)"
| closed: "writer_run lj tf bufSize t0 s \<Longrightarrow> writer_close (wt_writer s) = Some w \<Longrightarrow>
    writer_run lj tf bufSize t0 (s\<lparr>wt_writer := w\<rparr>)"

definition insert_all :: "log_json \<Rightarrow> time_format \<Rightarrow> (error_text option \<times> go_time \<times> RequestLog) list \<Rightarrow> logs_table \<Rightarrow> logs_table" where
  "insert_all lj tf xs t = foldl (\<lambda>t (fail, now, l). snd (log_insert lj tf fail now l t)) t xs"

definition writer_inv :: "log_json \<Rightarrow> time_format \<Rightarrow> int \<Rightarrow> logs_table \<Rightarrow> writer_trace \<Rightarrow> bool" where
  "writer_inv lj tf bufSize t0 s \<longleftrightarrow>
     wt_accepted s = map (snd \<circ> snd) (wt_taken s) @ lw_ch (wt_writer s) \<and>
     length (lw_ch (wt_writer s)) \<le> lw_cap (wt_writer s) \<and> lw_cap (wt_writer s) = lw_cap (NewRequestLogWriter bufSize t0) \<and>
     (lw_done (wt_writer s) \<longrightarrow> lw_closed (wt_writer s) \<and> lw_ch (wt_writer s) = []) \<and>
     lw_table (wt_writer s) = insert_all lj tf (wt_taken s) t0"

lemma writer_run_inv: "writer_run lj tf bufSize t0 s \<Longrightarrow> writer_inv lj tf bufSize t0 s"
proof (induction rule: writer_run.induct)
  case (taken s fail now w)
  then show ?case
    by (cases "lw_ch (wt_writer s)")
      (auto simp: writer_inv_def consume_def insert_all_def split: if_splits)
qed (auto simp: writer_inv_def log_write_def writer_close_def NewRequestLogWriter_def insert_all_def split: if_splits)

text \<open>Turns of the consumer on its own, each with the answer of the database and its moment.\<close>

fun drain :: "log_json \<Rightarrow> time_format \<Rightarrow> nat \<Rightarrow> (nat \<Rightarrow> error_text option) \<Rightarrow> (nat \<Rightarrow> go_time) \<Rightarrow> RequestLogWriter \<Rightarrow> RequestLogWriter option" where
  "drain lj tf 0 fails clock w = Some w"
| "drain lj tf (Suc n) fails clock w =
     (case consume lj tf (fails 0) (clock 0) w of
        None \<Rightarrow> None
      | Some w' \<Rightarrow> drain lj tf n (fails \<circ> Suc) (clock \<circ> Suc) w')"

lemma drain_closed:
  assumes "lw_closed w" and "\<not> lw_done w"
  shows "\<exists>w'. drain lj tf (Suc (length (lw_ch w))) fails clock w = Some w' \<and> lw_done w'"
  using assms
proof (induction "lw_ch w" arbitrary: w fails clock)
  case Nil
  then show ?case by (simp add: consume_def flip: Nil(1))
next
  case (Cons l ls)
  let ?w = "w\<lparr>lw_ch := ls, lw_table := snd (log_insert lj tf (fails 0) (clock 0) l (lw_table w))\<rparr>"
  have c: "consume lj tf (fails 0) (clock 0) w = Some ?w"
    using Cons.prems by (simp add: consume_def flip: Cons.hyps(2))
  have "\<exists>w'. drain lj tf (Suc (length (lw_ch ?w))) (fails \<circ> Suc) (clock \<circ> Suc) ?w = Some w' \<and> lw_done w'"
    by (rule Cons.hyps(1)) (use Cons.prems in auto)
  then show ?case using c by (simp flip: Cons.hyps(2))
qed

text \<open>
  C37. The log writer loses nothing it has accepted.  In every interleaving the consumer takes the accepted
  logs in the order they were accepted, at most the capacity of them wait, the table is what inserting the
  taken ones gives, and once \<^verbatim>\<open>Close\<close> has returned all of them have been taken; after \<^verbatim>\<open>close(ch)\<close> the consumer
  finishes in one turn for each waiting log and one more, whatever the database answers.
\<close>

theorem accepted_logs_are_written:
  assumes "writer_run lj tf bufSize t0 s"
  shows "(\<exists>waiting. wt_accepted s = map (snd \<circ> snd) (wt_taken s) @ waiting \<and>
      int (length waiting) \<le> (if bufSize \<le> 0 then 1000 else bufSize) \<and> (lw_done (wt_writer s) \<longrightarrow> waiting = [])) \<and>
    lw_table (wt_writer s) = insert_all lj tf (wt_taken s) t0 \<and>
    (lw_closed (wt_writer s) \<and> \<not> lw_done (wt_writer s) \<longrightarrow>
      (\<exists>w. drain lj tf (Suc (length (lw_ch (wt_writer s)))) fails clock (wt_writer s) = Some w \<and> lw_done w))"
  using writer_run_inv [OF assms] drain_closed [of "wt_writer s" lj tf fails clock]
  by (auto simp: writer_inv_def NewRequestLogWriter_def split: if_splits)

definition sample_log :: "string \<Rightarrow> RequestLog" where
  "sample_log tid = \<lparr>lg_trace_id = tid, lg_client_id = ''app'', lg_client_ip = ''9.9.9.9'', lg_api_key_id = 1,
     lg_project = ''p'', lg_task = [], lg_requested_provider = ''gpt'', lg_requested_model = ''gpt-4o'',
     lg_prompt_hash = [], lg_input_preview = [], lg_options_json = [], lg_actual_provider = ''gpt'',
     lg_actual_model = ''gpt-4o'', lg_fallback_used = False, lg_fallback_chain = [], lg_routing_reason = ''primary'',
     lg_status = ''success'', lg_error_code = [], lg_error_message = [], lg_input_tokens = 10, lg_output_tokens = 5,
     lg_cost_usd = 1, lg_latency_ms = 20, lg_provider_latency_ms = 20, lg_search_grounding = False,
     lg_output_preview = [], lg_metadata = []\<rparr>"

definition sample_log_json :: log_json where
  "sample_log_json = \<lparr>lj_chain = (\<lambda>_. Inl ''error''), lj_metadata = (\<lambda>_. Inl ''error'')\<rparr>"

definition plain_time :: time_format where
  "plain_time = \<lparr>tf_format = (\<lambda>t. show_int (t div second)), tf_parse = (\<lambda>s. Inl s)\<rparr>"

definition empty_logs :: logs_table where
  "empty_logs = \<lparr>lt_rows = [], lt_next_id = 1\<rparr>"

theorem accepted_logs_are_written_witness:
  "\<exists>s w. writer_run sample_log_json plain_time 1 empty_logs s \<and> wt_accepted s = [sample_log ''a''] \<and>
    wt_dropped s = [sample_log ''b''] \<and> lw_closed (wt_writer s) \<and>
    drain sample_log_json plain_time (Suc (length (lw_ch (wt_writer s)))) (\<lambda>_. None) (\<lambda>_. 0) (wt_writer s) = Some w \<and> lw_done w"
proof -
  let ?run = "writer_run sample_log_json plain_time 1 empty_logs"
  let ?w0 = "NewRequestLogWriter 1 empty_logs"
  let ?s0 = "\<lparr>wt_writer = ?w0, wt_accepted = [], wt_dropped = [], wt_taken = []\<rparr>"
  let ?w1 = "?w0\<lparr>lw_ch := [sample_log ''a'']\<rparr>"
  let ?s1 = "?s0\<lparr>wt_writer := ?w1, wt_accepted := [sample_log ''a'']\<rparr>"
  have "?run ?s1"
    using writer_run.queued [OF writer_run.start, where l = "sample_log ''a''" and w = ?w1 and lj = sample_log_json
        and tf = plain_time and bufSize = 1 and ?t0.0 = empty_logs]
    by (simp add: log_write_def NewRequestLogWriter_def)
  then have "?run (?s1\<lparr>wt_writer := ?w1, wt_dropped := wt_dropped ?s1 @ [sample_log ''b'']\<rparr>)"
    by (rule writer_run.dropped) (simp_all add: log_write_def NewRequestLogWriter_def)
  then have "?run ((?s1\<lparr>wt_writer := ?w1, wt_dropped := wt_dropped ?s1 @ [sample_log ''b'']\<rparr>)\<lparr>wt_writer := ?w1\<lparr>lw_closed := True\<rparr>\<rparr>)"
    by (rule writer_run.closed) (simp add: writer_close_def NewRequestLogWriter_def)
  moreover from accepted_logs_are_written [OF this, of "\<lambda>_. None" "\<lambda>_. 0"]
  have "\<exists>w. drain sample_log_json plain_time (Suc (length (lw_ch (?w1\<lparr>lw_closed := True\<rparr>)))) (\<lambda>_. None) (\<lambda>_. 0) (?w1\<lparr>lw_closed := True\<rparr>) = Some w \<and> lw_done w"
    by (simp add: NewRequestLogWriter_def)
  ultimately show ?thesis
    by (intro exI [of _ "(?s1\<lparr>wt_writer := ?w1, wt_dropped := wt_dropped ?s1 @ [sample_log ''b'']\<rparr>)\<lparr>wt_writer := ?w1\<lparr>lw_closed := True\<rparr>\<rparr>"]) auto
qed

subsection \<open>Conditions\<close>

text \<open>
  The conditions of all queries on \<^verbatim>\<open>request_logs\<close>: a column, a date or a status compared with placeholders.
\<close>

datatype clause =
    ColEq string string
  | ProviderEither string
  | FallbackEq int
  | DateEq string
  | DateBetween string string
  | MonthEq string
  | YearEq string
  | StatusSuccess
  | DateBefore string

datatype sql_arg = ArgStr string | ArgInt int

fun clause_text :: "clause \<Rightarrow> string" where
  "clause_text (ColEq col _) = col @ '' = ?''"
| "clause_text (ProviderEither _) = ''(actual_provider = ? OR requested_provider = ?)''"
| "clause_text (FallbackEq _) = ''fallback_used = ?''"
| "clause_text (DateEq _) = ''date(timestamp) = ?''"
| "clause_text (DateBetween _ _) = ''date(timestamp) BETWEEN ? AND ?''"
| "clause_text (MonthEq _) = ''strftime('' @ bytes [39] @ ''%Y-%m'' @ bytes [39] @ '', timestamp) = ?''"
| "clause_text (YearEq _) = ''strftime('' @ bytes [39] @ ''%Y'' @ bytes [39] @ '', timestamp) = ?''"
| "clause_text StatusSuccess = ''status = '' @ bytes [39] @ ''success'' @ bytes [39]"
| "clause_text (DateBefore _) = ''date(timestamp) < ?''"

fun clause_args :: "clause \<Rightarrow> sql_arg list" where
  "clause_args (ColEq _ v) = [ArgStr v]"
| "clause_args (ProviderEither v) = [ArgStr v, ArgStr v]"
| "clause_args (FallbackEq v) = [ArgInt v]"
| "clause_args (DateEq v) = [ArgStr v]"
| "clause_args (DateBetween v w) = [ArgStr v, ArgStr w]"
| "clause_args (MonthEq v) = [ArgStr v]"
| "clause_args (YearEq v) = [ArgStr v]"
| "clause_args StatusSuccess = []"
| "clause_args (DateBefore v) = [ArgStr v]"

text \<open>SQLite: the date functions (NULL for a text that is no date), and its float arithmetic.\<close>

record sql_lib =
  sq_date :: "string \<Rightarrow> string option"
  sq_month :: "string \<Rightarrow> string option"
  sq_year :: "string \<Rightarrow> string option"
  sq_sum :: "float64 list \<Rightarrow> float64"
  sq_avg :: "int list \<Rightarrow> float64"

definition column :: "string \<Rightarrow> log_row \<Rightarrow> string option" where
  "column col r =
     (if col = ''trace_id'' then Some (rw_trace_id r)
      else if col = ''client_id'' then rw_client_id r
      else if col = ''project'' then rw_project r
      else if col = ''status'' then Some (rw_status r)
      else if col = ''actual_provider'' then rw_actual_provider r
      else if col = ''actual_model'' then rw_actual_model r
      else None)"

text \<open>A comparison with NULL is not true.\<close>

fun clause_holds :: "sql_lib \<Rightarrow> log_row \<Rightarrow> clause \<Rightarrow> bool" where
  "clause_holds sq r (ColEq col v) = (column col r = Some v)"
| "clause_holds sq r (ProviderEither v) = (rw_actual_provider r = Some v \<or> rw_requested_provider r = Some v)"
| "clause_holds sq r (FallbackEq v) = (rw_fallback_used r = v)"
| "clause_holds sq r (DateEq v) = (sq_date sq (rw_timestamp r) = Some v)"
| "clause_holds sq r (DateBetween v w) = (case sq_date sq (rw_timestamp r) of None \<Rightarrow> False | Some d \<Rightarrow> v \<le> d \<and> d \<le> w)"
| "clause_holds sq r (MonthEq v) = (sq_month sq (rw_timestamp r) = Some v)"
| "clause_holds sq r (YearEq v) = (sq_year sq (rw_timestamp r) = Some v)"
| "clause_holds sq r StatusSuccess = (rw_status r = ''success'')"
| "clause_holds sq r (DateBefore v) = (case sq_date sq (rw_timestamp r) of None \<Rightarrow> False | Some d \<Rightarrow> d < v)"

definition select_rows :: "sql_lib \<Rightarrow> clause list \<Rightarrow> log_row list \<Rightarrow> log_row list" where
  "select_rows sq cs rows = filter (\<lambda>r. list_all (clause_holds sq r) cs) rows"

fun joinStrings_loop :: "string \<Rightarrow> nat \<Rightarrow> string list \<Rightarrow> string \<Rightarrow> string" where
  "joinStrings_loop sep i [] result = result"
| "joinStrings_loop sep i (s # ss) result =
     joinStrings_loop sep (Suc i) ss ((if i > 0 then result @ sep else result) @ s)"

definition joinStrings :: "string list \<Rightarrow> string \<Rightarrow> string" where
  "joinStrings ss sep = joinStrings_loop sep 0 ss []"

definition where_text :: "clause list \<Rightarrow> string" where
  "where_text cs = (if cs \<noteq> [] then ''WHERE '' @ joinStrings (map clause_text cs) '' AND '' else [])"

lemma joinStrings_loop_append: "joinStrings_loop sep (Suc i) ss result = result @ concat (map (\<lambda>s. sep @ s) ss)"
  by (induction ss arbitrary: i result) auto

lemma joinStrings_join: "joinStrings ss sep = join sep ss"
proof (cases ss)
  case (Cons s ts)
  have "join sep (s # ts) = s @ concat (map (\<lambda>s. sep @ s) ts)" by (induction ts arbitrary: s) auto
  then show ?thesis by (simp add: joinStrings_def Cons joinStrings_loop_append)
qed (simp add: joinStrings_def)

subsection \<open>Reading the log\<close>

record LogQuery =
  lq_trace_id :: string
  lq_client_id :: string
  lq_provider :: string
  lq_project :: string
  lq_status :: string
  lq_fallback_used :: "bool option"
  lq_date :: string
  lq_from :: string
  lq_to :: string
  lq_limit :: int

record LogEntry =
  le_id :: int
  le_trace_id :: string
  le_timestamp :: string
  le_client_id :: "string option"
  le_client_ip :: "string option"
  le_project :: "string option"
  le_requested_provider :: "string option"
  le_requested_model :: "string option"
  le_actual_provider :: "string option"
  le_actual_model :: "string option"
  le_fallback_used :: bool
  le_status :: string
  le_error_message :: "string option"
  le_input_tokens :: "int option"
  le_output_tokens :: "int option"
  le_cost_usd :: "float64 option"
  le_latency_ms :: "int option"
  le_routing_reason :: "string option"

definition unless_empty :: "string \<Rightarrow> clause \<Rightarrow> clause list" where
  "unless_empty s c = (if s \<noteq> [] then [c] else [])"

definition date_conditions :: "string \<Rightarrow> string \<Rightarrow> string \<Rightarrow> clause list" where
  "date_conditions date from to =
     (if date \<noteq> [] then [DateEq date]
      else if from \<noteq> [] \<and> to \<noteq> [] then [DateBetween from to]
      else [])"

definition log_conditions :: "LogQuery \<Rightarrow> clause list" where
  "log_conditions q =
     unless_empty (lq_trace_id q) (ColEq ''trace_id'' (lq_trace_id q)) @
     unless_empty (lq_client_id q) (ColEq ''client_id'' (lq_client_id q)) @
     unless_empty (lq_provider q) (ProviderEither (lq_provider q)) @
     unless_empty (lq_project q) (ColEq ''project'' (lq_project q)) @
     unless_empty (lq_status q) (ColEq ''status'' (lq_status q)) @
     (case lq_fallback_used q of None \<Rightarrow> [] | Some b \<Rightarrow> [FallbackEq (if b then 1 else 0)]) @
     date_conditions (lq_date q) (lq_from q) (lq_to q)"

definition log_limit :: "LogQuery \<Rightarrow> int" where
  "log_limit q = (if lq_limit q \<le> 0 then 100 else lq_limit q)"

text \<open>The statement, with single spaces where the source has line breaks, and its arguments.\<close>

definition log_query_text :: "LogQuery \<Rightarrow> string" where
  "log_query_text q =
     ''SELECT id, trace_id, timestamp, client_id, client_ip, project, requested_provider, requested_model, '' @
     ''actual_provider, actual_model, fallback_used, status, error_message, input_tokens, output_tokens, '' @
     ''cost_usd, latency_ms, routing_reason FROM request_logs '' @ where_text (log_conditions q) @
     '' ORDER BY id DESC LIMIT '' @ show_int (log_limit q)"

definition log_query_args :: "LogQuery \<Rightarrow> sql_arg list" where
  "log_query_args q = concat (map clause_args (log_conditions q))"

definition log_entry :: "log_row \<Rightarrow> LogEntry" where
  "log_entry r =
     \<lparr>le_id = rw_id r, le_trace_id = rw_trace_id r, le_timestamp = rw_timestamp r,
      le_client_id = rw_client_id r, le_client_ip = rw_client_ip r, le_project = rw_project r,
      le_requested_provider = rw_requested_provider r, le_requested_model = rw_requested_model r,
      le_actual_provider = rw_actual_provider r, le_actual_model = rw_actual_model r,
      le_fallback_used = (rw_fallback_used r = 1), le_status = rw_status r,
      le_error_message = rw_error_message r, le_input_tokens = rw_input_tokens r,
      le_output_tokens = rw_output_tokens r, le_cost_usd = rw_cost_usd r, le_latency_ms = rw_latency_ms r,
      le_routing_reason = rw_routing_reason r\<rparr>"

definition log_query :: "sql_lib \<Rightarrow> error_text option \<Rightarrow> LogQuery \<Rightarrow> logs_table \<Rightarrow> error_text + LogEntry list" where
  "log_query sq fail q t =
     (case fail of
        Some e \<Rightarrow> Inl ((bytes [235, 161, 156, 234, 183, 184, 32, 236, 161, 176, 237, 154, 140, 32, 236, 139, 164, 237, 140, 168, 58, 32]) @ e)
      | None \<Rightarrow> Inr (map log_entry (take (nat (log_limit q))
          (rev (sort_key rw_id (select_rows sq (log_conditions q) (lt_rows t)))))))"

subsection \<open>Grouping\<close>

text \<open>\<^verbatim>\<open>GROUP BY\<close>: the groups in the order of their keys.\<close>

definition group_keys :: "('a \<Rightarrow> 'k :: linorder) \<Rightarrow> 'a list \<Rightarrow> 'k list" where
  "group_keys g rows = sort (remdups (map g rows))"

definition group_of :: "('a \<Rightarrow> 'k) \<Rightarrow> 'a list \<Rightarrow> 'k \<Rightarrow> 'a list" where
  "group_of g rows k = filter (\<lambda>r. g r = k) rows"

definition sum_column :: "('a \<Rightarrow> int option) \<Rightarrow> 'a list \<Rightarrow> int" where
  "sum_column f rows = sum_list (map (\<lambda>r. case f r of None \<Rightarrow> 0 | Some n \<Rightarrow> n) rows)"

definition sum_cost :: "sql_lib \<Rightarrow> log_row list \<Rightarrow> float64" where
  "sum_cost sq rows = sq_sum sq (List.map_filter rw_cost_usd rows)"

text \<open>Every row is in exactly one group, so sums over the groups add up.\<close>

lemma sum_over_groups:
  fixes f :: "'a \<Rightarrow> 'b :: comm_monoid_add"
  shows "(\<Sum>k\<leftarrow>group_keys g rows. \<Sum>r\<leftarrow>group_of g rows k. f r) = (\<Sum>r\<leftarrow>rows. f r)"
proof -
  have "(\<Sum>k\<leftarrow>ks. \<Sum>r\<leftarrow>group_of g rows k. f r) = (\<Sum>r\<leftarrow>rows. f r)"
    if "distinct ks" "set (map g rows) \<subseteq> set ks" for ks
    using that
  proof (induction rows)
    case Nil
    then show ?case by (simp add: group_of_def)
  next
    case (Cons r rows)
    have "(\<Sum>k\<leftarrow>ks. \<Sum>x\<leftarrow>group_of g (r # rows) k. f x) =
        (\<Sum>k\<leftarrow>ks. (if g r = k then f r else 0) + (\<Sum>x\<leftarrow>group_of g rows k. f x))"
      by (rule arg_cong [where f = sum_list], rule map_cong) (auto simp: group_of_def)
    also have "\<dots> = (\<Sum>k\<leftarrow>ks. if g r = k then f r else 0) + (\<Sum>k\<leftarrow>ks. \<Sum>x\<leftarrow>group_of g rows k. f x)"
      by (rule sum_list_addf)
    also have "(\<Sum>k\<leftarrow>ks. if g r = k then f r else 0) = f r"
      using Cons.prems by (simp add: sum_list_distinct_conv_sum_set)
    finally show ?case using Cons by simp
  qed
  then show ?thesis by (simp add: group_keys_def)
qed

lemma sum_column_groups: "(\<Sum>k\<leftarrow>group_keys g rows. sum_column f (group_of g rows k)) = sum_column f rows"
  unfolding sum_column_def by (rule sum_over_groups)

lemma count_groups: "(\<Sum>k\<leftarrow>group_keys g rows. length (group_of g rows k)) = length rows"
  using sum_over_groups [where f = "\<lambda>_. 1 :: nat" and g = g and rows = rows] by (simp add: sum_list_triv)

subsection \<open>Statistics\<close>

record LogStatsQuery =
  sq_group_by :: string
  sq_q_date :: string
  sq_q_from :: string
  sq_q_to :: string

record LogStatsEntry =
  st_group_key :: string
  st_requests :: int
  st_errors :: int
  st_avg_latency_ms :: float64
  st_input_tokens :: int
  st_output_tokens :: int
  st_cost_usd :: float64

definition mapStatsGroupBy :: "string \<Rightarrow> string" where
  "mapStatsGroupBy groupBy =
     (if groupBy = ''provider'' \<or> groupBy = ''actual_provider'' then ''actual_provider''
      else if groupBy = ''model'' \<or> groupBy = ''actual_model'' then ''actual_model''
      else if groupBy = ''project'' then ''project''
      else if groupBy = ''client_id'' then ''client_id''
      else if groupBy = ''status'' then ''status''
      else [])"

definition stats_query_text :: "LogStatsQuery \<Rightarrow> string" where
  "stats_query_text q =
     (let groupCol = mapStatsGroupBy (sq_group_by q) in
      ''SELECT '' @ groupCol @ '', COUNT(*), SUM(CASE WHEN status = '' @ bytes [39] @ ''error'' @ bytes [39] @
      '' THEN 1 ELSE 0 END), COALESCE(AVG(latency_ms), 0), COALESCE(SUM(input_tokens), 0), '' @
      ''COALESCE(SUM(output_tokens), 0), COALESCE(SUM(cost_usd), 0) FROM request_logs '' @
      where_text (date_conditions (sq_q_date q) (sq_q_from q) (sq_q_to q)) @
      '' GROUP BY '' @ groupCol @ '' ORDER BY COUNT(*) DESC'')"

text \<open>A NULL group cannot be scanned into a string; ties of the counts are listed by descending key.\<close>

definition null_scan_error :: error_text where
  "null_scan_error = ''sql: Scan error on column index 0: converting NULL to string is unsupported''"

definition stats_entry :: "sql_lib \<Rightarrow> log_row list \<Rightarrow> string \<Rightarrow> LogStatsEntry" where
  "stats_entry sq rows k =
     \<lparr>st_group_key = k, st_requests = int (length rows),
      st_errors = sum_list (map (\<lambda>r. if rw_status r = ''error'' then 1 else 0) rows),
      st_avg_latency_ms = sq_avg sq (List.map_filter rw_latency_ms rows),
      st_input_tokens = sum_column rw_input_tokens rows, st_output_tokens = sum_column rw_output_tokens rows,
      st_cost_usd = sum_cost sq rows\<rparr>"

definition log_stats :: "sql_lib \<Rightarrow> error_text option \<Rightarrow> LogStatsQuery \<Rightarrow> logs_table \<Rightarrow> error_text + LogStatsEntry list" where
  "log_stats sq fail q t =
     (let groupCol = mapStatsGroupBy (sq_group_by q) in
      if groupCol = [] then Inl ((bytes [236, 156, 160, 237, 154, 168, 237, 149, 152, 236, 167, 128, 32, 236, 149, 138, 236, 157, 128, 32, 103, 114, 111, 117, 112, 95, 98, 121, 58, 32]) @ sq_group_by q)
      else (case fail of
              Some e \<Rightarrow> Inl ((bytes [237, 134, 181, 234, 179, 132, 32, 236, 161, 176, 237, 154, 140, 32, 236, 139, 164, 237, 140, 168, 58, 32]) @ e)
            | None \<Rightarrow>
                (let rows = select_rows sq (date_conditions (sq_q_date q) (sq_q_from q) (sq_q_to q)) (lt_rows t)
                 in if None \<in> set (map (column groupCol) rows) then Inl null_scan_error
                    else Inr (rev (sort_key st_requests
                       (map (\<lambda>k. stats_entry sq (group_of (\<lambda>r. the (column groupCol r)) rows k) k)
                         (group_keys (\<lambda>r. the (column groupCol r)) rows)))))))"

subsection \<open>Facts\<close>

definition logs_ok :: "logs_table \<Rightarrow> bool" where
  "logs_ok t \<longleftrightarrow> sorted_wrt (\<lambda>a b. rw_id a < rw_id b) (lt_rows t) \<and> (\<forall>r \<in> set (lt_rows t). rw_id r < lt_next_id t) \<and>
     distinct (map rw_trace_id (lt_rows t))"

lemma log_insert_ok: "logs_ok t \<Longrightarrow> logs_ok (snd (log_insert lj tf fail now l t))"
  by (auto simp: log_insert_def logs_ok_def Let_def log_row_of_def sorted_wrt_append less_Suc_eq split: option.split)

lemma insert_all_ok: "logs_ok t \<Longrightarrow> logs_ok (insert_all lj tf xs t)"
  unfolding insert_all_def by (rule foldl_invariant) (auto simp: log_insert_ok split: prod.split)

lemma sort_key_sorted: "sorted_wrt (\<lambda>a b. f a < f b) xs \<Longrightarrow> sort_key f xs = xs"
  by (metis sort_key_id_if_sorted sorted_wrt_map sorted_wrt_mono_rel less_imp_le)

text \<open>
  The log query answers with the newest matching rows: those that satisfy every given condition, last
  inserted first, and as many of them as the limit allows.  The invariant of the table it needs is kept by
  every insertion.
\<close>

theorem log_query_newest_first:
  assumes "logs_ok t"
  shows "log_query sq None q t =
      Inr (map log_entry (take (nat (log_limit q)) (rev (filter (\<lambda>r. list_all (clause_holds sq r) (log_conditions q)) (lt_rows t))))) \<and>
    logs_ok (snd (log_insert lj tf fail now l t))"
proof -
  have "sorted_wrt (\<lambda>a b. rw_id a < rw_id b) (filter P (lt_rows t))" for P
    using assms by (simp add: logs_ok_def sorted_wrt_filter)
  then show ?thesis
    using log_insert_ok [OF assms] by (simp add: log_query_def select_rows_def sort_key_sorted)
qed

definition sample_row_log :: "int \<Rightarrow> string \<Rightarrow> log_row" where
  "sample_row_log i tid = log_row_of sample_log_json i ''2026-01-01T00:00:00Z'' (sample_log tid)"

definition two_logs :: logs_table where
  "two_logs = \<lparr>lt_rows = [sample_row_log 1 ''a'', sample_row_log 2 ''b''], lt_next_id = 3\<rparr>"

lemma two_logs_ok: "logs_ok two_logs"
  by (simp add: logs_ok_def two_logs_def sample_row_log_def log_row_of_def sample_log_def)

definition sample_sql :: sql_lib where
  "sample_sql = \<lparr>sq_date = (\<lambda>t. Some (take 10 t)), sq_month = (\<lambda>t. Some (take 7 t)), sq_year = (\<lambda>t. Some (take 4 t)),
     sq_sum = sum_list, sq_avg = (\<lambda>ns. if ns = [] then 0 else of_int (sum_list ns) / of_nat (length ns))\<rparr>"

definition one_log :: LogQuery where
  "one_log = \<lparr>lq_trace_id = [], lq_client_id = ''app'', lq_provider = [], lq_project = [], lq_status = [],
     lq_fallback_used = None, lq_date = ''2026-01-01'', lq_from = [], lq_to = [], lq_limit = 1\<rparr>"

theorem log_query_newest_first_witness:
  "log_query sample_sql None one_log two_logs = Inr [log_entry (sample_row_log 2 ''b'')]"
proof -
  have "filter (\<lambda>r. list_all (clause_holds sample_sql r) (log_conditions one_log)) (lt_rows two_logs) =
      [sample_row_log 1 ''a'', sample_row_log 2 ''b'']"
    by (simp add: two_logs_def one_log_def log_conditions_def unless_empty_def date_conditions_def column_def
        sample_sql_def sample_row_log_def log_row_of_def sample_log_def)
  then show ?thesis
    using log_query_newest_first [OF two_logs_ok, of sample_sql one_log]
    by (simp add: log_limit_def one_log_def)
qed

text \<open>The text of a query has one placeholder for each argument, and no value of the request in it.\<close>

definition blank :: "string \<Rightarrow> string" where
  "blank s = (if s = [] then [] else ''x'')"

definition blank_query :: "LogQuery \<Rightarrow> LogQuery" where
  "blank_query q = q\<lparr>lq_trace_id := blank (lq_trace_id q), lq_client_id := blank (lq_client_id q),
     lq_provider := blank (lq_provider q), lq_project := blank (lq_project q), lq_status := blank (lq_status q),
     lq_fallback_used := map_option (\<lambda>_. True) (lq_fallback_used q), lq_date := blank (lq_date q),
     lq_from := blank (lq_from q), lq_to := blank (lq_to q)\<rparr>"

lemma blank_Nil [simp]: "blank s = [] \<longleftrightarrow> s = []" "blank [] = []"
  by (simp_all add: blank_def)

lemma digit_no_placeholder: "m < 10 \<Longrightarrow> char_of (48 + m) \<noteq> CHR ''?''" for m :: nat
  by (auto dest!: arg_cong [where f = "of_char :: char \<Rightarrow> nat"] simp: of_char_of)

lemma show_nat_digits: "CHR ''?'' \<notin> set (show_nat n)"
proof (induction n rule: less_induct)
  case (less n)
  show ?case
  proof (cases "n < 10")
    case True
    then show ?thesis using digit_no_placeholder [OF True] by (subst show_nat.simps) auto
  next
    case False
    then have "CHR ''?'' \<notin> set (show_nat (n div 10))" by (intro less.IH) simp
    moreover have "char_of (48 + n mod 10) \<noteq> CHR ''?''" by (rule digit_no_placeholder) simp
    ultimately show ?thesis using False by (subst show_nat.simps) auto
  qed
qed

lemma count_show_int [simp]: "count_list (show_int i) CHR ''?'' = 0"
  using show_nat_digits by (auto simp: show_int_def count_list_0_iff)

lemma count_joined:
  "count_list sep CHR ''?'' = 0 \<Longrightarrow>
   count_list (join sep (map clause_text cs)) CHR ''?'' = (\<Sum>c\<leftarrow>cs. count_list (clause_text c) CHR ''?'')"
  by (induction cs rule: induct_list012) auto

definition plain_columns :: "clause list \<Rightarrow> bool" where
  "plain_columns cs \<longleftrightarrow> (\<forall>c v. ColEq c v \<in> set cs \<longrightarrow> CHR ''?'' \<notin> set c)"

lemma quote_mark_no_placeholder [simp]: "char_of (39 :: nat) \<noteq> CHR ''?''"
  by (auto dest!: arg_cong [where f = "of_char :: char \<Rightarrow> nat"] simp: of_char_of)

lemma clause_placeholders: "plain_columns [c] \<Longrightarrow> count_list (clause_text c) CHR ''?'' = length (clause_args c)"
  by (cases c) (auto simp: plain_columns_def bytes_def count_list_0_iff)

lemma where_placeholders:
  "plain_columns cs \<Longrightarrow> count_list (where_text cs) CHR ''?'' = length (concat (map clause_args cs))"
proof -
  assume p: "plain_columns cs"
  have "(\<Sum>c\<leftarrow>cs. count_list (clause_text c) CHR ''?'') = (\<Sum>c\<leftarrow>cs. length (clause_args c))"
  proof (rule arg_cong [where f = sum_list], rule map_cong [OF refl])
    fix c assume "c \<in> set cs"
    then have "plain_columns [c]" using p by (cases c) (auto simp: plain_columns_def)
    then show "count_list (clause_text c) CHR ''?'' = length (clause_args c)" by (rule clause_placeholders)
  qed
  then show ?thesis by (simp add: where_text_def joinStrings_join count_joined length_concat comp_def)
qed

lemma log_conditions_plain: "plain_columns (log_conditions q)"
  by (auto simp: plain_columns_def log_conditions_def unless_empty_def date_conditions_def split: option.splits if_splits)

lemma log_conditions_blank: "map clause_text (log_conditions (blank_query q)) = map clause_text (log_conditions q)"
  by (auto simp: log_conditions_def blank_query_def unless_empty_def date_conditions_def split: option.split)

text \<open>
  Log queries are parameterised: the SQL text has exactly one placeholder for each argument, and it is the
  text of the query in which every given value is replaced by a constant, so nothing a request supplies
  but the numeric limit reaches the text.
\<close>

theorem log_query_is_parameterised:
  "count_list (log_query_text q) CHR ''?'' = length (log_query_args q) \<and>
   log_query_text q = log_query_text (blank_query q)"
proof
  show "count_list (log_query_text q) CHR ''?'' = length (log_query_args q)"
    using where_placeholders [OF log_conditions_plain, of q] by (simp add: log_query_text_def log_query_args_def)
  have "where_text (log_conditions (blank_query q)) = where_text (log_conditions q)"
    using log_conditions_blank [of q] unfolding where_text_def by (metis map_is_Nil_conv)
  then show "log_query_text q = log_query_text (blank_query q)"
    by (simp add: log_query_text_def log_limit_def blank_query_def)
qed

lemma count_groups_int: "(\<Sum>k\<leftarrow>group_keys g rows. int (length (group_of g rows k))) = int (length rows)"
  using sum_over_groups [where f = "\<lambda>_. 1 :: int" and g = g and rows = rows] by (simp add: sum_list_triv)

lemma sum_list_rev_sort: "sum_list (map f (rev (sort_key k xs))) = sum_list (map f xs)"
  for f :: "'a \<Rightarrow> 'b :: comm_monoid_add"
  by (metis mset_map mset_rev mset_sort sum_mset_sum_list)

text \<open>
  Statistics add up: when \<^verbatim>\<open>Stats\<close> answers, the requests of its groups sum up to the number of selected
  rows and the tokens to theirs, each group has a key of its own, and no group has more errors than requests.
\<close>

theorem stats_add_up:
  assumes "log_stats sq fail q t = Inr es"
  shows "(let rows = select_rows sq (date_conditions (sq_q_date q) (sq_q_from q) (sq_q_to q)) (lt_rows t) in
    (\<Sum>e\<leftarrow>es. st_requests e) = int (length rows) \<and>
    (\<Sum>e\<leftarrow>es. st_input_tokens e) = sum_column rw_input_tokens rows \<and>
    (\<Sum>e\<leftarrow>es. st_output_tokens e) = sum_column rw_output_tokens rows) \<and>
    distinct (map st_group_key es) \<and> (\<forall>e \<in> set es. 0 \<le> st_errors e \<and> st_errors e \<le> st_requests e)"
proof -
  define g where "g = (\<lambda>r. the (column (mapStatsGroupBy (sq_group_by q)) r))"
  define rows where "rows = select_rows sq (date_conditions (sq_q_date q) (sq_q_from q) (sq_q_to q)) (lt_rows t)"
  define gs where "gs = map (\<lambda>k. stats_entry sq (group_of g rows k) k) (group_keys g rows)"
  have es: "es = rev (sort_key st_requests gs)"
    using assms by (auto simp: log_stats_def Let_def g_def rows_def gs_def split: if_splits option.splits)
  have "(\<Sum>e\<leftarrow>gs. st_requests e) = int (length rows)"
    using count_groups_int [of g rows] by (simp add: gs_def stats_entry_def comp_def)
  moreover have "(\<Sum>e\<leftarrow>gs. st_input_tokens e) = sum_column rw_input_tokens rows"
    "(\<Sum>e\<leftarrow>gs. st_output_tokens e) = sum_column rw_output_tokens rows"
    using sum_column_groups [of _ g rows] by (simp_all add: gs_def stats_entry_def comp_def)
  moreover have "distinct (map st_group_key es)"
  proof -
    have "map st_group_key gs = group_keys g rows" by (simp add: gs_def stats_entry_def comp_def)
    then have "distinct (map st_group_key gs)" by (simp add: group_keys_def)
    then show ?thesis by (simp add: es rev_map [symmetric] distinct_map)
  qed
  moreover have "0 \<le> st_errors e \<and> st_errors e \<le> st_requests e" if "e \<in> set es" for e
  proof -
    have "0 \<le> (\<Sum>r\<leftarrow>rs. if rw_status r = ''error'' then 1 else 0 :: int) \<and>
        (\<Sum>r\<leftarrow>rs. if rw_status r = ''error'' then 1 else 0) \<le> int (length rs)" for rs :: "log_row list"
      by (induction rs) auto
    then show ?thesis using that by (auto simp: es gs_def stats_entry_def)
  qed
  ultimately show ?thesis unfolding rows_def [symmetric] by (simp add: es sum_list_rev_sort Let_def)
qed

theorem stats_add_up_witness:
  "\<exists>es. log_stats sample_sql None \<lparr>sq_group_by = ''provider'', sq_q_date = [], sq_q_from = [], sq_q_to = []\<rparr> two_logs = Inr es \<and>
    (\<Sum>e\<leftarrow>es. st_requests e) = 2 \<and> (\<Sum>e\<leftarrow>es. st_input_tokens e) = 20"
proof -
  let ?q = "\<lparr>sq_group_by = ''provider'', sq_q_date = [], sq_q_from = [], sq_q_to = []\<rparr>"
  obtain es where es: "log_stats sample_sql None ?q two_logs = Inr es"
    by (simp add: log_stats_def mapStatsGroupBy_def Let_def date_conditions_def select_rows_def two_logs_def column_def
        sample_row_log_def log_row_of_def sample_log_def)
  show ?thesis
    using stats_add_up [OF es] es
    by (simp add: Let_def date_conditions_def select_rows_def sum_column_def two_logs_def sample_row_log_def log_row_of_def sample_log_def)
qed

end
