(* ===== verification/Middleware.thy ===== *)
theory Middleware
  imports Http Services Config
begin

text \<open>
  \<^verbatim>\<open>internal/middleware\<close>; theory \<open>Server\<close> puts it in order and registers the routes.  A middleware gets the
  request context and either hands it on or ends the request with a response.
  Address parsing (\<^verbatim>\<open>net\<close>), the GCRA limiter and identifiers are arguments.  The validator of client keys is
  an interface of the source, and a locale here.
\<close>

datatype mw_result = Next gin | Abort http_response gin

subsection \<open>Trusted networks\<close>

record ('ip, 'net) net_lib =
  nl_parse_ip :: "string \<Rightarrow> 'ip option"
  nl_parse_cidr :: "string \<Rightarrow> error_text + 'net"
  nl_contains :: "'net \<Rightarrow> 'ip \<Rightarrow> bool"

fun ParseCIDRs :: "('ip, 'net) net_lib \<Rightarrow> string list \<Rightarrow> 'net list" where
  "ParseCIDRs nl [] = []"
| "ParseCIDRs nl (cidr # cidrs) =
     (case nl_parse_cidr nl cidr of
        Inl err \<Rightarrow> ParseCIDRs nl cidrs
      | Inr ipNet \<Rightarrow> ipNet # ParseCIDRs nl cidrs)"

fun any_contains :: "('ip, 'net) net_lib \<Rightarrow> 'net list \<Rightarrow> 'ip \<Rightarrow> bool" where
  "any_contains nl [] ip = False"
| "any_contains nl (n # ns) ip = (if nl_contains nl n ip then True else any_contains nl ns ip)"

definition in_trusted_net :: "('ip, 'net) net_lib \<Rightarrow> string list \<Rightarrow> string \<Rightarrow> bool" where
  "in_trusted_net nl cidrs ip =
     (case nl_parse_ip nl ip of
        None \<Rightarrow> False
      | Some clientIP \<Rightarrow> any_contains nl (ParseCIDRs nl cidrs) clientIP)"

definition GetClientID :: "gin \<Rightarrow> string" where
  "GetClientID c = (case gn_client_id c of Some s \<Rightarrow> s | None \<Rightarrow> [])"

definition IsTrustedNet :: "gin \<Rightarrow> bool" where
  "IsTrustedNet c = (case gn_trusted c of Some b \<Rightarrow> b | None \<Rightarrow> False)"

definition GetTraceID :: "gin \<Rightarrow> string" where
  "GetTraceID c = (case gn_trace_id c of Some s \<Rightarrow> s | None \<Rightarrow> [])"

definition TrustedNetworkOnly :: "('ip, 'net) net_lib \<Rightarrow> string list \<Rightarrow> gin \<Rightarrow> mw_result" where
  "TrustedNetworkOnly nl cidrs c =
     (if in_trusted_net nl cidrs (gn_client_ip c) then Next c
      else Abort (error_response 403 (bytes [234, 180, 128, 235, 166, 172, 32, 65, 80, 73, 235, 138, 148, 32, 236, 139, 160, 235, 162, 176, 32, 235, 132, 164, 237, 138, 184, 236, 155, 140, 237, 129, 172, 236, 151, 144, 236, 132, 156, 235, 167, 140, 32, 236, 160, 145, 234, 183, 188, 237, 149, 160, 32, 236, 136, 152, 32, 236, 158, 136, 236, 138, 181, 235, 139, 136, 235, 139, 164])) c)"

subsection \<open>Client keys\<close>

record ValidatedKey =
  vk_client_id :: string
  vk_service_name :: string
  vk_expires_at :: go_time

text \<open>
  The interface \<^verbatim>\<open>ClientKeyValidator\<close>: what a validator must promise for the middleware to be sound.
  \<open>genuine s clientID secret k\<close> says that in state \<open>s\<close> the pair is good for the key \<open>k\<close>.
\<close>

locale key_validator =
  fixes validate :: "'s \<Rightarrow> string \<Rightarrow> string \<Rightarrow> (error_text + ValidatedKey) \<times> 's"
    and invar :: "'s \<Rightarrow> bool"
    and genuine :: "'s \<Rightarrow> string \<Rightarrow> string \<Rightarrow> ValidatedKey \<Rightarrow> bool"
  assumes sound: "invar s \<Longrightarrow> validate s clientID secret = (Inr k, s') \<Longrightarrow> genuine s clientID secret k"
    and keeps: "invar s \<Longrightarrow> validate s clientID secret = (r, s') \<Longrightarrow> invar s'"
    and genuine_id: "genuine s clientID secret k \<Longrightarrow> vk_client_id k = clientID"

definition accept_key ::
  "time_format \<Rightarrow> (duration \<Rightarrow> string) \<Rightarrow> go_time \<Rightarrow> ValidatedKey \<Rightarrow> gin \<Rightarrow> gin" where
  "accept_key tf fmt_seconds now k c =
     set_out_header ''X-Key-Expires-In'' (fmt_seconds (vk_expires_at k - now))
       (set_out_header ''X-Key-Expires-At'' (tf_format tf (vk_expires_at k))
         (c\<lparr>gn_client_id := Some (vk_client_id k), gn_service_name := Some (vk_service_name k)\<rparr>))"

definition trust_client :: "gin \<Rightarrow> gin" where
  "trust_client c =
     (let cid = gn_header c ''X-Client-ID''
      in c\<lparr>gn_trusted := Some True,
           gn_client_id := Some (if cid \<noteq> [] then cid else ''trusted-'' @ gn_client_ip c)\<rparr>)"

text \<open>\<open>validator\<close> is \<^const>\<open>None\<close> when no validator is configured.\<close>

definition Auth ::
  "('ip, 'net) net_lib \<Rightarrow> time_format \<Rightarrow> (duration \<Rightarrow> string) \<Rightarrow> string list
   \<Rightarrow> ('s \<Rightarrow> string \<Rightarrow> string \<Rightarrow> (error_text + ValidatedKey) \<times> 's) option
   \<Rightarrow> go_time \<Rightarrow> gin \<Rightarrow> 's \<Rightarrow> mw_result \<times> 's" where
  "Auth nl tf fmt_seconds cidrs validator now c s =
     (if in_trusted_net nl cidrs (gn_client_ip c) then (Next (trust_client c), s)
      else
        (let clientID = gn_header c ''X-Client-ID''; clientSecret = gn_header c ''X-Client-Secret'' in
         if clientID = [] \<or> clientSecret = []
         then (Abort (error_response 401 (bytes [88, 45, 67, 108, 105, 101, 110, 116, 45, 73, 68, 236, 153, 128, 32, 88, 45, 67, 108, 105, 101, 110, 116, 45, 83, 101, 99, 114, 101, 116, 32, 237, 151, 164, 235, 141, 148, 234, 176, 128, 32, 237, 149, 132, 236, 154, 148, 237, 149, 169, 235, 139, 136, 235, 139, 164])) c, s)
         else
           (case validator of
              None \<Rightarrow> (Abort (error_response 401 (bytes [237, 129, 180, 235, 157, 188, 236, 157, 180, 236, 150, 184, 237, 138, 184, 32, 237, 130, 164, 32, 234, 178, 128, 236, 166, 157, 236, 157, 180, 32, 236, 132, 164, 236, 160, 149, 235, 144, 152, 236, 167, 128, 32, 236, 149, 138, 236, 149, 152, 236, 138, 181, 235, 139, 136, 235, 139, 164])) c, s)
            | Some validate \<Rightarrow>
                (case validate s clientID clientSecret of
                   (Inl err, s') \<Rightarrow> (Abort (error_response 401 (bytes [236, 157, 184, 236, 166, 157, 32, 236, 139, 164, 237, 140, 168])) c, s')
                 | (Inr k, s') \<Rightarrow> (Next (accept_key tf fmt_seconds now k c), s')))))"

lemma accept_key_simps [simp]:
  "gn_client_id (accept_key tf f now k c) = Some (vk_client_id k)"
  "gn_service_name (accept_key tf f now k c) = Some (vk_service_name k)"
  "gn_trusted (accept_key tf f now k c) = gn_trusted c"
  "gn_client_ip (accept_key tf f now k c) = gn_client_ip c"
  by (simp_all add: accept_key_def set_out_header_def)

context key_validator
begin

text \<open>
  A request that gets past \<open>Auth\<close> comes from a trusted network, or carries a pair that is good and has the
  client id of that pair.
\<close>

lemma auth_admits:
  assumes "invar s" and "Auth nl tf f cidrs (Some validate) now c s = (Next c', s')"
  shows "(in_trusted_net nl cidrs (gn_client_ip c) \<and> IsTrustedNet c') \<or>
    (\<exists>k. genuine s (gn_header c ''X-Client-ID'') (gn_header c ''X-Client-Secret'') k \<and>
       GetClientID c' = gn_header c ''X-Client-ID'' \<and> gn_service_name c' = Some (vk_service_name k))"
proof (cases "in_trusted_net nl cidrs (gn_client_ip c)")
  case True
  then show ?thesis using assms(2) by (auto simp: Auth_def trust_client_def IsTrustedNet_def Let_def)
next
  case False
  then obtain k where k: "validate s (gn_header c ''X-Client-ID'') (gn_header c ''X-Client-Secret'') = (Inr k, s')"
    and c': "c' = accept_key tf f now k c"
    using assms(2) by (auto simp: Auth_def Let_def split: if_splits prod.splits sum.splits)
  have "genuine s (gn_header c ''X-Client-ID'') (gn_header c ''X-Client-Secret'') k"
    by (rule sound [OF assms(1) k])
  then show ?thesis using genuine_id c' by (auto simp: GetClientID_def)
qed

lemma auth_keeps: "invar s \<Longrightarrow> Auth nl tf f cidrs (Some validate) now c s = (r, s') \<Longrightarrow> invar s'"
  using keeps by (auto simp: Auth_def Let_def split: if_splits prod.splits sum.splits)

end

subsection \<open>Rate limiting\<close>

record rate_result =
  rr_allowed :: int
  rr_remaining :: int
  rr_retry_after :: duration
  rr_reset_after :: duration

text \<open>
  \<open>allow key rpm s\<close> is the limiter's decision; \<open>fmt_seconds\<close> prints a duration in seconds without a
  fraction and \<open>seconds\<close> is \<^verbatim>\<open>Duration.Seconds\<close>.
\<close>

definition rate_key :: "gin \<Rightarrow> string" where
  "rate_key c =
     (let clientID = GetClientID c
      in ''ezai:ratelimit:'' @ (if clientID = [] then gn_client_ip c else clientID))"

definition RateLimit ::
  "(duration \<Rightarrow> string) \<Rightarrow> (duration \<Rightarrow> rat) \<Rightarrow> (string \<Rightarrow> int \<Rightarrow> 's \<Rightarrow> (error_text + rate_result) \<times> 's)
   \<Rightarrow> int \<Rightarrow> gin \<Rightarrow> 's \<Rightarrow> mw_result \<times> 's" where
  "RateLimit fmt_seconds seconds allow requestsPerMinute c s =
     (let rpm = (if requestsPerMinute \<le> 0 then 60 else requestsPerMinute) in
      case allow (rate_key c) rpm s of
        (Inl err, s') \<Rightarrow> (Next c, s')
      | (Inr res, s') \<Rightarrow>
          (let c' = set_out_header ''X-RateLimit-Reset'' (fmt_seconds (rr_reset_after res))
                     (set_out_header ''X-RateLimit-Remaining'' (show_int (rr_remaining res))
                       (set_out_header ''X-RateLimit-Limit'' (show_int rpm) c))
           in if rr_allowed res = 0
              then (Abort \<lparr>rs_status = 429,
                      rs_body = JObj [(''error'', JStr (bytes [236, 154, 148, 236, 178, 173, 32, 236, 160, 156, 237, 149, 156, 32, 236, 180, 136, 234, 179, 188])),
                                      (''retry_after'', JFloat (seconds (rr_retry_after res)))]\<rparr>
                      (set_out_header ''Retry-After'' (fmt_seconds (rr_retry_after res)) c'), s')
              else (Next c', s')))"

subsection \<open>Request ids\<close>

definition RequestID :: "string \<Rightarrow> string \<Rightarrow> gin \<Rightarrow> mw_result" where
  "RequestID stamp uuid c =
     (let traceID = ''tr_'' @ stamp @ ''_'' @ uuid
      in Next (set_out_header ''X-Trace-ID'' traceID (c\<lparr>gn_trace_id := Some traceID\<rparr>)))"

subsection \<open>Recovery\<close>

text \<open>
  A handler ends with what it has written or panics; \<open>written\<close> says whether the header has been sent.
\<close>

datatype 'a outcome = Done 'a | Panicked bool

definition Recovery :: "string \<Rightarrow> http_response outcome \<Rightarrow> http_response option" where
  "Recovery traceID out =
     (case out of
        Done r \<Rightarrow> Some r
      | Panicked written \<Rightarrow>
          if written then None
          else Some \<lparr>rs_status = 500,
                 rs_body = JObj [(''error'', JStr ''Internal Server Error''), (''trace_id'', JStr traceID)]\<rparr>)"

end
