(* ===== verification/Pricing.thy ===== *)
theory Pricing
  imports Config "HOL-Library.List_Lexorder" "HOL-Library.Char_ord"
begin

text \<open>
  \<^verbatim>\<open>internal/config/pricing.go\<close>: the price table and the cost of a call.  A \<^verbatim>\<open>range\<close> over the table visits
  its entries in an order the language does not fix, so it is a fold over an argument \<open>order\<close>, any
  enumeration of the table's keys.  Every \<^verbatim>\<open>float64\<close> operation rounds its exact result with the
  argument \<open>fl\<close>.
\<close>

record ModelPricing =
  mp_input_per_1m :: float64
  mp_output_per_1m :: float64
  mp_currency :: string
  mp_updated_at :: string

type_synonym price_table = "string \<rightharpoonup> ModelPricing"

record PricingManager =
  pm_pricing :: price_table

definition NewPricingManager ::
  "read_file \<Rightarrow> (string \<Rightarrow> error_text + price_table) \<Rightarrow> string \<Rightarrow> error_text + PricingManager" where
  "NewPricingManager readf unmarshal configDir =
     (case readf (path_join [configDir, ''pricing.yaml'']) of
        Inl err \<Rightarrow> Inl (bytes [234, 176, 128, 234, 178, 169, 32, 237, 133, 140, 236, 157, 180, 235, 184, 148, 32, 236, 157, 189, 234, 184, 176, 32, 236, 139, 164, 237, 140, 168, 58, 32] @ err)
      | Inr data \<Rightarrow>
         (case unmarshal data of
            Inl err \<Rightarrow> Inl (bytes [234, 176, 128, 234, 178, 169, 32, 237, 133, 140, 236, 157, 180, 235, 184, 148, 32, 237, 140, 140, 236, 139, 177, 32, 236, 139, 164, 237, 140, 168, 58, 32] @ err)
          | Inr table \<Rightarrow> Inr \<lparr>pm_pricing = table\<rparr>))"

text \<open>
  The two matching loops keep the best entry so far and its length.  \<open>match_loop key\<close> is their common
  body: \<open>key name\<close> is the text to be compared with the model name, or \<open>None\<close> to skip the entry.
\<close>

type_synonym match_state = "ModelPricing option \<times> nat"

definition match_step ::
  "(string \<Rightarrow> string option) \<Rightarrow> price_table \<Rightarrow> string \<Rightarrow> match_state \<Rightarrow> string \<Rightarrow> match_state" where
  "match_step key table modelName st name =
     (case table name of
        None \<Rightarrow> st
      | Some p \<Rightarrow>
         (case key name of
            None \<Rightarrow> st
          | Some k \<Rightarrow> if has_prefix modelName k \<and> length k > snd st then (Some p, length k) else st))"

definition match_loop ::
  "(string \<Rightarrow> string option) \<Rightarrow> price_table \<Rightarrow> string list \<Rightarrow> string \<Rightarrow> ModelPricing option" where
  "match_loop key table order modelName = fst (foldl (match_step key table modelName) (None, 0) order)"

definition wildcard_key :: "string \<Rightarrow> string option" where
  "wildcard_key pattern =
     (if has_suffix pattern ''/*'' then Some (trim_suffix pattern ''/*'') else None)"

definition find_pricing :: "PricingManager \<Rightarrow> string list \<Rightarrow> string list \<Rightarrow> string \<Rightarrow> ModelPricing option" where
  "find_pricing pm order1 order2 modelName =
     (case pm_pricing pm modelName of
        Some p \<Rightarrow> Some p
      | None \<Rightarrow>
         (case match_loop Some (pm_pricing pm) order1 modelName of
            Some p \<Rightarrow> Some p
          | None \<Rightarrow> match_loop wildcard_key (pm_pricing pm) order2 modelName))"

definition token_cost :: "(rat \<Rightarrow> rat) \<Rightarrow> int \<Rightarrow> float64 \<Rightarrow> float64" where
  "token_cost fl tokens price = fl (fl (fl (of_int tokens) / 1000000) * price)"

definition Calculate ::
  "(rat \<Rightarrow> rat) \<Rightarrow> PricingManager \<Rightarrow> string list \<Rightarrow> string list \<Rightarrow> string \<Rightarrow> int \<Rightarrow> int \<Rightarrow> float64" where
  "Calculate fl pm order1 order2 modelName inputTokens outputTokens =
     (case find_pricing pm order1 order2 modelName of
        None \<Rightarrow> 0
      | Some p \<Rightarrow> fl (token_cost fl inputTokens (mp_input_per_1m p) +
                     token_cost fl outputTokens (mp_output_per_1m p)))"

definition GetPricing :: "PricingManager \<Rightarrow> string \<Rightarrow> ModelPricing option" where
  "GetPricing pm modelName = pm_pricing pm modelName"

definition AllPricing :: "PricingManager \<Rightarrow> string list \<Rightarrow> price_table" where
  "AllPricing pm order =
     foldl (\<lambda>cp k. case pm_pricing pm k of Some v \<Rightarrow> cp(k \<mapsto> v) | None \<Rightarrow> cp) (\<lambda>_. None) order"

definition ModelNames :: "PricingManager \<Rightarrow> string list \<Rightarrow> string list" where
  "ModelNames pm order = sort (filter (\<lambda>k. pm_pricing pm k \<noteq> None) order)"

text \<open>\<open>enumerates order table\<close>: a \<^verbatim>\<open>range\<close> over the map may visit its keys in this order.\<close>

definition enumerates :: "string list \<Rightarrow> (string \<rightharpoonup> 'a) \<Rightarrow> bool" where
  "enumerates order table \<longleftrightarrow> distinct order \<and> set order = dom table"

subsection \<open>The matching loops\<close>

definition match_candidates ::
  "(string \<Rightarrow> string option) \<Rightarrow> price_table \<Rightarrow> string \<Rightarrow> string set \<Rightarrow> string set" where
  "match_candidates key table modelName names =
     {n \<in> names. \<exists>k. table n \<noteq> None \<and> key n = Some k \<and> k \<noteq> [] \<and> has_prefix modelName k}"

lemma match_fold_invariant:
  fixes key table modelName
  defines "C \<equiv> match_candidates key table modelName"
  shows "case foldl (match_step key table modelName) (None, 0) order of
      (None, b) \<Rightarrow> b = 0 \<and> C (set order) = {}
    | (Some p, b) \<Rightarrow> \<exists>n \<in> C (set order). table n = Some p \<and> length (the (key n)) = b \<and>
        (\<forall>m \<in> C (set order). length (the (key m)) \<le> b)"
proof (induction order rule: rev_induct)
  case Nil
  then show ?case by (simp add: C_def match_candidates_def)
next
  case (snoc x order)
  obtain o' b where st: "foldl (match_step key table modelName) (None, 0) order = (o', b)"
    by (metis surj_pair)
  show ?case
  proof (cases "x \<in> C {x}")
    case False
    then have "C (set (order @ [x])) = C (set order)"
      by (auto simp: C_def match_candidates_def)
    moreover have "match_step key table modelName (o', b) x = (o', b)"
      using False by (auto simp: C_def match_candidates_def match_step_def split: option.splits)
    ultimately show ?thesis using snoc st by (cases o') simp_all
  next
    case True
    then obtain k p where k: "key x = Some k" "table x = Some p" "k \<noteq> []" "has_prefix modelName k"
      by (auto simp: C_def match_candidates_def)
    have ins: "C (set (order @ [x])) = insert x (C (set order))"
      using True by (auto simp: C_def match_candidates_def)
    have step: "match_step key table modelName (o', b) x = (if b < length k then (Some p, length k) else (o', b))"
      using k by (simp add: match_step_def)
    show ?thesis
    proof (cases o')
      case None
      then have "b = 0" "C (set order) = {}" using snoc st by auto
      then show ?thesis using st step ins k None by simp
    next
      case (Some q)
      then obtain n where n: "n \<in> C (set order)" "table n = Some q" "length (the (key n)) = b"
        and le: "\<forall>m \<in> C (set order). length (the (key m)) \<le> b"
        using snoc st by auto
      show ?thesis
      proof (cases "b < length k")
        case True
        then have "\<forall>m \<in> C (set order). length (the (key m)) \<le> length k"
          using le by (meson less_imp_le order_trans)
        then show ?thesis using st step ins k True by auto
      next
        case False
        then show ?thesis using st step ins k le n Some by auto
      qed
    qed
  qed
qed

lemma match_loop_None:
  "match_loop key table order modelName = None \<longleftrightarrow>
     match_candidates key table modelName (set order) = {}"
  using match_fold_invariant [of key table modelName order]
  unfolding match_loop_def by (auto split: prod.splits option.splits)

lemma match_loop_Some:
  assumes "match_loop key table order modelName = Some p"
  obtains n k where "n \<in> set order" and "table n = Some p" and "key n = Some k" and "k \<noteq> []"
    and "has_prefix modelName k"
    and "\<And>m k'. m \<in> set order \<Longrightarrow> table m \<noteq> None \<Longrightarrow> key m = Some k' \<Longrightarrow> has_prefix modelName k' \<Longrightarrow>
           length k' \<le> length k"
proof -
  obtain b where st: "foldl (match_step key table modelName) (None, 0) order = (Some p, b)"
    using assms unfolding match_loop_def by (metis fst_conv surj_pair)
  then obtain n where n: "n \<in> match_candidates key table modelName (set order)" "table n = Some p"
      "length (the (key n)) = b"
    and le: "\<forall>m \<in> match_candidates key table modelName (set order). length (the (key m)) \<le> b"
    using match_fold_invariant [of key table modelName order] by auto
  obtain k where k: "n \<in> set order" "key n = Some k" "k \<noteq> []" "has_prefix modelName k"
    using n(1) by (auto simp: match_candidates_def)
  show ?thesis
  proof (rule that [OF k(1) n(2) k(2-4)])
    fix m k' assume m: "m \<in> set order" "table m \<noteq> None" "key m = Some k'" "has_prefix modelName k'"
    show "length k' \<le> length k"
    proof (cases "k' = []")
      case False
      then have "m \<in> match_candidates key table modelName (set order)"
        using m by (auto simp: match_candidates_def)
      then show ?thesis using le n(3) k(2) m(3) by force
    qed simp
  qed
qed

text \<open>Distinct keys of one length cannot both be prefixes, so the loop's answer does not depend on the order.\<close>

lemma match_loop_order:
  assumes inj: "\<And>n m k. key n = Some k \<Longrightarrow> key m = Some k \<Longrightarrow> n = m"
    and "set order = set order'"
  shows "match_loop key table order modelName = match_loop key table order' modelName"
proof (cases "match_loop key table order modelName")
  case None
  then show ?thesis using assms(2) by (metis match_loop_None)
next
  case (Some p)
  then have "match_loop key table order' modelName \<noteq> None"
    using assms(2) by (metis match_loop_None option.distinct(1))
  then obtain q where q: "match_loop key table order' modelName = Some q" by auto
  obtain n k where n: "n \<in> set order" "table n = Some p" "key n = Some k" "has_prefix modelName k"
    and nmax: "\<And>m k'. m \<in> set order \<Longrightarrow> table m \<noteq> None \<Longrightarrow> key m = Some k' \<Longrightarrow>
      has_prefix modelName k' \<Longrightarrow> length k' \<le> length k"
    using match_loop_Some [OF Some] by metis
  obtain m j where m: "m \<in> set order'" "table m = Some q" "key m = Some j" "has_prefix modelName j"
    and mmax: "\<And>i k'. i \<in> set order' \<Longrightarrow> table i \<noteq> None \<Longrightarrow> key i = Some k' \<Longrightarrow>
      has_prefix modelName k' \<Longrightarrow> length k' \<le> length j"
    using match_loop_Some [OF q] by metis
  have "length j \<le> length k" using nmax [of m j] m assms(2) by simp
  moreover have "length k \<le> length j" using mmax [of n k] n assms(2) by simp
  ultimately have "k = j"
    using n(4) m(4) prefix_same_length unfolding has_prefix_def by (metis le_antisym)
  then have "n = m" using inj n(3) m(3) by blast
  then show ?thesis using Some q n(2) m(2) by simp
qed

lemma wildcard_key_inj: "wildcard_key n = Some k \<Longrightarrow> wildcard_key m = Some k \<Longrightarrow> n = m"
  unfolding wildcard_key_def by (metis has_suffix_trim option.distinct(1) option.inject)

lemma find_pricing_order:
  "enumerates order1 (pm_pricing pm) \<Longrightarrow> enumerates order2 (pm_pricing pm) \<Longrightarrow>
   enumerates order1' (pm_pricing pm) \<Longrightarrow> enumerates order2' (pm_pricing pm) \<Longrightarrow>
   find_pricing pm order1 order2 modelName = find_pricing pm order1' order2' modelName"
  using match_loop_order [of Some order1 order1' "pm_pricing pm" modelName]
    match_loop_order [of wildcard_key order2 order2' "pm_pricing pm" modelName] wildcard_key_inj
  unfolding enumerates_def find_pricing_def by (simp split: option.split)

lemma token_cost_mono:
  assumes "mono fl" and "i \<le> i'" and "0 \<le> price"
  shows "token_cost fl i price \<le> token_cost fl i' price"
proof -
  have "fl (rat_of_int i) \<le> fl (of_int i')" using assms by (simp add: monoD)
  then have "fl (fl (rat_of_int i) / 1000000) \<le> fl (fl (of_int i') / 1000000)"
    using assms(1) by (intro monoD [OF assms(1)]) (simp add: divide_right_mono)
  then show ?thesis
    unfolding token_cost_def by (rule monoD [OF assms(1) mult_right_mono [OF _ assms(3)]])
qed

lemma token_cost_zero: "fl 0 = 0 \<Longrightarrow> token_cost fl 0 price = 0"
  by (simp add: token_cost_def)

lemma AllPricing_copy_aux:
  "foldl (\<lambda>cp k. case t k of Some v \<Rightarrow> cp(k \<mapsto> v) | None \<Rightarrow> cp) cp order =
     (\<lambda>k. if k \<in> set order \<and> t k \<noteq> None then t k else cp k)"
  by (induction order arbitrary: cp) (auto simp: fun_eq_iff split: option.splits)

lemma AllPricing_is_table: "enumerates order (pm_pricing pm) \<Longrightarrow> AllPricing pm order = pm_pricing pm"
  unfolding AllPricing_def AllPricing_copy_aux enumerates_def by (auto simp: dom_def)

lemma ModelNames_sorted: "enumerates order (pm_pricing pm) \<Longrightarrow>
    sorted (ModelNames pm order) \<and> distinct (ModelNames pm order) \<and>
    set (ModelNames pm order) = dom (pm_pricing pm)"
  by (auto simp: ModelNames_def enumerates_def)

subsection \<open>Properties\<close>

text \<open>
  The cost of a call does not depend on the order in which the runtime visits the price table: any
  two enumerations of the table give the same cost.  (The code claims to be deterministic because it
  picks the longest match.)
\<close>

theorem cost_deterministic:
  assumes "enumerates order1 (pm_pricing pm)" and "enumerates order2 (pm_pricing pm)"
    and "enumerates order1' (pm_pricing pm)" and "enumerates order2' (pm_pricing pm)"
  shows "Calculate fl pm order1 order2 modelName i out = Calculate fl pm order1' order2' modelName i out"
  using find_pricing_order [OF assms, of modelName] by (simp add: Calculate_def)

definition sample_price :: "rat \<Rightarrow> ModelPricing" where
  "sample_price r = \<lparr>mp_input_per_1m = r, mp_output_per_1m = 2 * r, mp_currency = ''USD'', mp_updated_at = []\<rparr>"

definition sample_prices :: PricingManager where
  "sample_prices = \<lparr>pm_pricing = [''gpt-4o'' \<mapsto> sample_price 5, ''gpt-4o-mini'' \<mapsto> sample_price 1,
     ''ollama/*'' \<mapsto> sample_price 0]\<rparr>"

lemma sample_orders:
  "enumerates [''gpt-4o'', ''gpt-4o-mini'', ''ollama/*''] (pm_pricing sample_prices)"
  "enumerates [''ollama/*'', ''gpt-4o-mini'', ''gpt-4o''] (pm_pricing sample_prices)"
  by (auto simp: enumerates_def sample_prices_def)

theorem cost_deterministic_witness:
  "Calculate id sample_prices [''gpt-4o'', ''gpt-4o-mini'', ''ollama/*''] [''gpt-4o'', ''gpt-4o-mini'', ''ollama/*'']
     ''gpt-4o-mini-2024'' 1000000 0 =
   Calculate id sample_prices [''ollama/*'', ''gpt-4o-mini'', ''gpt-4o''] [''ollama/*'', ''gpt-4o-mini'', ''gpt-4o'']
     ''gpt-4o-mini-2024'' 1000000 0"
  by (rule cost_deterministic) (rule sample_orders)+

text \<open>
  C28. The price used is the exact entry if there is one; otherwise it belongs to an entry whose name is
  a non-empty prefix of the model name, and no longer entry of the table is a prefix of it.
\<close>

theorem longest_prefix_price:
  assumes "enumerates order1 (pm_pricing pm)"
    and "pm_pricing pm n' \<noteq> None" and "n' \<noteq> []" and "has_prefix modelName n'"
  shows "\<exists>n p. find_pricing pm order1 order2 modelName = Some p \<and> pm_pricing pm n = Some p \<and>
      has_prefix modelName n \<and>
      (\<forall>m. pm_pricing pm m \<noteq> None \<and> has_prefix modelName m \<longrightarrow> length m \<le> length n)"
proof (cases "pm_pricing pm modelName")
  case (Some p)
  then show ?thesis
    by (intro exI [of _ modelName] exI [of _ p])
      (auto simp: find_pricing_def has_prefix_def dest: prefix_length_le)
next
  case None
  have "match_candidates Some (pm_pricing pm) modelName (set order1) \<noteq> {}"
    using assms by (auto simp: match_candidates_def enumerates_def)
  then obtain p where p: "match_loop Some (pm_pricing pm) order1 modelName = Some p"
    by (metis match_loop_None not_Some_eq)
  then obtain n k where "n \<in> set order1" "pm_pricing pm n = Some p" "Some n = Some k" "has_prefix modelName k"
    and max: "\<And>m k'. m \<in> set order1 \<Longrightarrow> pm_pricing pm m \<noteq> None \<Longrightarrow> Some m = Some k' \<Longrightarrow>
      has_prefix modelName k' \<Longrightarrow> length k' \<le> length k"
    using match_loop_Some [OF p] by metis
  then show ?thesis
    using None p assms(1)
    by (intro exI [of _ n] exI [of _ p]) (auto simp: find_pricing_def enumerates_def domIff)
qed

theorem longest_prefix_price_witness:
  "\<exists>n p. find_pricing sample_prices [''ollama/*'', ''gpt-4o-mini'', ''gpt-4o''] [] ''gpt-4o-mini-2024'' = Some p \<and>
     pm_pricing sample_prices n = Some p \<and> has_prefix ''gpt-4o-mini-2024'' n \<and>
     (\<forall>m. pm_pricing sample_prices m \<noteq> None \<and> has_prefix ''gpt-4o-mini-2024'' m \<longrightarrow> length m \<le> length n)"
  by (rule longest_prefix_price [of _ _ "''gpt-4o''"])
    (rule sample_orders, auto simp: sample_prices_def has_prefix_def)

text \<open>
  Costs are never negative and never fall when a call uses more tokens, for every way of rounding
  that is monotone and keeps zero.
\<close>

theorem cost_monotone:
  assumes "mono fl" and "fl 0 = 0"
    and prices: "\<And>n p. pm_pricing pm n = Some p \<Longrightarrow> 0 \<le> mp_input_per_1m p \<and> 0 \<le> mp_output_per_1m p"
    and "0 \<le> i" and "i \<le> i'" and "0 \<le> out" and "out \<le> out'"
  shows "0 \<le> Calculate fl pm order1 order2 modelName i out \<and>
    Calculate fl pm order1 order2 modelName i out \<le> Calculate fl pm order1 order2 modelName i' out'"
proof (cases "find_pricing pm order1 order2 modelName")
  case (Some p)
  have "\<exists>n. pm_pricing pm n = Some p"
    using Some unfolding find_pricing_def by (auto split: option.splits elim: match_loop_Some)
  then have pos: "0 \<le> mp_input_per_1m p" "0 \<le> mp_output_per_1m p" using prices by auto
  have "token_cost fl 0 (mp_input_per_1m p) \<le> token_cost fl i (mp_input_per_1m p)"
    "token_cost fl 0 (mp_output_per_1m p) \<le> token_cost fl out (mp_output_per_1m p)"
    using assms pos by (simp_all add: token_cost_mono)
  then have "fl 0 \<le> fl (token_cost fl i (mp_input_per_1m p) + token_cost fl out (mp_output_per_1m p))"
    by (intro monoD [OF assms(1)]) (simp add: token_cost_zero assms(2))
  moreover have "token_cost fl i (mp_input_per_1m p) + token_cost fl out (mp_output_per_1m p) \<le>
      token_cost fl i' (mp_input_per_1m p) + token_cost fl out' (mp_output_per_1m p)"
    using assms pos by (intro add_mono token_cost_mono)
  ultimately show ?thesis
    using Some monoD [OF assms(1)] by (simp add: Calculate_def assms(2))
qed (simp add: Calculate_def)

theorem cost_monotone_witness:
  "0 \<le> Calculate id sample_prices [''gpt-4o''] [] ''gpt-4o'' 3 4 \<and>
   Calculate id sample_prices [''gpt-4o''] [] ''gpt-4o'' 3 4 \<le>
   Calculate id sample_prices [''gpt-4o''] [] ''gpt-4o'' 30 4"
proof (rule cost_monotone)
  fix n p
  assume "pm_pricing sample_prices n = Some p"
  then show "0 \<le> mp_input_per_1m p \<and> 0 \<le> mp_output_per_1m p"
    by (auto simp: sample_prices_def sample_price_def split: if_splits)
qed (simp_all add: mono_def)

end
