(* ===== verification/Usage.thy ===== *)
theory Usage
  imports Logs Middleware Pricing "HOL-Library.Product_Lexorder" "HOL-Library.Option_ord"
begin

text \<open>
  \<^verbatim>\<open>internal/store/usage.go\<close>, \<^verbatim>\<open>usage_admin.go\<close> and their handlers: usage sums over the successful requests, and
  the three administrative operations on old logs, each one transaction.  \<open>fail\<close> gives the database's error for
  each step by name; an error before the commit leaves everything as it was.
\<close>

subsection \<open>Usage\<close>

record UsageQuery =
  uq_period :: string
  uq_date :: string
  uq_month :: string
  uq_year :: string
  uq_from :: string
  uq_to :: string
  uq_provider :: string
  uq_model :: string
  uq_project :: string
  uq_client_id :: string
  uq_group_by :: string

record UsageSummary =
  um_requests :: int
  um_input_tokens :: int
  um_output_tokens :: int
  um_cost_usd :: float64

record UsageBreakdown =
  ub_group_key :: string
  ub_requests :: int
  ub_input_tokens :: int
  ub_output_tokens :: int
  ub_cost_usd :: float64

record UsageResult =
  ur_period :: string
  ur_total :: UsageSummary
  ur_breakdown :: "UsageBreakdown list"

definition buildDateFilter :: "UsageQuery \<Rightarrow> clause option \<times> string" where
  "buildDateFilter q =
     (if uq_period q = ''daily'' \<and> uq_date q \<noteq> [] then (Some (DateEq (uq_date q)), uq_date q)
      else if uq_period q = ''monthly'' \<and> uq_month q \<noteq> [] then (Some (MonthEq (uq_month q)), uq_month q)
      else if uq_period q = ''yearly'' \<and> uq_year q \<noteq> [] then (Some (YearEq (uq_year q)), uq_year q)
      else if uq_period q = ''custom'' \<and> uq_from q \<noteq> [] \<and> uq_to q \<noteq> []
      then (Some (DateBetween (uq_from q) (uq_to q)), uq_from q @ '' ~ '' @ uq_to q)
      else (None, ''all''))"

definition mapGroupBy :: "string \<Rightarrow> string" where
  "mapGroupBy groupBy =
     (if groupBy = ''provider'' then ''actual_provider''
      else if groupBy = ''model'' then ''actual_model''
      else if groupBy = ''project'' then ''project''
      else if groupBy = ''client_id'' then ''client_id''
      else [])"

definition usage_conditions :: "UsageQuery \<Rightarrow> clause list" where
  "usage_conditions q =
     (case fst (buildDateFilter q) of None \<Rightarrow> [] | Some c \<Rightarrow> [c]) @
     unless_empty (uq_provider q) (ColEq ''actual_provider'' (uq_provider q)) @
     unless_empty (uq_model q) (ColEq ''actual_model'' (uq_model q)) @
     unless_empty (uq_project q) (ColEq ''project'' (uq_project q)) @
     unless_empty (uq_client_id q) (ColEq ''client_id'' (uq_client_id q)) @
     [StatusSuccess]"

definition usage_args :: "UsageQuery \<Rightarrow> sql_arg list" where
  "usage_args q = concat (map clause_args (usage_conditions q))"

definition total_query_text :: "UsageQuery \<Rightarrow> string" where
  "total_query_text q =
     ''SELECT COUNT(*), COALESCE(SUM(input_tokens), 0), COALESCE(SUM(output_tokens), 0), COALESCE(SUM(cost_usd), 0) FROM request_logs '' @
     where_text (usage_conditions q)"

definition group_query_text :: "UsageQuery \<Rightarrow> string" where
  "group_query_text q =
     (let groupCol = mapGroupBy (uq_group_by q) in
      ''SELECT '' @ groupCol @ '', COUNT(*), COALESCE(SUM(input_tokens), 0), COALESCE(SUM(output_tokens), 0), COALESCE(SUM(cost_usd), 0) FROM request_logs '' @
      where_text (usage_conditions q) @ '' GROUP BY '' @ groupCol @ '' ORDER BY SUM(cost_usd) DESC'')"

definition usage_summary :: "sql_lib \<Rightarrow> log_row list \<Rightarrow> UsageSummary" where
  "usage_summary sq rows =
     \<lparr>um_requests = int (length rows), um_input_tokens = sum_column rw_input_tokens rows,
      um_output_tokens = sum_column rw_output_tokens rows, um_cost_usd = sum_cost sq rows\<rparr>"

definition usage_breakdown :: "sql_lib \<Rightarrow> log_row list \<Rightarrow> string \<Rightarrow> UsageBreakdown" where
  "usage_breakdown sq rows k =
     \<lparr>ub_group_key = k, ub_requests = int (length rows), ub_input_tokens = sum_column rw_input_tokens rows,
      ub_output_tokens = sum_column rw_output_tokens rows, ub_cost_usd = sum_cost sq rows\<rparr>"

definition usage_query ::
  "sql_lib \<Rightarrow> (string \<Rightarrow> error_text option) \<Rightarrow> UsageQuery \<Rightarrow> logs_table \<Rightarrow> error_text + UsageResult" where
  "usage_query sq fail q t =
     (let rows = select_rows sq (usage_conditions q) (lt_rows t);
          result = \<lparr>ur_period = snd (buildDateFilter q), ur_total = usage_summary sq rows, ur_breakdown = []\<rparr>
      in case fail ''total'' of
           Some e \<Rightarrow> Inl ((bytes [236, 180, 157, 234, 179, 132, 32, 236, 161, 176, 237, 154, 140, 32, 236, 139, 164, 237, 140, 168, 58, 32]) @ e)
         | None \<Rightarrow>
             if uq_group_by q = [] then Inr result
             else
               (let groupCol = mapGroupBy (uq_group_by q) in
                if groupCol = []
                then Inl ((bytes [236, 156, 160, 237, 154, 168, 237, 149, 152, 236, 167, 128, 32, 236, 149, 138, 236, 157, 128, 32, 103, 114, 111, 117, 112, 95, 98, 121, 58, 32]) @ uq_group_by q @ (bytes [32, 40, 112, 114, 111, 118, 105, 100, 101, 114, 44, 32, 109, 111, 100, 101, 108, 44, 32, 112, 114, 111, 106, 101, 99, 116, 44, 32, 99, 108, 105, 101, 110, 116, 95, 105, 100, 32, 236, 164, 145, 32, 236, 132, 160, 237, 131, 157, 41]))
                else (case fail ''group'' of
                        Some e \<Rightarrow> Inl ((bytes [234, 183, 184, 235, 163, 185, 32, 236, 161, 176, 237, 154, 140, 32, 236, 139, 164, 237, 140, 168, 58, 32]) @ e)
                      | None \<Rightarrow>
                          if None \<in> set (map (column groupCol) rows) then Inl null_scan_error
                          else Inr (result\<lparr>ur_breakdown := rev (sort_key ub_cost_usd
                            (map (\<lambda>k. usage_breakdown sq (group_of (\<lambda>r. the (column groupCol r)) rows k) k)
                              (group_keys (\<lambda>r. the (column groupCol r)) rows)))\<rparr>))))"

text \<open>
  Usage adds up: when \<^verbatim>\<open>Query\<close> answers, the total counts exactly the selected successful requests with their
  tokens, and a breakdown, when one is asked for, splits the same requests and tokens into groups with
  different keys.
\<close>

theorem usage_breakdown_adds_up:
  assumes "usage_query sq fail q t = Inr r"
  shows "um_requests (ur_total r) = int (length (filter (\<lambda>x. rw_status x = ''success'' \<and>
        list_all (clause_holds sq x) (usage_conditions q)) (lt_rows t))) \<and>
     distinct (map ub_group_key (ur_breakdown r)) \<and>
     (uq_group_by q \<noteq> [] \<longrightarrow>
       (\<Sum>b\<leftarrow>ur_breakdown r. ub_requests b) = um_requests (ur_total r) \<and>
       (\<Sum>b\<leftarrow>ur_breakdown r. ub_input_tokens b) = um_input_tokens (ur_total r) \<and>
       (\<Sum>b\<leftarrow>ur_breakdown r. ub_output_tokens b) = um_output_tokens (ur_total r))"
proof -
  define g where "g = (\<lambda>x. the (column (mapGroupBy (uq_group_by q)) x))"
  define rows where "rows = select_rows sq (usage_conditions q) (lt_rows t)"
  define gs where "gs = map (\<lambda>k. usage_breakdown sq (group_of g rows k) k) (group_keys g rows)"
  have total: "ur_total r = usage_summary sq rows"
    using assms by (auto simp: usage_query_def Let_def rows_def split: if_splits option.splits)
  have b: "ur_breakdown r = (if uq_group_by q = [] then [] else rev (sort_key ub_cost_usd gs))"
    using assms by (auto simp: usage_query_def Let_def g_def rows_def gs_def split: if_splits option.splits)
  have "(\<Sum>e\<leftarrow>gs. ub_requests e) = um_requests (ur_total r)"
    using count_groups_int [of g rows] by (simp add: gs_def usage_breakdown_def comp_def total usage_summary_def)
  moreover have "(\<Sum>e\<leftarrow>gs. ub_input_tokens e) = um_input_tokens (ur_total r)"
    "(\<Sum>e\<leftarrow>gs. ub_output_tokens e) = um_output_tokens (ur_total r)"
    using sum_column_groups [of _ g rows]
    by (simp_all add: gs_def usage_breakdown_def comp_def total usage_summary_def)
  moreover have "distinct (map ub_group_key (ur_breakdown r))"
  proof -
    have "map ub_group_key gs = group_keys g rows" by (simp add: gs_def usage_breakdown_def comp_def)
    then have "distinct (map ub_group_key gs)" by (simp add: group_keys_def)
    then show ?thesis by (simp add: b rev_map [symmetric] distinct_map)
  qed
  moreover have "rows = filter (\<lambda>x. rw_status x = ''success'' \<and> list_all (clause_holds sq x) (usage_conditions q)) (lt_rows t)"
    unfolding rows_def select_rows_def by (rule filter_cong) (auto simp: usage_conditions_def)
  ultimately show ?thesis by (simp add: b sum_list_rev_sort total usage_summary_def)
qed

definition all_by_provider :: UsageQuery where
  "all_by_provider = \<lparr>uq_period = ''daily'', uq_date = [], uq_month = [], uq_year = [], uq_from = [], uq_to = [],
     uq_provider = [], uq_model = [], uq_project = [], uq_client_id = [], uq_group_by = ''provider''\<rparr>"

theorem usage_breakdown_adds_up_witness:
  "\<exists>r. usage_query sample_sql (\<lambda>_. None) all_by_provider two_logs = Inr r \<and>
    um_requests (ur_total r) = 2 \<and> (\<Sum>b\<leftarrow>ur_breakdown r. ub_requests b) = 2"
proof -
  have rows: "list_all (clause_holds sample_sql x) (usage_conditions all_by_provider) = (rw_status x = ''success'')" for x
    by (simp add: usage_conditions_def all_by_provider_def unless_empty_def buildDateFilter_def)
  obtain r where r: "usage_query sample_sql (\<lambda>_. None) all_by_provider two_logs = Inr r"
    by (simp add: usage_query_def Let_def select_rows_def rows)
      (simp add: all_by_provider_def mapGroupBy_def column_def two_logs_def sample_row_log_def log_row_of_def sample_log_def)
  show ?thesis
    using usage_breakdown_adds_up [OF r] r
    by (simp add: rows) (simp add: all_by_provider_def two_logs_def sample_row_log_def log_row_of_def sample_log_def)
qed

subsection \<open>Archive, reset and deletion\<close>

record summary_row =
  sy_date :: string
  sy_actual_provider :: "string option"
  sy_actual_model :: "string option"
  sy_project :: "string option"
  sy_client_id :: "string option"
  sy_requests :: int
  sy_input_tokens :: int
  sy_output_tokens :: int
  sy_cost_usd :: float64
  sy_avg_latency_ms :: float64
  sy_error_count :: int
  sy_archived_at :: string

record logs_db =
  db_logs :: logs_table
  db_summary :: "summary_row list"

record ArchiveResult =
  ar_archived_rows :: int
  ar_summary_rows :: int
  ar_cutoff_date :: string
  ar_archived_at :: string

record SoftResetResult =
  sr_reset_at :: string
  sr_message :: string

record HardDeleteResult =
  hd_deleted_rows :: int
  hd_cutoff_date :: string
  hd_deleted_at :: string

type_synonym archive_key = "string \<times> string option \<times> string option \<times> string option \<times> string option"

definition archive_key :: "sql_lib \<Rightarrow> log_row \<Rightarrow> archive_key" where
  "archive_key sq r = (the (sq_date sq (rw_timestamp r)), rw_actual_provider r, rw_actual_model r, rw_project r, rw_client_id r)"

definition summary_key :: "summary_row \<Rightarrow> archive_key" where
  "summary_key y = (sy_date y, sy_actual_provider y, sy_actual_model y, sy_project y, sy_client_id y)"

definition summarize :: "sql_lib \<Rightarrow> string \<Rightarrow> log_row list \<Rightarrow> archive_key \<Rightarrow> summary_row" where
  "summarize sq now rows k =
     (case k of (d, p, m, prj, c) \<Rightarrow>
        \<lparr>sy_date = d, sy_actual_provider = p, sy_actual_model = m, sy_project = prj, sy_client_id = c,
         sy_requests = int (length rows), sy_input_tokens = sum_column rw_input_tokens rows,
         sy_output_tokens = sum_column rw_output_tokens rows, sy_cost_usd = sum_cost sq rows,
         sy_avg_latency_ms = sq_avg sq (List.map_filter rw_latency_ms rows),
         sy_error_count = sum_list (map (\<lambda>r. if rw_status r \<noteq> ''success'' then 1 else 0) rows),
         sy_archived_at = now\<rparr>)"

text \<open>The unique index (migration 004): keys with a NULL never collide.\<close>

definition no_nulls :: "archive_key \<Rightarrow> bool" where
  "no_nulls k = (case k of (d, p, m, prj, c) \<Rightarrow> p \<noteq> None \<and> m \<noteq> None \<and> prj \<noteq> None \<and> c \<noteq> None)"

definition summary_collision :: "summary_row list \<Rightarrow> summary_row list \<Rightarrow> bool" where
  "summary_collision old new = list_ex (\<lambda>y. no_nulls (summary_key y) \<and> summary_key y \<in> set (map summary_key old)) new"

definition archive_collision :: error_text where
  "archive_collision = ''UNIQUE constraint failed: archived_daily_summary.date, archived_daily_summary.actual_provider, archived_daily_summary.actual_model, archived_daily_summary.project, archived_daily_summary.client_id''"

definition old_rows :: "sql_lib \<Rightarrow> string \<Rightarrow> log_row list \<Rightarrow> log_row list" where
  "old_rows sq before rows = select_rows sq [DateBefore before] rows"

definition kept_rows :: "sql_lib \<Rightarrow> string \<Rightarrow> log_row list \<Rightarrow> log_row list" where
  "kept_rows sq before rows = filter (\<lambda>r. \<not> clause_holds sq r (DateBefore before)) rows"

definition summaries :: "sql_lib \<Rightarrow> string \<Rightarrow> log_row list \<Rightarrow> summary_row list" where
  "summaries sq now rows =
     map (\<lambda>k. summarize sq now (group_of (archive_key sq) rows k) k) (group_keys (archive_key sq) rows)"

definition Archive ::
  "sql_lib \<Rightarrow> time_format \<Rightarrow> (string \<Rightarrow> error_text option) \<Rightarrow> go_time \<Rightarrow> string \<Rightarrow> logs_db
   \<Rightarrow> (error_text + ArchiveResult) \<times> logs_db" where
  "Archive sq tf fail nowt before db =
     (let now = tf_format tf nowt; old = old_rows sq before (lt_rows (db_logs db)); new = summaries sq now old in
      case fail ''begin'' of
        Some e \<Rightarrow> (Inl ((bytes [237, 138, 184, 235, 158, 156, 236, 158, 173, 236, 133, 152, 32, 236, 139, 156, 236, 158, 145, 32, 236, 139, 164, 237, 140, 168, 58, 32]) @ e), db)
      | None \<Rightarrow>
      (case fail ''count'' of
        Some e \<Rightarrow> (Inl ((bytes [236, 149, 132, 236, 185, 180, 236, 157, 180, 235, 184, 140, 32, 235, 140, 128, 236, 131, 129, 32, 236, 161, 176, 237, 154, 140, 32, 236, 139, 164, 237, 140, 168, 58, 32]) @ e), db)
      | None \<Rightarrow>
        if length old = 0
        then (Inr \<lparr>ar_archived_rows = 0, ar_summary_rows = 0, ar_cutoff_date = before, ar_archived_at = now\<rparr>, db)
        else
          (case (case fail ''insert'' of Some e \<Rightarrow> Some e
                 | None \<Rightarrow> if summary_collision (db_summary db) new then Some archive_collision else None) of
             Some e \<Rightarrow> (Inl ((bytes [236, 149, 132, 236, 185, 180, 236, 157, 180, 235, 184, 140, 32, 236, 167, 145, 234, 179, 132, 32, 73, 78, 83, 69, 82, 84, 32, 236, 139, 164, 237, 140, 168, 58, 32]) @ e), db)
           | None \<Rightarrow>
          (case fail ''inserted'' of
             Some e \<Rightarrow> (Inl ((bytes [82, 111, 119, 115, 65, 102, 102, 101, 99, 116, 101, 100, 32, 236, 161, 176, 237, 154, 140, 32, 236, 139, 164, 237, 140, 168, 58, 32]) @ e), db)
           | None \<Rightarrow>
          (case fail ''delete'' of
             Some e \<Rightarrow> (Inl ((bytes [236, 149, 132, 236, 185, 180, 236, 157, 180, 235, 184, 140, 32, 236, 155, 144, 235, 179, 184, 32, 236, 130, 173, 236, 160, 156, 32, 236, 139, 164, 237, 140, 168, 58, 32]) @ e), db)
           | None \<Rightarrow>
          (case fail ''deleted'' of
             Some e \<Rightarrow> (Inl ((bytes [82, 111, 119, 115, 65, 102, 102, 101, 99, 116, 101, 100, 32, 236, 161, 176, 237, 154, 140, 32, 236, 139, 164, 237, 140, 168, 58, 32]) @ e), db)
           | None \<Rightarrow>
          (case fail ''commit'' of
             Some e \<Rightarrow> (Inl ((bytes [236, 149, 132, 236, 185, 180, 236, 157, 180, 235, 184, 140, 32, 237, 138, 184, 235, 158, 156, 236, 158, 173, 236, 133, 152, 32, 236, 187, 164, 235, 176, 139, 32, 236, 139, 164, 237, 140, 168, 58, 32]) @ e), db)
           | None \<Rightarrow>
               (Inr \<lparr>ar_archived_rows = int (length old), ar_summary_rows = int (length new),
                     ar_cutoff_date = before, ar_archived_at = now\<rparr>,
                \<lparr>db_logs = (db_logs db)\<lparr>lt_rows := kept_rows sq before (lt_rows (db_logs db))\<rparr>,
                 db_summary = db_summary db @ new\<rparr>))))))))"

definition SoftReset ::
  "sql_lib \<Rightarrow> time_format \<Rightarrow> (string \<Rightarrow> error_text option) \<Rightarrow> go_time \<Rightarrow> string \<Rightarrow> logs_db
   \<Rightarrow> (error_text + SoftResetResult) \<times> logs_db" where
  "SoftReset sq tf fail nowt before db =
     (let now = tf_format tf nowt in
      case fail ''begin'' of
        Some e \<Rightarrow> (Inl ((bytes [237, 138, 184, 235, 158, 156, 236, 158, 173, 236, 133, 152, 32, 236, 139, 156, 236, 158, 145, 32, 236, 139, 164, 237, 140, 168, 58, 32]) @ e), db)
      | None \<Rightarrow>
      (case fail ''update'' of
        Some e \<Rightarrow> (Inl ((bytes [236, 134, 140, 237, 148, 132, 237, 138, 184, 32, 235, 166, 172, 236, 133, 139, 32, 236, 139, 164, 237, 140, 168, 58, 32]) @ e), db)
      | None \<Rightarrow>
      (case fail ''commit'' of
        Some e \<Rightarrow> (Inl ((bytes [236, 134, 140, 237, 148, 132, 237, 138, 184, 32, 235, 166, 172, 236, 133, 139, 32, 236, 187, 164, 235, 176, 139, 32, 236, 139, 164, 237, 140, 168, 58, 32]) @ e), db)
      | None \<Rightarrow>
          (Inr \<lparr>sr_reset_at = now, sr_message = before @ (bytes [32, 236, 157, 180, 236, 160, 132, 32, 235, 161, 156, 234, 183, 184, 236, 157, 152, 32, 235, 185, 132, 236, 154, 169, 236, 157, 180, 32, 235, 166, 172, 236, 133, 139, 235, 144, 152, 236, 151, 136, 236, 138, 181, 235, 139, 136, 235, 139, 164])\<rparr>,
           db\<lparr>db_logs := (db_logs db)\<lparr>lt_rows := map (\<lambda>r. if clause_holds sq r (DateBefore before)
             then r\<lparr>rw_cost_usd := Some 0\<rparr> else r) (lt_rows (db_logs db))\<rparr>\<rparr>))))"

definition HardDelete ::
  "sql_lib \<Rightarrow> time_format \<Rightarrow> (string \<Rightarrow> error_text option) \<Rightarrow> go_time \<Rightarrow> string \<Rightarrow> logs_db
   \<Rightarrow> (error_text + HardDeleteResult) \<times> logs_db" where
  "HardDelete sq tf fail nowt before db =
     (let now = tf_format tf nowt; old = old_rows sq before (lt_rows (db_logs db)) in
      case fail ''begin'' of
        Some e \<Rightarrow> (Inl ((bytes [237, 138, 184, 235, 158, 156, 236, 158, 173, 236, 133, 152, 32, 236, 139, 156, 236, 158, 145, 32, 236, 139, 164, 237, 140, 168, 58, 32]) @ e), db)
      | None \<Rightarrow>
      (case fail ''delete'' of
        Some e \<Rightarrow> (Inl ((bytes [237, 149, 152, 235, 147, 156, 32, 236, 130, 173, 236, 160, 156, 32, 236, 139, 164, 237, 140, 168, 58, 32]) @ e), db)
      | None \<Rightarrow>
      (case fail ''deleted'' of
        Some e \<Rightarrow> (Inl ((bytes [82, 111, 119, 115, 65, 102, 102, 101, 99, 116, 101, 100, 32, 236, 161, 176, 237, 154, 140, 32, 236, 139, 164, 237, 140, 168, 58, 32]) @ e), db)
      | None \<Rightarrow>
      (case fail ''commit'' of
        Some e \<Rightarrow> (Inl ((bytes [237, 149, 152, 235, 147, 156, 32, 236, 130, 173, 236, 160, 156, 32, 236, 187, 164, 235, 176, 139, 32, 236, 139, 164, 237, 140, 168, 58, 32]) @ e), db)
      | None \<Rightarrow>
          (Inr \<lparr>hd_deleted_rows = int (length old), hd_cutoff_date = before, hd_deleted_at = now\<rparr>,
           db\<lparr>db_logs := (db_logs db)\<lparr>lt_rows := kept_rows sq before (lt_rows (db_logs db))\<rparr>\<rparr>)))))"

subsection \<open>What archiving keeps\<close>

lemma old_kept_length: "length (old_rows sq before rows) + length (kept_rows sq before rows) = length rows"
proof -
  have "old_rows sq before rows = filter (\<lambda>r. clause_holds sq r (DateBefore before)) rows"
    by (simp add: old_rows_def select_rows_def)
  then show ?thesis unfolding kept_rows_def by (simp add: sum_length_filter_compl)
qed

lemma summaries_sums:
  "(\<Sum>y\<leftarrow>summaries sq now rows. sy_requests y) = int (length rows)"
  "(\<Sum>y\<leftarrow>summaries sq now rows. sy_input_tokens y) = sum_column rw_input_tokens rows"
  "(\<Sum>y\<leftarrow>summaries sq now rows. sy_output_tokens y) = sum_column rw_output_tokens rows"
  using count_groups_int [of "archive_key sq" rows] sum_column_groups [of _ "archive_key sq" rows]
  by (simp_all add: summaries_def summarize_def comp_def case_prod_beta)

lemma sum_column_partition: "sum_column f (filter (\<lambda>r. \<not> P r) rows) + sum_column f (filter P rows) = sum_column f rows"
  by (induction rows) (auto simp: sum_column_def)

definition summary_ok :: "summary_row list \<Rightarrow> bool" where
  "summary_ok ys \<longleftrightarrow> distinct (map summary_key (filter (\<lambda>y. no_nulls (summary_key y)) ys))"

lemma summaries_keys: "map summary_key (summaries sq now rows) = group_keys (archive_key sq) rows"
  by (simp add: summaries_def summarize_def summary_key_def comp_def case_prod_beta)

lemma archived:
  assumes "Archive sq tf fail now before db = (Inr res, db')"
  shows "(old_rows sq before (lt_rows (db_logs db)) = [] \<and> db' = db \<and> ar_archived_rows res = 0) \<or>
    (\<not> summary_collision (db_summary db) (summaries sq (tf_format tf now) (old_rows sq before (lt_rows (db_logs db)))) \<and>
     ar_archived_rows res = int (length (old_rows sq before (lt_rows (db_logs db)))) \<and>
     db' = \<lparr>db_logs = (db_logs db)\<lparr>lt_rows := kept_rows sq before (lt_rows (db_logs db))\<rparr>,
            db_summary = db_summary db @ summaries sq (tf_format tf now) (old_rows sq before (lt_rows (db_logs db)))\<rparr>)"
  using assms by (auto simp: Archive_def Let_def split: option.splits if_splits)

lemma archive_error: "Archive sq tf fail now before db = (Inl e, db') \<Longrightarrow> db' = db"
  by (auto simp: Archive_def Let_def split: option.splits if_splits)

text \<open>
  C38. Archiving loses no usage.  A failed call changes nothing.  A successful one keeps exactly the rows that are
  not older than the cutoff, reports how many it moved, and the requests, input and output tokens of the
  new summaries are those of the moved rows, so the totals over logs and summaries stay the same; the
  summaries keep their unique index.
\<close>

theorem archive_conserves_usage:
  assumes "Archive sq tf fail now before db = (r, db')" and "summary_ok (db_summary db)"
  shows "summary_ok (db_summary db') \<and> (\<forall>e. r = Inl e \<longrightarrow> db' = db) \<and>
    (\<forall>res. r = Inr res \<longrightarrow>
       lt_rows (db_logs db') = kept_rows sq before (lt_rows (db_logs db)) \<and>
       ar_archived_rows res = int (length (lt_rows (db_logs db))) - int (length (lt_rows (db_logs db')))) \<and>
    int (length (lt_rows (db_logs db'))) + (\<Sum>y\<leftarrow>db_summary db'. sy_requests y) =
      int (length (lt_rows (db_logs db))) + (\<Sum>y\<leftarrow>db_summary db. sy_requests y) \<and>
    sum_column rw_input_tokens (lt_rows (db_logs db')) + (\<Sum>y\<leftarrow>db_summary db'. sy_input_tokens y) =
      sum_column rw_input_tokens (lt_rows (db_logs db)) + (\<Sum>y\<leftarrow>db_summary db. sy_input_tokens y) \<and>
    sum_column rw_output_tokens (lt_rows (db_logs db')) + (\<Sum>y\<leftarrow>db_summary db'. sy_output_tokens y) =
      sum_column rw_output_tokens (lt_rows (db_logs db)) + (\<Sum>y\<leftarrow>db_summary db. sy_output_tokens y)"
proof (cases r)
  case (Inl e)
  then show ?thesis using archive_error assms by blast
next
  case (Inr res)
  let ?rows = "lt_rows (db_logs db)"
  let ?old = "old_rows sq before ?rows" and ?kept = "kept_rows sq before ?rows"
  let ?new = "summaries sq (tf_format tf now) ?old"
  have tokens: "sum_column f ?kept + sum_column f ?old = sum_column f ?rows" for f
    using sum_column_partition [of f "\<lambda>r. clause_holds sq r (DateBefore before)" ?rows]
    by (simp add: old_rows_def kept_rows_def select_rows_def)
  have count: "int (length ?old) + int (length ?kept) = int (length ?rows)"
    using old_kept_length [of sq before ?rows] by linarith
  consider "?old = []" "db' = db" "ar_archived_rows res = 0"
    | "\<not> summary_collision (db_summary db) ?new" "ar_archived_rows res = int (length ?old)"
      "db' = \<lparr>db_logs = (db_logs db)\<lparr>lt_rows := ?kept\<rparr>, db_summary = db_summary db @ ?new\<rparr>"
    using archived [of sq tf fail now before db res db'] assms(1) Inr by auto
  then show ?thesis
  proof cases
    case 1
    have "?kept = ?rows"
      using 1(1) by (auto simp: kept_rows_def old_rows_def select_rows_def filter_empty_conv filter_id_conv)
    then show ?thesis using 1 Inr assms(2) by simp
  next
    case 2
    have "distinct (map summary_key ?new)" by (simp add: summaries_keys group_keys_def)
    then have "summary_ok (db_summary db @ ?new)"
      using assms(2) 2(1) by (auto simp: summary_ok_def summary_collision_def list_ex_iff distinct_map_filter)
    then show ?thesis using 2 Inr count tokens summaries_sums [of sq "tf_format tf now" ?old]
      by simp
  qed
qed

definition sample_db :: logs_db where
  "sample_db = \<lparr>db_logs = two_logs, db_summary = []\<rparr>"

definition sample_key :: archive_key where
  "sample_key = (''2026-01-01'', Some ''gpt'', Some ''gpt-4o'', Some ''p'', Some ''app'')"

lemma sample_archive_key: "archive_key sample_sql (sample_row_log i tid) = sample_key"
  by (simp add: archive_key_def sample_sql_def sample_row_log_def log_row_of_def sample_log_def sample_key_def)

lemma sample_old: "clause_holds sample_sql (sample_row_log i tid) (DateBefore ''2026-12-31'')"
  by (simp add: sample_sql_def sample_row_log_def log_row_of_def less_char_def)

lemma sample_old_rows: "old_rows sample_sql ''2026-12-31'' [sample_row_log i a, sample_row_log j b] = [sample_row_log i a, sample_row_log j b]"
  using sample_old by (simp add: old_rows_def select_rows_def)

lemma sample_archived:
  "\<exists>res db'. Archive sample_sql plain_time (\<lambda>_. None) 0 ''2026-12-31'' sample_db = (Inr res, db') \<and> lt_rows (db_logs db') = [] \<and>
    map summary_key (db_summary db') = [sample_key]"
proof -
  have "map summary_key (summaries sample_sql now [sample_row_log 1 ''a'', sample_row_log 2 ''b'']) = [sample_key]" for now
    unfolding summaries_keys by (simp add: group_keys_def sample_archive_key)
  then show ?thesis
    using sample_old by (simp add: Archive_def sample_db_def two_logs_def sample_old_rows Let_def summary_collision_def list_ex_iff kept_rows_def)
qed

theorem archive_conserves_usage_witness:
  "\<exists>r db'. Archive sample_sql plain_time (\<lambda>_. None) 0 ''2026-12-31'' sample_db = (r, db') \<and>
    int (length (lt_rows (db_logs db'))) + (\<Sum>y\<leftarrow>db_summary db'. sy_requests y) = 2"
proof -
  obtain r db' where a: "Archive sample_sql plain_time (\<lambda>_. None) 0 ''2026-12-31'' sample_db = (r, db')" by (metis surj_pair)
  have "summary_ok (db_summary sample_db)" by (simp add: summary_ok_def sample_db_def)
  then show ?thesis using archive_conserves_usage [OF a] a by (simp add: sample_db_def two_logs_def)
qed

text \<open>
  A day can be archived once only: when a summary with the date, provider, model, project and client of an
  old row exists, every further \<^verbatim>\<open>Archive\<close> that would cover the row fails and changes nothing, so rows logged
  on a day that has been archived already can never be archived.
\<close>

theorem second_archive_of_a_day_fails:
  assumes "x \<in> set (old_rows sq before (lt_rows (db_logs db)))"
    and "archive_key sq x \<in> set (map summary_key (db_summary db))" and "no_nulls (archive_key sq x)"
  shows "\<exists>e. Archive sq tf fail now before db = (Inl e, db)"
proof -
  let ?old = "old_rows sq before (lt_rows (db_logs db))"
  have "archive_key sq x \<in> set (map summary_key (summaries sq (tf_format tf now) ?old))"
    unfolding summaries_keys using assms(1) by (simp add: group_keys_def)
  then obtain y where "y \<in> set (summaries sq (tf_format tf now) ?old)" "summary_key y = archive_key sq x"
    by auto
  then have "summary_collision (db_summary db) (summaries sq (tf_format tf now) ?old)"
    using assms(2,3) unfolding summary_collision_def list_ex_iff by metis
  then have "\<exists>e. r = Inl e" if "Archive sq tf fail now before db = (r, db')" for r db'
    using that archived [of sq tf fail now before db _ db'] assms(1) by (cases r) auto
  then show ?thesis using archive_error by (metis surj_pair)
qed

theorem second_archive_of_a_day_fails_witness:
  "\<exists>res db' e. Archive sample_sql plain_time (\<lambda>_. None) 0 ''2026-12-31'' sample_db = (Inr res, db') \<and>
    (let db'' = db'\<lparr>db_logs := two_logs\<rparr> in
     Archive sample_sql plain_time (\<lambda>_. None) second ''2026-12-31'' db'' = (Inl e, db''))"
proof -
  obtain res db' where a: "Archive sample_sql plain_time (\<lambda>_. None) 0 ''2026-12-31'' sample_db = (Inr res, db')"
    "map summary_key (db_summary db') = [sample_key]" using sample_archived by (elim exE conjE) metis
  let ?db = "db'\<lparr>db_logs := two_logs\<rparr>"
  have "\<exists>e. Archive sample_sql plain_time (\<lambda>_. None) second ''2026-12-31'' ?db = (Inl e, ?db)"
    by (rule second_archive_of_a_day_fails [of "sample_row_log 1 ''a''"])
      (use a(2) in \<open>simp_all add: two_logs_def sample_old_rows sample_archive_key, simp_all add: sample_key_def no_nulls_def\<close>)
  then show ?thesis using a(1) by (auto simp: Let_def)
qed

subsection \<open>Handlers\<close>

text \<open>\<open>valid_date\<close> is \<^verbatim>\<open>time.Parse\<close> with the layout of a date.\<close>

definition validateDateParam :: "(string \<Rightarrow> bool) \<Rightarrow> string \<Rightarrow> string \<Rightarrow> error_text option" where
  "validateDateParam valid_date date paramName =
     (if date = [] then None
      else if \<not> valid_date date
      then Some (paramName @ '': '' @ (bytes [235, 130, 160, 236, 167, 156, 32, 237, 152, 149, 236, 139, 157, 236, 157, 180, 32, 236, 152, 172, 235, 176, 148, 235, 165, 180, 236, 167, 128, 32, 236, 149, 138, 236, 138, 181, 235, 139, 136, 235, 139, 164, 32, 40, 89, 89, 89, 89, 45, 77, 77, 45, 68, 68, 41]))
      else None)"

fun first_error :: "error_text option list \<Rightarrow> error_text option" where
  "first_error [] = None"
| "first_error (None # es) = first_error es"
| "first_error (Some e # es) = Some e"

definition usage_json :: "UsageResult \<Rightarrow> json" where
  "usage_json r = JObj
     ([(''period'', JStr (ur_period r)),
       (''total'', JObj [(''requests'', JInt (um_requests (ur_total r))), (''input_tokens'', JInt (um_input_tokens (ur_total r))),
          (''output_tokens'', JInt (um_output_tokens (ur_total r))), (''cost_usd'', JFloat (um_cost_usd (ur_total r)))])] @
      (if ur_breakdown r = [] then []
       else [(''breakdown'', JList (map (\<lambda>b. JObj [(''group_key'', JStr (ub_group_key b)),
          (''requests'', JInt (ub_requests b)), (''input_tokens'', JInt (ub_input_tokens b)),
          (''output_tokens'', JInt (ub_output_tokens b)), (''cost_usd'', JFloat (ub_cost_usd b))]) (ur_breakdown r)))]))"

definition period_ok :: "string \<Rightarrow> bool" where
  "period_ok p = (p = ''daily'' \<or> p = ''monthly'' \<or> p = ''yearly'' \<or> p = ''custom'')"

text \<open>The query a request leads to, or the response that refuses it.\<close>

definition usage_request :: "(string \<Rightarrow> bool) \<Rightarrow> gin \<Rightarrow> http_response + UsageQuery" where
  "usage_request valid_date c =
     (case first_error [validateDateParam valid_date (gn_query c ''date'') ''date'',
                        validateDateParam valid_date (gn_query c ''from'') ''from'',
                        validateDateParam valid_date (gn_query c ''to'') ''to''] of
        Some e \<Rightarrow> Inl (error_response 400 e)
      | None \<Rightarrow>
          (let period = default_query c ''period'' ''daily'' in
           if \<not> period_ok period
           then Inl (error_response 400 ((bytes [236, 156, 160, 237, 154, 168, 237, 149, 152, 236, 167, 128, 32, 236, 149, 138, 236, 157, 128, 32, 112, 101, 114, 105, 111, 100, 58, 32]) @ period @ (bytes [32, 40, 100, 97, 105, 108, 121, 44, 32, 109, 111, 110, 116, 104, 108, 121, 44, 32, 121, 101, 97, 114, 108, 121, 44, 32, 99, 117, 115, 116, 111, 109, 32, 236, 164, 145, 32, 236, 132, 160, 237, 131, 157, 41])))
           else
             (let queryClientID = gn_query c ''client_id''; ownClientID = GetClientID c in
              if \<not> IsTrustedNet c \<and> queryClientID \<noteq> [] \<and> queryClientID \<noteq> ownClientID
              then Inl (error_response 403 (bytes [235, 139, 164, 235, 165, 184, 32, 237, 129, 180, 235, 157, 188, 236, 157, 180, 236, 150, 184, 237, 138, 184, 236, 157, 152, 32, 236, 130, 172, 236, 154, 169, 235, 159, 137, 236, 157, 128, 32, 236, 161, 176, 237, 154, 140, 237, 149, 160, 32, 236, 136, 152, 32, 236, 151, 134, 236, 138, 181, 235, 139, 136, 235, 139, 164]))
              else Inr \<lparr>uq_period = period, uq_date = gn_query c ''date'', uq_month = gn_query c ''month'',
                uq_year = gn_query c ''year'', uq_from = gn_query c ''from'', uq_to = gn_query c ''to'',
                uq_provider = gn_query c ''provider'', uq_model = gn_query c ''model'',
                uq_project = gn_query c ''project'',
                uq_client_id = (if \<not> IsTrustedNet c then ownClientID else queryClientID),
                uq_group_by = gn_query c ''group_by''\<rparr>)))"

definition UsageHandler_Usage ::
  "sql_lib \<Rightarrow> (string \<Rightarrow> error_text option) \<Rightarrow> (string \<Rightarrow> bool) \<Rightarrow> gin \<Rightarrow> logs_table \<Rightarrow> http_response" where
  "UsageHandler_Usage sq fail valid_date c t =
     (case usage_request valid_date c of
        Inl resp \<Rightarrow> resp
      | Inr q \<Rightarrow>
          (case usage_query sq fail q t of
             Inl err \<Rightarrow>
               if contains err (bytes [236, 156, 160, 237, 154, 168, 237, 149, 152, 236, 167, 128, 32, 236, 149, 138, 236, 157, 128, 32, 103, 114, 111, 117, 112, 95, 98, 121]) then error_response 400 err
               else error_response 500 ((bytes [236, 130, 172, 236, 154, 169, 235, 159, 137, 32, 236, 161, 176, 237, 154, 140, 32, 236, 139, 164, 237, 140, 168, 58, 32]) @ err)
           | Inr result \<Rightarrow> \<lparr>rs_status = 200, rs_body = usage_json result\<rparr>))"

definition price_json :: "ModelPricing \<Rightarrow> json" where
  "price_json p = JObj [(''input_per_1m_tokens'', JFloat (mp_input_per_1m p)), (''output_per_1m_tokens'', JFloat (mp_output_per_1m p)),
     (''currency'', JStr (mp_currency p)), (''updated_at'', JStr (mp_updated_at p))]"

definition UsageHandler_Pricing :: "PricingManager option \<Rightarrow> string list \<Rightarrow> http_response" where
  "UsageHandler_Pricing pm order =
     (case pm of
        None \<Rightarrow> json_response 200 [(''pricing'', JObj [])]
      | Some p \<Rightarrow>
          json_response 200 [(''pricing'', JObj (List.map_filter (\<lambda>k. map_option (\<lambda>v. (k, price_json v)) (AllPricing p order k)) order))])"

text \<open>The body of the three destructive requests, after the \<^verbatim>\<open>binding\<close> tags.\<close>

record archiveRequest =
  av_before :: string
  av_confirmation :: string
  av_reason :: string

definition bind_archive :: "error_text \<Rightarrow> error_text + archiveRequest \<Rightarrow> error_text + archiveRequest" where
  "bind_archive invalid decoded =
     (case decoded of
        Inl e \<Rightarrow> Inl e
      | Inr req \<Rightarrow> if av_before req = [] \<or> av_confirmation req = [] then Inl invalid else Inr req)"

definition date_error :: error_text where
  "date_error = ''before: '' @ (bytes [235, 130, 160, 236, 167, 156, 32, 237, 152, 149, 236, 139, 157, 236, 157, 180, 32, 236, 152, 172, 235, 176, 148, 235, 165, 180, 236, 167, 128, 32, 236, 149, 138, 236, 138, 181, 235, 139, 136, 235, 139, 164, 32, 40, 89, 89, 89, 89, 45, 77, 77, 45, 68, 68, 41])"

definition not_allowed :: "string \<Rightarrow> string \<Rightarrow> http_response" where
  "not_allowed op hint =
     error_response 403 (op @ (bytes [32, 236, 158, 145, 236, 151, 133, 236, 157, 180, 32, 237, 151, 136, 236, 154, 169, 235, 144, 152, 236, 167, 128, 32, 236, 149, 138, 236, 149, 152, 236, 138, 181, 235, 139, 136, 235, 139, 164, 46, 32, 117, 115, 97, 103, 101, 95, 114, 101, 116, 101, 110, 116, 105, 111, 110, 46, 121, 97, 109, 108, 236, 157, 152, 32, 97, 108, 108, 111, 119, 101, 100, 95, 111, 112, 101, 114, 97, 116, 105, 111, 110, 115]) @ hint)"

definition confirmation_mismatch :: "string \<Rightarrow> http_response" where
  "confirmation_mismatch word =
     error_response 400 ((bytes [237, 153, 149, 236, 157, 184, 32, 235, 172, 184, 236, 158, 144, 236, 151, 180, 236, 157, 180, 32, 236, 157, 188, 236, 185, 152, 237, 149, 152, 236, 167, 128, 32, 236, 149, 138, 236, 138, 181, 235, 139, 136, 235, 139, 164, 46, 32, 237, 152, 149, 236, 139, 157, 58, 32, 67, 79, 78, 70, 73, 82, 77, 45]) @ word @ ''-'' @ bytes [123] @ (bytes [235, 130, 160, 236, 167, 156]) @ bytes [125])"

text \<open>The checks the three handlers share, in their order.\<close>

definition checked_request ::
  "ResetPolicy \<Rightarrow> (string \<Rightarrow> bool) \<Rightarrow> string \<Rightarrow> string \<Rightarrow> string \<Rightarrow> error_text \<Rightarrow> error_text + archiveRequest
   \<Rightarrow> http_response + archiveRequest" where
  "checked_request policy valid_date op hint word invalid decoded =
     (if \<not> IsOperationAllowed policy op then Inl (not_allowed op hint)
      else
        (case bind_archive invalid decoded of
           Inl e \<Rightarrow> Inl (error_response 400 ((bytes [236, 158, 152, 235, 170, 187, 235, 144, 156, 32, 236, 154, 148, 236, 178, 173, 58, 32]) @ e))
         | Inr req \<Rightarrow>
             if \<not> valid_date (av_before req) then Inl (error_response 400 date_error)
             else if rp_require_confirmation policy \<and> av_confirmation req \<noteq> ''CONFIRM-'' @ word @ ''-'' @ av_before req
             then Inl (confirmation_mismatch word)
             else Inr req))"

definition check_hint :: string where
  "check_hint = (bytes [235, 165, 188, 32, 237, 153, 149, 236, 157, 184, 237, 149, 152, 236, 132, 184, 236, 154, 148])"

definition UsageAdmin_Archive ::
  "sql_lib \<Rightarrow> time_format \<Rightarrow> (string \<Rightarrow> error_text option) \<Rightarrow> go_time \<Rightarrow> ResetPolicy \<Rightarrow> (string \<Rightarrow> bool)
   \<Rightarrow> error_text \<Rightarrow> error_text + archiveRequest \<Rightarrow> logs_db \<Rightarrow> http_response \<times> logs_db" where
  "UsageAdmin_Archive sq tf fail now policy valid_date invalid decoded db =
     (case checked_request policy valid_date ''archive'' check_hint ''ARCHIVE'' invalid decoded of
        Inl resp \<Rightarrow> (resp, db)
      | Inr req \<Rightarrow>
          (case Archive sq tf fail now (av_before req) db of
             (Inl err, db') \<Rightarrow> (error_response 500 ((bytes [236, 149, 132, 236, 185, 180, 236, 157, 180, 235, 184, 140, 32, 236, 139, 164, 237, 140, 168, 58, 32]) @ err), db')
           | (Inr res, db') \<Rightarrow>
               (json_response 200 [(''archived_rows'', JInt (ar_archived_rows res)), (''summary_rows'', JInt (ar_summary_rows res)),
                  (''cutoff_date'', JStr (ar_cutoff_date res)), (''archived_at'', JStr (ar_archived_at res))], db')))"

definition UsageAdmin_SoftReset ::
  "sql_lib \<Rightarrow> time_format \<Rightarrow> (string \<Rightarrow> error_text option) \<Rightarrow> go_time \<Rightarrow> ResetPolicy \<Rightarrow> (string \<Rightarrow> bool)
   \<Rightarrow> error_text \<Rightarrow> error_text + archiveRequest \<Rightarrow> logs_db \<Rightarrow> http_response \<times> logs_db" where
  "UsageAdmin_SoftReset sq tf fail now policy valid_date invalid decoded db =
     (case checked_request policy valid_date ''soft_reset'' check_hint ''RESET'' invalid decoded of
        Inl resp \<Rightarrow> (resp, db)
      | Inr req \<Rightarrow>
          (case SoftReset sq tf fail now (av_before req) db of
             (Inl err, db') \<Rightarrow> (error_response 500 ((bytes [236, 134, 140, 237, 148, 132, 237, 138, 184, 32, 235, 166, 172, 236, 133, 139, 32, 236, 139, 164, 237, 140, 168, 58, 32]) @ err), db')
           | (Inr res, db') \<Rightarrow>
               (json_response 200 [(''reset_at'', JStr (sr_reset_at res)), (''message'', JStr (sr_message res))], db')))"

definition UsageAdmin_HardDelete ::
  "sql_lib \<Rightarrow> time_format \<Rightarrow> (string \<Rightarrow> error_text option) \<Rightarrow> go_time \<Rightarrow> ResetPolicy \<Rightarrow> (string \<Rightarrow> bool)
   \<Rightarrow> error_text \<Rightarrow> error_text + archiveRequest \<Rightarrow> logs_db \<Rightarrow> http_response \<times> logs_db" where
  "UsageAdmin_HardDelete sq tf fail now policy valid_date invalid decoded db =
     (case checked_request policy valid_date ''hard_delete'' (bytes [236, 151, 144, 32, 104, 97, 114, 100, 95, 100, 101, 108, 101, 116, 101, 235, 165, 188, 32, 236, 182, 148, 234, 176, 128, 237, 149, 152, 236, 132, 184, 236, 154, 148]) ''DELETE'' invalid decoded of
        Inl resp \<Rightarrow> (resp, db)
      | Inr req \<Rightarrow>
          (case HardDelete sq tf fail now (av_before req) db of
             (Inl err, db') \<Rightarrow> (error_response 500 ((bytes [237, 149, 152, 235, 147, 156, 32, 236, 130, 173, 236, 160, 156, 32, 236, 139, 164, 237, 140, 168, 58, 32]) @ err), db')
           | (Inr res, db') \<Rightarrow>
               (json_response 200 [(''deleted_rows'', JInt (hd_deleted_rows res)), (''cutoff_date'', JStr (hd_cutoff_date res)),
                  (''deleted_at'', JStr (hd_deleted_at res))], db')))"

text \<open>The structure has no \<^verbatim>\<open>json\<close> tags, so the names are those of its fields.\<close>

definition UsageAdmin_RetentionPolicy :: "RetentionPolicy \<Rightarrow> http_response" where
  "UsageAdmin_RetentionPolicy rt =
     json_response 200 [(''Retention'', JObj
       [(''DetailLogs'', JObj [(''HotStorageDays'', JInt (dl_hot_storage_days (rt_detail_logs rt))),
           (''ArchiveAfterDays'', JInt (dl_archive_after_days (rt_detail_logs rt))),
           (''DeleteAfterDays'', JInt (dl_delete_after_days (rt_detail_logs rt)))]),
        (''Aggregated'', JObj [(''DailyKeepDays'', JInt (ag_daily_keep_days (rt_aggregated rt))),
           (''MonthlyKeepYears'', JInt (ag_monthly_keep_years (rt_aggregated rt))),
           (''YearlyKeepYears'', JInt (ag_yearly_keep_years (rt_aggregated rt)))]),
        (''Reset'', JObj [(''RequireConfirmation'', JBool (rp_require_confirmation (rt_reset rt))),
           (''AllowedOperations'', json_list JStr (rp_allowed_operations (rt_reset rt)))])])]"

subsection \<open>What the handlers guarantee\<close>

lemma own_rows_decide:
  assumes "\<not> IsTrustedNet c" and "GetClientID c \<noteq> []"
    and "filter (\<lambda>r. rw_client_id r = Some (GetClientID c)) (lt_rows t) = filter (\<lambda>r. rw_client_id r = Some (GetClientID c)) (lt_rows t')"
  shows "UsageHandler_Usage sq fail valid_date c t = UsageHandler_Usage sq fail valid_date c t'"
proof (cases "usage_request valid_date c")
  case (Inr q)
  have own: "uq_client_id q = GetClientID c"
    using Inr assms(1) by (auto simp: usage_request_def Let_def split: option.splits if_splits)
  have "select_rows sq (usage_conditions q) rows =
      select_rows sq (usage_conditions q) (filter (\<lambda>r. rw_client_id r = Some (GetClientID c)) rows)" for rows
    unfolding select_rows_def filter_filter
    by (rule filter_cong) (use own assms(2) in \<open>auto simp: usage_conditions_def unless_empty_def column_def\<close>)
  then have "select_rows sq (usage_conditions q) (lt_rows t) = select_rows sq (usage_conditions q) (lt_rows t')"
    using assms(3) by metis
  then show ?thesis using Inr by (simp add: UsageHandler_Usage_def usage_query_def)
qed (simp add: UsageHandler_Usage_def)

text \<open>
  C39. Outside the trusted networks a client sees its own usage only: the totals a request of an
  authenticated outsider gets do not depend on the rows of other clients.
\<close>

theorem usage_is_own_only:
  assumes "\<not> IsTrustedNet c" and "GetClientID c \<noteq> []"
    and "filter (\<lambda>r. rw_client_id r = Some (GetClientID c)) (lt_rows t) = filter (\<lambda>r. rw_client_id r = Some (GetClientID c)) (lt_rows t')"
  shows "UsageHandler_Usage sq fail valid_date c t = UsageHandler_Usage sq fail valid_date c t'"
  by (rule own_rows_decide [OF assms])

definition outsider :: gin where
  "outsider = \<lparr>gn_client_ip = ''9.9.9.9'', gn_header = (\<lambda>_. []), gn_get_query = (\<lambda>_. None), gn_param = (\<lambda>_. []),
     gn_client_id = Some ''app'', gn_service_name = Some ''mobile'', gn_trusted = None, gn_trace_id = None,
     gn_out_headers = []\<rparr>"

theorem usage_is_own_only_witness:
  "UsageHandler_Usage sample_sql (\<lambda>_. None) (\<lambda>_. True) outsider two_logs =
   UsageHandler_Usage sample_sql (\<lambda>_. None) (\<lambda>_. True) outsider
     (two_logs\<lparr>lt_rows := lt_rows two_logs @ [(sample_row_log 3 ''c'')\<lparr>rw_client_id := Some ''other''\<rparr>]\<rparr>)"
  by (rule usage_is_own_only) (simp_all add: outsider_def IsTrustedNet_def GetClientID_def two_logs_def)

text \<open>
  C40. Logs are destroyed only on purpose: if one of the three administrative requests changes the log
  database, the operation is allowed by the retention policy, its body has a date that parses, and the
  confirmation repeats the operation and that date when confirmations are required; rows that are not
  older than the date are never touched.
\<close>

theorem destructive_requests_are_guarded:
  assumes "(op, word, resp, db') \<in>
     {(''archive'', ''ARCHIVE'', UsageAdmin_Archive sq tf fail now policy valid_date invalid decoded db),
      (''soft_reset'', ''RESET'', UsageAdmin_SoftReset sq tf fail now policy valid_date invalid decoded db),
      (''hard_delete'', ''DELETE'', UsageAdmin_HardDelete sq tf fail now policy valid_date invalid decoded db)}"
    and "db' \<noteq> db"
  shows "\<exists>req. decoded = Inr req \<and> op \<in> set (rp_allowed_operations policy) \<and> valid_date (av_before req) \<and>
     (rp_require_confirmation policy \<longrightarrow> av_confirmation req = ''CONFIRM-'' @ word @ ''-'' @ av_before req) \<and>
     filter (\<lambda>r. \<not> clause_holds sq r (DateBefore (av_before req))) (lt_rows (db_logs db')) =
     filter (\<lambda>r. \<not> clause_holds sq r (DateBefore (av_before req))) (lt_rows (db_logs db))"
proof -
  have checked: "\<exists>req. decoded = Inr req \<and> op \<in> set (rp_allowed_operations policy) \<and> valid_date (av_before req) \<and>
      (rp_require_confirmation policy \<longrightarrow> av_confirmation req = ''CONFIRM-'' @ word @ ''-'' @ av_before req) \<and> x = req"
    if "checked_request policy valid_date op hint word invalid decoded = Inr x" for hint x
    using that by (auto simp: checked_request_def bind_archive_def IsOperationAllowed_iff split: if_splits sum.splits)
  let ?keep = "\<lambda>b db. filter (\<lambda>r. \<not> clause_holds sq r (DateBefore b)) (lt_rows (db_logs db))"
  have a: "?keep b db2 = ?keep b db" if "Archive sq tf fail now b db = (r, db2)" for b r db2
    using that by (auto simp: Archive_def Let_def kept_rows_def split: option.splits if_splits)
  have h: "?keep b db2 = ?keep b db" if "HardDelete sq tf fail now b db = (r, db2)" for b r db2
    using that by (auto simp: HardDelete_def Let_def kept_rows_def split: option.splits if_splits)
  have "filter (\<lambda>r. \<not> clause_holds sq r (DateBefore b))
      (map (\<lambda>r. if clause_holds sq r (DateBefore b) then r\<lparr>rw_cost_usd := Some 0\<rparr> else r) rows) =
      filter (\<lambda>r. \<not> clause_holds sq r (DateBefore b)) rows" for b rows
    by (induction rows) auto
  then have s: "?keep b db2 = ?keep b db" if "SoftReset sq tf fail now b db = (r, db2)" for b r db2
    using that by (auto simp: SoftReset_def Let_def split: option.splits simp del: clause_holds.simps)
  consider (archive) "op = ''archive''" "word = ''ARCHIVE''" "UsageAdmin_Archive sq tf fail now policy valid_date invalid decoded db = (resp, db')"
    | (reset) "op = ''soft_reset''" "word = ''RESET''" "UsageAdmin_SoftReset sq tf fail now policy valid_date invalid decoded db = (resp, db')"
    | (delete) "op = ''hard_delete''" "word = ''DELETE''" "UsageAdmin_HardDelete sq tf fail now policy valid_date invalid decoded db = (resp, db')"
    using assms(1) by auto
  then show ?thesis
  proof cases
    case archive
    then obtain x where "checked_request policy valid_date op check_hint word invalid decoded = Inr x"
      "db' = snd (Archive sq tf fail now (av_before x) db)"
      using assms(2) by (auto simp: UsageAdmin_Archive_def split: sum.splits prod.splits)
    then show ?thesis using checked a [OF prod.collapse [symmetric]] by blast
  next
    case reset
    then obtain x where "checked_request policy valid_date op check_hint word invalid decoded = Inr x"
      "db' = snd (SoftReset sq tf fail now (av_before x) db)"
      using assms(2) by (auto simp: UsageAdmin_SoftReset_def split: sum.splits prod.splits)
    then show ?thesis using checked s [OF prod.collapse [symmetric]] by blast
  next
    case delete
    then obtain x hint where "checked_request policy valid_date op hint word invalid decoded = Inr x"
      "db' = snd (HardDelete sq tf fail now (av_before x) db)"
      using assms(2) by (auto simp: UsageAdmin_HardDelete_def split: sum.splits prod.splits)
    then show ?thesis using checked h [OF prod.collapse [symmetric]] by blast
  qed
qed

definition delete_policy :: ResetPolicy where
  "delete_policy = \<lparr>rp_require_confirmation = True, rp_allowed_operations = [''archive'', ''hard_delete'']\<rparr>"

definition delete_body :: archiveRequest where
  "delete_body = \<lparr>av_before = ''2026-12-31'', av_confirmation = ''CONFIRM-DELETE-2026-12-31'', av_reason = []\<rparr>"

theorem destructive_requests_are_guarded_witness:
  "\<exists>resp db'. UsageAdmin_HardDelete sample_sql plain_time (\<lambda>_. None) 0 delete_policy (\<lambda>_. True) [] (Inr delete_body) sample_db = (resp, db') \<and>
    db' \<noteq> sample_db \<and> ''hard_delete'' \<in> set (rp_allowed_operations delete_policy)"
proof -
  obtain resp db' where d: "UsageAdmin_HardDelete sample_sql plain_time (\<lambda>_. None) 0 delete_policy (\<lambda>_. True) [] (Inr delete_body) sample_db = (resp, db')"
    by (metis surj_pair)
  have "db_logs db' \<noteq> two_logs"
    using d sample_old
    by (auto simp: UsageAdmin_HardDelete_def checked_request_def bind_archive_def IsOperationAllowed_iff delete_policy_def
        delete_body_def HardDelete_def Let_def sample_db_def two_logs_def kept_rows_def)
  then have n: "db' \<noteq> sample_db" by (auto simp: sample_db_def)
  have "\<exists>req. Inr delete_body = (Inr req :: error_text + archiveRequest) \<and> ''hard_delete'' \<in> set (rp_allowed_operations delete_policy) \<and>
      True \<and> (rp_require_confirmation delete_policy \<longrightarrow> av_confirmation req = ''CONFIRM-'' @ ''DELETE'' @ ''-'' @ av_before req) \<and>
      filter (\<lambda>r. \<not> clause_holds sample_sql r (DateBefore (av_before req))) (lt_rows (db_logs db')) =
      filter (\<lambda>r. \<not> clause_holds sample_sql r (DateBefore (av_before req))) (lt_rows (db_logs sample_db))"
    by (rule destructive_requests_are_guarded [OF _ n, where tf = plain_time and fail = "\<lambda>_. None" and now = 0 and invalid = "[]" and resp = resp
          and word = "''DELETE''" and valid_date = "\<lambda>_. True"])
      (use d in simp)
  then show ?thesis using d n by blast
qed

end
