(* ===== verification/AuditTrail.thy ===== *)
theory AuditTrail
  imports Http Services "HOL-Library.List_Lexorder" "HOL-Library.Char_ord"
begin

text \<open>
  \<^verbatim>\<open>internal/store/audit.go\<close>: the audit log of key changes, an append-only table.  \<^verbatim>\<open>ORDER BY ... DESC\<close> leaves the
  order of equal times open; \<open>newest_first\<close> puts the later row first.
\<close>

record AuditEntry =
  ae_id :: int
  ae_provider_key_id :: int
  ae_action :: string
  ae_performed_by :: string
  ae_performed_at :: string
  ae_detail :: string

record AuditLog =
  al_rows :: "AuditEntry list"
  al_next_id :: int

definition audit_record ::
  "error_text option \<Rightarrow> time_format \<Rightarrow> go_time \<Rightarrow> int \<Rightarrow> string \<Rightarrow> string \<Rightarrow> string \<Rightarrow> AuditLog
   \<Rightarrow> error_text option \<times> AuditLog" where
  "audit_record fail tf now keyID action performedBy detail a =
     (case fail of
        Some e \<Rightarrow> (Some ((bytes [234, 176, 144, 236, 130, 172, 32, 235, 161, 156, 234, 183, 184, 32, 234, 184, 176, 235, 161, 157, 32, 236, 139, 164, 237, 140, 168, 58, 32]) @ e), a)
      | None \<Rightarrow>
          (None, \<lparr>al_rows = al_rows a @ [\<lparr>ae_id = al_next_id a, ae_provider_key_id = keyID,
                    ae_action = action, ae_performed_by = performedBy,
                    ae_performed_at = tf_format tf now, ae_detail = detail\<rparr>],
                  al_next_id = al_next_id a + 1\<rparr>))"

definition newest_first :: "('a \<Rightarrow> string) \<Rightarrow> 'a list \<Rightarrow> 'a list" where
  "newest_first key rows = rev (sort_key key rows)"

definition audit_list :: "error_text option \<Rightarrow> int \<Rightarrow> AuditLog \<Rightarrow> error_text + AuditEntry list" where
  "audit_list fail limit a =
     (let limit = (if limit \<le> 0 then 100 else limit) in
      case fail of
        Some e \<Rightarrow> Inl ((bytes [234, 176, 144, 236, 130, 172, 32, 235, 161, 156, 234, 183, 184, 32, 236, 161, 176, 237, 154, 140, 32, 236, 139, 164, 237, 140, 168, 58, 32]) @ e)
      | None \<Rightarrow> Inr (take (nat limit) (newest_first ae_performed_at (al_rows a))))"

definition ListByKeyID :: "error_text option \<Rightarrow> int \<Rightarrow> AuditLog \<Rightarrow> error_text + AuditEntry list" where
  "ListByKeyID fail keyID a =
     (case fail of
        Some e \<Rightarrow> Inl ((bytes [234, 176, 144, 236, 130, 172, 32, 235, 161, 156, 234, 183, 184, 32, 236, 161, 176, 237, 154, 140, 32, 236, 139, 164, 237, 140, 168, 58, 32]) @ e)
      | None \<Rightarrow> Inr (newest_first ae_performed_at (filter (\<lambda>e. ae_provider_key_id e = keyID) (al_rows a))))"

text \<open>The log only grows.\<close>

lemma audit_record_appends:
  "\<exists>es. al_rows (snd (audit_record fail tf now k a p d lg)) = al_rows lg @ es \<and> length es \<le> 1"
  by (auto simp: audit_record_def split: option.split)

lemma newest_first_set [simp]: "set (newest_first key rows) = set rows"
  by (simp add: newest_first_def)

lemma newest_first_sorted: "sorted_wrt (\<lambda>a b. key b \<le> key a) (newest_first key rows)"
  unfolding newest_first_def sorted_wrt_rev
  using sorted_sort_key [of key rows] by (simp add: sorted_wrt_map)

lemma audit_list_bound: "audit_list fail limit a = Inr es \<Longrightarrow> length es \<le> nat (if limit \<le> 0 then 100 else limit)"
  by (auto simp: audit_list_def Let_def split: option.splits)

definition audit_json :: "AuditEntry \<Rightarrow> json" where
  "audit_json e = JObj [(''id'', JInt (ae_id e)), (''provider_key_id'', JInt (ae_provider_key_id e)),
     (''action'', JStr (ae_action e)), (''performed_by'', JStr (ae_performed_by e)),
     (''performed_at'', JStr (ae_performed_at e)), (''detail'', JStr (ae_detail e))]"

end
