(* ===== verification/Crypto.thy ===== *)
theory Crypto
  imports Prelude
begin

text \<open>
  \<^verbatim>\<open>internal/crypto\<close>: hexadecimal keys, the AES-256-GCM encryptor and client secrets.  The package's
  primitives are arguments: AES-GCM (\<open>aead\<close>), SHA-256, bcrypt and the random source.  What the code
  relies on is stated where it is used: opening undoes sealing and accepts nothing else for the
  same key and nonce, a digest has 32 bytes, and bcrypt accepts a password it has hashed.
\<close>

subsection \<open>encoding/hex\<close>

definition hex_byte :: "char \<Rightarrow> string" where
  "hex_byte c = (let n = (of_char c :: nat) in [hex_digit (n div 16), hex_digit (n mod 16)])"

definition hex_encode :: "string \<Rightarrow> string" where
  "hex_encode bs = concat (map hex_byte bs)"

definition hex_value :: "char \<Rightarrow> nat option" where
  "hex_value c =
     (let n = (of_char c :: nat) in
      if 48 \<le> n \<and> n \<le> 57 then Some (n - 48)
      else if 97 \<le> n \<and> n \<le> 102 then Some (n - 87)
      else if 65 \<le> n \<and> n \<le> 70 then Some (n - 55)
      else None)"

text \<open>The two errors of \<^verbatim>\<open>DecodeString\<close> and their texts (the first with the verb \<^verbatim>\<open>%#U\<close>).\<close>

datatype hex_error = InvalidByte char | OddLength

definition upper_hex :: "nat \<Rightarrow> char" where
  "upper_hex n = char_of (if n < 10 then 48 + n else 55 + n)"

definition show_rune :: "char \<Rightarrow> string" where
  "show_rune c =
     (let n = (of_char c :: nat);
          utf8 = (if n < 128 then [c] else [char_of (192 + n div 64), char_of (128 + n mod 64)]);
          printable = (32 \<le> n \<and> n < 127) \<or> (161 \<le> n \<and> n \<noteq> 173)
      in ''U+00'' @ [upper_hex (n div 16), upper_hex (n mod 16)] @
         (if printable then bytes [32, 39] @ utf8 @ bytes [39] else []))"

definition hex_error_text :: "hex_error \<Rightarrow> error_text" where
  "hex_error_text e = (case e of
     InvalidByte c \<Rightarrow> ''encoding/hex: invalid byte: '' @ show_rune c
   | OddLength \<Rightarrow> ''encoding/hex: odd length hex string'')"

fun hex_decode :: "string \<Rightarrow> hex_error + string" where
  "hex_decode [] = Inr []"
| "hex_decode [c] = (if hex_value c = None then Inl (InvalidByte c) else Inl OddLength)"
| "hex_decode (c # d # s) =
     (case hex_value c of
        None \<Rightarrow> Inl (InvalidByte c)
      | Some a \<Rightarrow>
          (case hex_value d of
             None \<Rightarrow> Inl (InvalidByte d)
           | Some b \<Rightarrow>
               (case hex_decode s of Inl e \<Rightarrow> Inl e | Inr bs \<Rightarrow> Inr (char_of (16 * a + b) # bs))))"

lemma hex_value_digit: "n < 16 \<Longrightarrow> hex_value (hex_digit n) = Some n"
  by (auto simp: hex_value_def hex_digit_def of_char_of Let_def)

lemma of_char_less [simp]: "(of_char (c :: char) :: nat) < 256"
  by (metis of_char_mod_256 mod_less_divisor zero_less_numeral)

lemma hex_encode_Cons: "hex_encode (c # s) = hex_byte c @ hex_encode s"
  by (simp add: hex_encode_def)

lemma length_hex_encode [simp]: "length (hex_encode bs) = 2 * length bs"
  by (induction bs) (simp_all add: hex_encode_def hex_byte_def Let_def)

lemma hex_roundtrip [simp]: "hex_decode (hex_encode bs) = Inr bs"
proof (induction bs)
  case (Cons c bs)
  let ?n = "of_char c :: nat"
  have "?n div 16 < 16" using of_char_less [of c] by (simp add: div_less_iff_less_mult)
  then have "hex_decode (hex_encode (c # bs)) = Inr (char_of (16 * (?n div 16) + ?n mod 16) # bs)"
    using Cons by (simp add: hex_encode_Cons hex_byte_def hex_value_digit Let_def)
  then show ?case by simp
qed (simp add: hex_encode_def)

lemma hex_decode_length: "hex_decode s = Inr bs \<Longrightarrow> length s = 2 * length bs"
  by (induction s arbitrary: bs rule: hex_decode.induct) (auto split: if_splits option.splits sum.splits)

subsection \<open>The encryptor\<close>

record aead =
  aead_seal :: "string \<Rightarrow> string \<Rightarrow> string \<Rightarrow> string" \<comment> \<open>key, nonce, plaintext\<close>
  aead_open :: "string \<Rightarrow> string \<Rightarrow> string \<Rightarrow> error_text + string" \<comment> \<open>key, nonce, ciphertext\<close>
  aead_nonce_size :: nat

text \<open>The state of a \<^verbatim>\<open>cipher.AEAD\<close> is its key.\<close>

record Encryptor =
  enc_key :: string

definition NewEncryptor :: "string \<Rightarrow> error_text + Encryptor" where
  "NewEncryptor hexKey =
     (case hex_decode hexKey of
        Inl e \<Rightarrow> Inl (bytes [236, 149, 148, 237, 152, 184, 237, 153, 148, 32, 237, 130, 164, 32, 235, 148, 148, 236, 189, 148, 235, 148, 169, 32, 236, 139, 164, 237, 140, 168, 58, 32] @ hex_error_text e)
      | Inr key \<Rightarrow>
          if length key \<noteq> 32
          then Inl (bytes [236, 149, 148, 237, 152, 184, 237, 153, 148, 32, 237, 130, 164, 235, 138, 148, 32, 51, 50, 235, 176, 148, 236, 157, 180, 237, 138, 184, 40, 104, 101, 120, 32, 54, 52, 236, 158, 144, 41, 236, 151, 172, 236, 149, 188, 32, 237, 149, 169, 235, 139, 136, 235, 139, 164, 32, 40, 237, 152, 132, 236, 158, 172, 58, 32] @ show_nat (length key) @ bytes [235, 176, 148, 236, 157, 180, 237, 138, 184, 41])
          else Inr \<lparr>enc_key = key\<rparr>)"

text \<open>\<open>rand\<close> is what \<^verbatim>\<open>io.ReadFull\<close> gives: the bytes asked for, or an error.\<close>

definition Encrypt :: "aead \<Rightarrow> error_text + string \<Rightarrow> Encryptor \<Rightarrow> string \<Rightarrow> error_text + string" where
  "Encrypt a rand e plaintext =
     (case rand of
        Inl err \<Rightarrow> Inl (bytes [235, 133, 188, 236, 138, 164, 32, 236, 131, 157, 236, 132, 177, 32, 236, 139, 164, 237, 140, 168, 58, 32] @ err)
      | Inr nonce \<Rightarrow> Inr (nonce @ aead_seal a (enc_key e) nonce plaintext))"

definition Decrypt :: "aead \<Rightarrow> Encryptor \<Rightarrow> string \<Rightarrow> error_text + string" where
  "Decrypt a e ciphertext =
     (let nonceSize = aead_nonce_size a in
      if length ciphertext < nonceSize then Inl (bytes [236, 149, 148, 237, 152, 184, 235, 172, 184, 236, 157, 180, 32, 235, 132, 136, 235, 172, 180, 32, 236, 167, 167, 236, 138, 181, 235, 139, 136, 235, 139, 164])
      else (case aead_open a (enc_key e) (take nonceSize ciphertext) (drop nonceSize ciphertext) of
              Inl err \<Rightarrow> Inl (bytes [235, 179, 181, 237, 152, 184, 237, 153, 148, 32, 236, 139, 164, 237, 140, 168, 58, 32] @ err)
            | Inr plaintext \<Rightarrow> Inr plaintext))"

definition GenerateKey :: "error_text + string \<Rightarrow> error_text + string" where
  "GenerateKey rand =
     (case rand of Inl err \<Rightarrow> Inl (bytes [237, 130, 164, 32, 236, 131, 157, 236, 132, 177, 32, 236, 139, 164, 237, 140, 168, 58, 32] @ err) | Inr key \<Rightarrow> Inr (hex_encode key))"

definition aead_ok :: "aead \<Rightarrow> bool" where
  "aead_ok a \<longleftrightarrow> (\<forall>k n c p. aead_open a k n c = Inr p \<longleftrightarrow> c = aead_seal a k n p)"

text \<open>
  C29. Keys and ciphertexts round trip: a key made by \<^verbatim>\<open>GenerateKey\<close> is accepted by \<^verbatim>\<open>NewEncryptor\<close>, and for
  every accepted key \<^verbatim>\<open>Decrypt\<close> returns a plaintext exactly for the outputs that \<^verbatim>\<open>Encrypt\<close> can
  produce for it, so an altered text or nonce is an error unless it is another such output.
\<close>

theorem encryption_roundtrip:
  assumes "aead_ok a" and "length key = 32"
  shows "\<exists>hexKey e. GenerateKey (Inr key) = Inr hexKey \<and> length hexKey = 64 \<and> NewEncryptor hexKey = Inr e \<and>
    (\<forall>c p. Decrypt a e c = Inr p \<longleftrightarrow>
       (\<exists>nonce. length nonce = aead_nonce_size a \<and> Encrypt a (Inr nonce) e p = Inr c))"
proof -
  have "Decrypt a \<lparr>enc_key = key\<rparr> c = Inr p \<longleftrightarrow>
      (\<exists>nonce. length nonce = aead_nonce_size a \<and> Encrypt a (Inr nonce) \<lparr>enc_key = key\<rparr> p = Inr c)" for c p
  proof
    assume d: "Decrypt a \<lparr>enc_key = key\<rparr> c = Inr p"
    then have "drop (aead_nonce_size a) c = aead_seal a key (take (aead_nonce_size a) c) p"
      and "aead_nonce_size a \<le> length c"
      using assms(1) by (auto simp: Decrypt_def aead_ok_def Let_def split: if_splits sum.splits)
    then show "\<exists>nonce. length nonce = aead_nonce_size a \<and> Encrypt a (Inr nonce) \<lparr>enc_key = key\<rparr> p = Inr c"
      by (intro exI [of _ "take (aead_nonce_size a) c"])
        (simp add: Encrypt_def, metis append_take_drop_id)
  next
    assume "\<exists>nonce. length nonce = aead_nonce_size a \<and> Encrypt a (Inr nonce) \<lparr>enc_key = key\<rparr> p = Inr c"
    moreover have "aead_open a key n (aead_seal a key n p) = Inr p" for n
      using assms(1) by (simp add: aead_ok_def)
    ultimately show "Decrypt a \<lparr>enc_key = key\<rparr> c = Inr p"
      by (auto simp: Encrypt_def Decrypt_def Let_def)
  qed
  then show ?thesis
    using assms(2) by (simp add: GenerateKey_def NewEncryptor_def)
qed

text \<open>The shape of an authenticated cipher, for the instance below only.\<close>

definition sample_aead :: aead where
  "sample_aead = \<lparr>aead_seal = (\<lambda>k n p. ''T'' @ p),
     aead_open = (\<lambda>k n c. case c of [] \<Rightarrow> Inl ''cipher: message authentication failed''
       | t # p \<Rightarrow> if t = CHR ''T'' then Inr p else Inl ''cipher: message authentication failed''),
     aead_nonce_size = 12\<rparr>"

theorem encryption_roundtrip_witness:
  "\<exists>hexKey e. GenerateKey (Inr (replicate 32 CHR ''k'')) = Inr hexKey \<and> length hexKey = 64 \<and>
    NewEncryptor hexKey = Inr e \<and>
    (\<forall>c p. Decrypt sample_aead e c = Inr p \<longleftrightarrow>
       (\<exists>nonce. length nonce = aead_nonce_size sample_aead \<and> Encrypt sample_aead (Inr nonce) e p = Inr c))"
  by (rule encryption_roundtrip) (auto simp: aead_ok_def sample_aead_def split: list.splits)

subsection \<open>Client secrets\<close>

definition clientSecretPrefix :: string where
  "clientSecretPrefix = ''ezs_''"

definition GenerateClientSecret :: "error_text + string \<Rightarrow> error_text + string" where
  "GenerateClientSecret rand =
     (case rand of
        Inl err \<Rightarrow> Inl (bytes [236, 139, 156, 237, 129, 172, 235, 166, 191, 32, 236, 131, 157, 236, 132, 177, 32, 236, 139, 164, 237, 140, 168, 58, 32] @ err)
      | Inr b \<Rightarrow> Inr (clientSecretPrefix @ hex_encode b))"

record hashes =
  sha256 :: "string \<Rightarrow> string"
  bcrypt_generate :: "string \<Rightarrow> error_text + string" \<comment> \<open>with the salt it draws\<close>
  bcrypt_compare :: "string \<Rightarrow> string \<Rightarrow> bool" \<comment> \<open>hash, password\<close>

definition HashSecret :: "hashes \<Rightarrow> string \<Rightarrow> error_text + string" where
  "HashSecret h secret =
     (case bcrypt_generate h secret of
        Inl err \<Rightarrow> Inl (bytes [236, 139, 156, 237, 129, 172, 235, 166, 191, 32, 237, 149, 180, 236, 139, 177, 32, 236, 139, 164, 237, 140, 168, 58, 32] @ err)
      | Inr hash \<Rightarrow> Inr hash)"

text \<open>The loop ranges over runes; a byte of a longer rune is no hexadecimal digit either.\<close>

fun all_hex :: "string \<Rightarrow> bool" where
  "all_hex [] = True"
| "all_hex (c # s) =
     (let n = (of_char c :: nat) in
      if \<not> ((48 \<le> n \<and> n \<le> 57) \<or> (97 \<le> n \<and> n \<le> 102) \<or> (65 \<le> n \<and> n \<le> 70)) then False else all_hex s)"

definition isHexString :: "string \<Rightarrow> bool" where
  "isHexString s = (if length s = 0 then False else all_hex s)"

definition CompareSecretHash :: "hashes \<Rightarrow> string \<Rightarrow> string \<Rightarrow> bool" where
  "CompareSecretHash h secret storedHash =
     (if length storedHash = 64 \<and> isHexString storedHash
      then hex_encode (sha256 h secret) = storedHash
      else bcrypt_compare h storedHash secret)"

text \<open>
  The documented behaviour: digests have 32 bytes; bcrypt refuses passwords of more than 72 bytes, its
  hashes have 60 characters, and it accepts the password a hash was made from.
\<close>

definition hashes_ok :: "hashes \<Rightarrow> bool" where
  "hashes_ok h \<longleftrightarrow> (\<forall>s. length (sha256 h s) = 32) \<and>
     (\<forall>s. length s \<le> 72 \<longrightarrow> (\<exists>x. bcrypt_generate h s = Inr x \<and> length x = 60 \<and> bcrypt_compare h x s))"

lemma all_hex_iff: "all_hex s \<longleftrightarrow> (\<forall>c \<in> set s. hex_value c \<noteq> None)"
  by (induction s) (auto simp: hex_value_def Let_def)

lemma hex_encode_chars: "c \<in> set (hex_encode bs) \<Longrightarrow> \<exists>n < 16. c = hex_digit n"
proof (induction bs)
  case (Cons b bs)
  have "(of_char b :: nat) div 16 < 16" using of_char_less [of b] by (simp add: div_less_iff_less_mult)
  then have "\<exists>n < 16. hex_digit (of_char b div 16) = hex_digit n" by blast
  moreover have "\<exists>n < 16. hex_digit (of_char b mod 16) = hex_digit n"
    by (rule exI [of _ "of_char b mod 16"]) simp
  ultimately show ?case using Cons by (auto simp: hex_encode_Cons hex_byte_def Let_def)
qed (simp add: hex_encode_def)

lemma isHexString_encode: "bs \<noteq> [] \<Longrightarrow> isHexString (hex_encode bs)"
  using hex_encode_chars hex_value_digit
  by (auto simp: isHexString_def all_hex_iff hex_encode_def hex_byte_def Let_def) fastforce+

lemma generated_secret:
  assumes "hashes_ok h" and "length b = 32"
  shows "\<exists>secret hash. GenerateClientSecret (Inr b) = Inr secret \<and> length secret = 68 \<and>
    has_prefix secret clientSecretPrefix \<and> HashSecret h secret = Inr hash \<and>
    CompareSecretHash h secret hash \<and> CompareSecretHash h secret (hex_encode (sha256 h secret))"
proof -
  let ?s = "clientSecretPrefix @ hex_encode b"
  have len: "length ?s = 68" using assms(2) by (simp add: clientSecretPrefix_def)
  then have "\<exists>x. bcrypt_generate h ?s = Inr x \<and> length x = 60 \<and> bcrypt_compare h x ?s"
    using assms(1) unfolding hashes_ok_def by auto
  then obtain x where x: "bcrypt_generate h ?s = Inr x" "length x = 60" "bcrypt_compare h x ?s" by blast
  have d: "length (sha256 h ?s) = 32" using assms(1) by (simp add: hashes_ok_def)
  then have "isHexString (hex_encode (sha256 h ?s))" by (intro isHexString_encode) auto
  then show ?thesis
    using len x d by (simp add: GenerateClientSecret_def HashSecret_def CompareSecretHash_def has_prefix_def)
qed

text \<open>
  A new client secret always works: it is \<^verbatim>\<open>ezs_\<close> and 64 hexadecimal digits, 68 bytes, within the limit of
  bcrypt and long enough for the 12-byte prefix the handlers cut off; the hash stored for it is
  accepted for it, and so is a legacy SHA-256 hash of it.
\<close>

theorem new_secret_verifies:
  assumes "hashes_ok h" and "length b = 32"
  shows "\<exists>secret hash. GenerateClientSecret (Inr b) = Inr secret \<and> length secret = 68 \<and>
    has_prefix secret clientSecretPrefix \<and> HashSecret h secret = Inr hash \<and>
    CompareSecretHash h secret hash \<and> CompareSecretHash h secret (hex_encode (sha256 h secret))"
  by (rule generated_secret [OF assms])

definition sample_hashes :: hashes where
  "sample_hashes = \<lparr>sha256 = (\<lambda>s. take 32 (s @ replicate 32 CHR ''0'')),
     bcrypt_generate = (\<lambda>s. if length s > 72 then Inl ''bcrypt: password length exceeds 72 bytes''
       else Inr (''$'' @ take 59 (s @ replicate 59 CHR ''0''))),
     bcrypt_compare = (\<lambda>h s. h = ''$'' @ take 59 (s @ replicate 59 CHR ''0''))\<rparr>"

lemma sample_hashes_ok: "hashes_ok sample_hashes"
  by (auto simp: hashes_ok_def sample_hashes_def min_def)

theorem new_secret_verifies_witness:
  "\<exists>secret hash. GenerateClientSecret (Inr (replicate 32 CHR ''r'')) = Inr secret \<and> length secret = 68 \<and>
    has_prefix secret clientSecretPrefix \<and> HashSecret sample_hashes secret = Inr hash \<and>
    CompareSecretHash sample_hashes secret hash \<and>
    CompareSecretHash sample_hashes secret (hex_encode (sha256 sample_hashes secret))"
  by (rule new_secret_verifies [OF sample_hashes_ok]) simp

text \<open>
  \<^verbatim>\<open>isHexString\<close> accepts upper-case digits, but the digest it is compared with is written in lower
  case: a stored legacy hash with an upper-case digit accepts no secret at all.
\<close>

lemma hex_digit_lower:
  assumes "n < 16" and "hex_digit n = c"
  shows "\<not> (65 \<le> (of_char c :: nat) \<and> (of_char c :: nat) \<le> 70)"
  using assms by (auto simp: hex_digit_def of_char_of split: if_splits)

lemma upper_case_legacy_hash_rejected:
  assumes "length storedHash = 64" and "isHexString storedHash"
    and "c \<in> set storedHash" and "65 \<le> (of_char c :: nat)" and "(of_char c :: nat) \<le> 70"
  shows "\<not> CompareSecretHash h secret storedHash"
  using assms hex_encode_chars hex_digit_lower by (auto simp: CompareSecretHash_def)

end
