(* ===== verification/KeyStore.thy ===== *)
theory KeyStore
  imports AuditTrail Crypto "HOL-Library.Product_Lexorder"
begin

text \<open>
  \<^verbatim>\<open>internal/store/keystore.go\<close>: the encrypted API keys of the providers.  The table has a unique index on
  provider and key name (migration 001), which every insertion has to respect.  \<open>fail\<close> arguments are
  errors of the database, one for each statement.
\<close>

record ProviderKey =
  pk_id :: int
  pk_provider :: string
  pk_key_name :: string
  pk_key_type :: string
  pk_is_active :: bool
  pk_created_at :: string
  pk_updated_at :: string

text \<open>A row has the encrypted value besides.\<close>

record key_row = ProviderKey +
  pk_encrypted :: string

record KeyStore =
  kst_rows :: "key_row list"
  kst_next_id :: int
  kst_encryptor :: Encryptor

text \<open>Errors that \<^verbatim>\<open>errors.Is(err, sql.ErrNoRows)\<close> recognises, and others.\<close>

datatype db_error = NoRows error_text | DBError error_text

fun db_error_text :: "db_error \<Rightarrow> error_text" where
  "db_error_text (NoRows e) = e"
| "db_error_text (DBError e) = e"

fun wrap_db_error :: "error_text \<Rightarrow> db_error \<Rightarrow> db_error" where
  "wrap_db_error w (NoRows e) = NoRows (w @ e)"
| "wrap_db_error w (DBError e) = DBError (w @ e)"

definition no_rows_text :: error_text where
  "no_rows_text = ''sql: no rows in result set''"

record crypto_env =
  cr_aead :: aead
  cr_rand :: "error_text + string"
  cr_time :: time_format

definition row_key :: "key_row \<Rightarrow> ProviderKey" where
  "row_key r = \<lparr>pk_id = pk_id r, pk_provider = pk_provider r, pk_key_name = pk_key_name r,
     pk_key_type = pk_key_type r, pk_is_active = pk_is_active r, pk_created_at = pk_created_at r,
     pk_updated_at = pk_updated_at r\<rparr>"

definition find_named :: "KeyStore \<Rightarrow> string \<Rightarrow> string \<Rightarrow> key_row option" where
  "find_named ks provider keyName =
     List.find (\<lambda>r. pk_provider r = provider \<and> pk_key_name r = keyName) (kst_rows ks)"

definition find_id :: "KeyStore \<Rightarrow> int \<Rightarrow> key_row option" where
  "find_id ks id' = List.find (\<lambda>r. pk_id r = id') (kst_rows ks)"

definition update_key_rows :: "(key_row \<Rightarrow> bool) \<Rightarrow> (key_row \<Rightarrow> key_row) \<Rightarrow> KeyStore \<Rightarrow> KeyStore" where
  "update_key_rows P f ks = ks\<lparr>kst_rows := map (\<lambda>r. if P r then f r else r) (kst_rows ks)\<rparr>"

definition unique_violation :: error_text where
  "unique_violation = ''UNIQUE constraint failed: provider_keys.provider, provider_keys.key_name''"

text \<open>The \<^verbatim>\<open>INSERT\<close> of both \<^verbatim>\<open>Create\<close> and \<^verbatim>\<open>Rotate\<close>.\<close>

definition insert_key ::
  "error_text option \<Rightarrow> string \<Rightarrow> string \<Rightarrow> string \<Rightarrow> string \<Rightarrow> string \<Rightarrow> KeyStore \<Rightarrow> error_text + (int \<times> KeyStore)" where
  "insert_key fail provider keyName encrypted keyType now ks =
     (case fail of
        Some e \<Rightarrow> Inl e
      | None \<Rightarrow>
          if find_named ks provider keyName \<noteq> None then Inl unique_violation
          else Inr (kst_next_id ks,
            ks\<lparr>kst_rows := kst_rows ks @ [\<lparr>pk_id = kst_next_id ks, pk_provider = provider,
                  pk_key_name = keyName, pk_key_type = keyType, pk_is_active = True,
                  pk_created_at = now, pk_updated_at = now, pk_encrypted = encrypted\<rparr>],
               kst_next_id := kst_next_id ks + 1\<rparr>))"

definition new_provider_key :: "int \<Rightarrow> string \<Rightarrow> string \<Rightarrow> string \<Rightarrow> string \<Rightarrow> ProviderKey" where
  "new_provider_key id' provider keyName keyType now =
     \<lparr>pk_id = id', pk_provider = provider, pk_key_name = keyName, pk_key_type = keyType,
      pk_is_active = True, pk_created_at = now, pk_updated_at = now\<rparr>"

definition KeyStore_Create ::
  "crypto_env \<Rightarrow> error_text option \<Rightarrow> error_text option \<Rightarrow> go_time \<Rightarrow> string \<Rightarrow> string \<Rightarrow> string \<Rightarrow> string
   \<Rightarrow> KeyStore \<Rightarrow> (error_text + ProviderKey) \<times> KeyStore" where
  "KeyStore_Create env failQuery failExec nowt provider keyName keyValue keyType ks =
     (case Encrypt (cr_aead env) (cr_rand env) (kst_encryptor ks) keyValue of
        Inl e \<Rightarrow> (Inl ((bytes [237, 130, 164, 32, 236, 149, 148, 237, 152, 184, 237, 153, 148, 32, 236, 139, 164, 237, 140, 168, 58, 32]) @ e), ks)
      | Inr encrypted \<Rightarrow>
          (let now = tf_format (cr_time env) nowt in
           case (if failQuery = None then find_named ks provider keyName else None) of
             Some existing \<Rightarrow>
               (case failExec of
                  Some e \<Rightarrow> (Inl ((bytes [237, 130, 164, 32, 236, 151, 133, 235, 141, 176, 236, 157, 180, 237, 138, 184, 32, 236, 139, 164, 237, 140, 168, 58, 32]) @ e), ks)
                | None \<Rightarrow>
                    (Inr (new_provider_key (pk_id existing) provider keyName keyType now),
                     update_key_rows (\<lambda>r. pk_id r = pk_id existing)
                       (\<lambda>r. r\<lparr>pk_encrypted := encrypted, pk_key_type := keyType, pk_is_active := True,
                              pk_updated_at := now\<rparr>) ks))
           | None \<Rightarrow>
               (case insert_key failExec provider keyName encrypted keyType now ks of
                  Inl e \<Rightarrow> (Inl ((bytes [237, 130, 164, 32, 235, 147, 177, 235, 161, 157, 32, 236, 139, 164, 237, 140, 168, 58, 32]) @ e), ks)
                | Inr (id', ks') \<Rightarrow> (Inr (new_provider_key id' provider keyName keyType now), ks'))))"

definition KeyStore_Get ::
  "crypto_env \<Rightarrow> error_text option \<Rightarrow> int \<Rightarrow> KeyStore \<Rightarrow> db_error + (ProviderKey \<times> string)" where
  "KeyStore_Get env fail id' ks =
     (case fail of
        Some e \<Rightarrow> Inl (DBError ((bytes [237, 130, 164, 32, 236, 161, 176, 237, 154, 140, 32, 236, 139, 164, 237, 140, 168, 58, 32]) @ e))
      | None \<Rightarrow>
          (case find_id ks id' of
             None \<Rightarrow> Inl (NoRows ((bytes [237, 130, 164, 32, 236, 161, 176, 237, 154, 140, 32, 236, 139, 164, 237, 140, 168, 58, 32]) @ no_rows_text))
           | Some r \<Rightarrow>
               (case Decrypt (cr_aead env) (kst_encryptor ks) (pk_encrypted r) of
                  Inl e \<Rightarrow> Inl (DBError ((bytes [237, 130, 164, 32, 235, 179, 181, 237, 152, 184, 237, 153, 148, 32, 236, 139, 164, 237, 140, 168, 58, 32]) @ e))
                | Inr v \<Rightarrow> Inr (row_key r, v))))"

definition no_active_key :: "string \<Rightarrow> error_text" where
  "no_active_key provider = (bytes [237, 148, 132, 235, 161, 156, 235, 176, 148, 236, 157, 180, 235, 141, 148, 32, 39]) @ provider @ (bytes [39, 236, 151, 144, 32, 235, 140, 128, 237, 149, 156, 32, 237, 153, 156, 236, 132, 177, 32, 237, 130, 164, 234, 176, 128, 32, 236, 151, 134, 236, 138, 181, 235, 139, 136, 235, 139, 164])"

definition newest_active :: "KeyStore \<Rightarrow> string \<Rightarrow> key_row option" where
  "newest_active ks provider =
     (case newest_first pk_updated_at
             (filter (\<lambda>r. pk_provider r = provider \<and> pk_is_active r) (kst_rows ks)) of
        [] \<Rightarrow> None | r # _ \<Rightarrow> Some r)"

definition GetActiveByProviderWithID ::
  "crypto_env \<Rightarrow> error_text option \<Rightarrow> string \<Rightarrow> KeyStore \<Rightarrow> error_text + (int \<times> string)" where
  "GetActiveByProviderWithID env fail provider ks =
     (case fail of
        Some e \<Rightarrow> Inl ((bytes [237, 130, 164, 32, 236, 161, 176, 237, 154, 140, 32, 236, 139, 164, 237, 140, 168, 58, 32]) @ e)
      | None \<Rightarrow>
          (case newest_active ks provider of
             None \<Rightarrow> Inl (no_active_key provider)
           | Some r \<Rightarrow>
               (case Decrypt (cr_aead env) (kst_encryptor ks) (pk_encrypted r) of
                  Inl e \<Rightarrow> Inl ((bytes [237, 130, 164, 32, 235, 179, 181, 237, 152, 184, 237, 153, 148, 32, 236, 139, 164, 237, 140, 168, 58, 32]) @ e)
                | Inr v \<Rightarrow> Inr (pk_id r, v))))"

definition GetActiveByProvider ::
  "crypto_env \<Rightarrow> error_text option \<Rightarrow> string \<Rightarrow> KeyStore \<Rightarrow> error_text + string" where
  "GetActiveByProvider env fail provider ks =
     (case fail of
        Some e \<Rightarrow> Inl ((bytes [237, 130, 164, 32, 236, 161, 176, 237, 154, 140, 32, 236, 139, 164, 237, 140, 168, 58, 32]) @ e)
      | None \<Rightarrow>
          (case newest_active ks provider of
             None \<Rightarrow> Inl (no_active_key provider)
           | Some r \<Rightarrow>
               (case Decrypt (cr_aead env) (kst_encryptor ks) (pk_encrypted r) of
                  Inl e \<Rightarrow> Inl ((bytes [237, 130, 164, 32, 235, 179, 181, 237, 152, 184, 237, 153, 148, 32, 236, 139, 164, 237, 140, 168, 58, 32]) @ e)
                | Inr v \<Rightarrow> Inr v)))"

definition KeyStore_List :: "error_text option \<Rightarrow> KeyStore \<Rightarrow> error_text + ProviderKey list" where
  "KeyStore_List fail ks =
     (case fail of
        Some e \<Rightarrow> Inl ((bytes [237, 130, 164, 32, 235, 170, 169, 235, 161, 157, 32, 236, 161, 176, 237, 154, 140, 32, 236, 139, 164, 237, 140, 168, 58, 32]) @ e)
      | None \<Rightarrow> Inr (map row_key (sort_key (\<lambda>r. (pk_provider r, pk_key_name r)) (kst_rows ks))))"

definition KeyStore_Update ::
  "crypto_env \<Rightarrow> error_text option \<Rightarrow> go_time \<Rightarrow> int \<Rightarrow> string \<Rightarrow> KeyStore \<Rightarrow> db_error option \<times> KeyStore" where
  "KeyStore_Update env fail nowt id' newValue ks =
     (case Encrypt (cr_aead env) (cr_rand env) (kst_encryptor ks) newValue of
        Inl e \<Rightarrow> (Some (DBError ((bytes [237, 130, 164, 32, 236, 149, 148, 237, 152, 184, 237, 153, 148, 32, 236, 139, 164, 237, 140, 168, 58, 32]) @ e)), ks)
      | Inr encrypted \<Rightarrow>
          (case fail of
             Some e \<Rightarrow> (Some (DBError e), ks)
           | None \<Rightarrow> (None, update_key_rows (\<lambda>r. pk_id r = id')
               (\<lambda>r. r\<lparr>pk_encrypted := encrypted, pk_updated_at := tf_format (cr_time env) nowt\<rparr>) ks)))"

definition Reactivate ::
  "crypto_env \<Rightarrow> error_text option \<Rightarrow> go_time \<Rightarrow> int \<Rightarrow> KeyStore \<Rightarrow> db_error option \<times> KeyStore" where
  "Reactivate env fail nowt id' ks =
     (case fail of
        Some e \<Rightarrow> (Some (DBError e), ks)
      | None \<Rightarrow> (None, update_key_rows (\<lambda>r. pk_id r = id')
          (\<lambda>r. r\<lparr>pk_is_active := True, pk_updated_at := tf_format (cr_time env) nowt\<rparr>) ks))"

definition KeyStore_Deactivate ::
  "crypto_env \<Rightarrow> error_text option \<Rightarrow> go_time \<Rightarrow> int \<Rightarrow> KeyStore \<Rightarrow> error_text option \<times> KeyStore" where
  "KeyStore_Deactivate env fail nowt id' ks =
     (case fail of
        Some e \<Rightarrow> (Some e, ks)
      | None \<Rightarrow>
          if find_id ks id' = None
          then (Some ((bytes [237, 130, 164, 235, 165, 188, 32, 236, 176, 190, 236, 157, 132, 32, 236, 136, 152, 32, 236, 151, 134, 236, 138, 181, 235, 139, 136, 235, 139, 164, 32, 40, 105, 100, 61]) @ show_int id' @ '')''), ks)
          else (None, update_key_rows (\<lambda>r. pk_id r = id')
                 (\<lambda>r. r\<lparr>pk_is_active := False, pk_updated_at := tf_format (cr_time env) nowt\<rparr>) ks))"

text \<open>
  The transaction: \<open>failBegin\<close>, \<open>failUpdate\<close>, \<open>failInsert\<close> and \<open>failCommit\<close> are its steps' errors.  Every
  error rolls back, so the table is as before.
\<close>

definition KeyStore_Rotate ::
  "crypto_env \<Rightarrow> error_text option \<Rightarrow> error_text option \<Rightarrow> error_text option \<Rightarrow> error_text option \<Rightarrow> error_text option
   \<Rightarrow> go_time \<Rightarrow> int \<Rightarrow> string \<Rightarrow> KeyStore \<Rightarrow> (db_error + ProviderKey) \<times> KeyStore" where
  "KeyStore_Rotate env failGet failBegin failUpdate failInsert failCommit nowt id' newValue ks =
     (case KeyStore_Get env failGet id' ks of
        Inl e \<Rightarrow> (Inl e, ks)
      | Inr (key, _) \<Rightarrow>
          (case Encrypt (cr_aead env) (cr_rand env) (kst_encryptor ks) newValue of
             Inl e \<Rightarrow> (Inl (DBError ((bytes [237, 130, 164, 32, 236, 149, 148, 237, 152, 184, 237, 153, 148, 32, 236, 139, 164, 237, 140, 168, 58, 32]) @ e)), ks)
           | Inr encrypted \<Rightarrow>
               (let now = tf_format (cr_time env) nowt in
                case failBegin of
                  Some e \<Rightarrow> (Inl (DBError ((bytes [237, 138, 184, 235, 158, 156, 236, 158, 173, 236, 133, 152, 32, 236, 139, 156, 236, 158, 145, 32, 236, 139, 164, 237, 140, 168, 58, 32]) @ e)), ks)
                | None \<Rightarrow>
                    (case failUpdate of
                       Some e \<Rightarrow> (Inl (DBError ((bytes [234, 184, 176, 236, 161, 180, 32, 237, 130, 164, 32, 235, 185, 132, 237, 153, 156, 236, 132, 177, 237, 153, 148, 32, 236, 139, 164, 237, 140, 168, 58, 32]) @ e)), ks)
                     | None \<Rightarrow>
                         (let tx = update_key_rows (\<lambda>r. pk_id r = id')
                                (\<lambda>r. r\<lparr>pk_is_active := False, pk_updated_at := now\<rparr>) ks
                          in case insert_key failInsert (pk_provider key) (pk_key_name key) encrypted
                                    (pk_key_type key) now tx of
                               Inl e \<Rightarrow> (Inl (DBError ((bytes [236, 131, 136, 32, 237, 130, 164, 32, 235, 147, 177, 235, 161, 157, 32, 236, 139, 164, 237, 140, 168, 58, 32]) @ e)), ks)
                             | Inr (newID, tx') \<Rightarrow>
                                 (case failCommit of
                                    Some e \<Rightarrow> (Inl (DBError ((bytes [237, 138, 184, 235, 158, 156, 236, 158, 173, 236, 133, 152, 32, 236, 187, 164, 235, 176, 139, 32, 236, 139, 164, 237, 140, 168, 58, 32]) @ e)), ks)
                                  | None \<Rightarrow> (Inr (new_provider_key newID (pk_provider key) (pk_key_name key)
                                                (pk_key_type key) now), tx')))))))"

subsection \<open>Invariant\<close>

definition store_ok :: "KeyStore \<Rightarrow> bool" where
  "store_ok ks \<longleftrightarrow> distinct (map pk_id (kst_rows ks)) \<and>
     distinct (map (\<lambda>r. (pk_provider r, pk_key_name r)) (kst_rows ks)) \<and>
     (\<forall>i \<in> set (map pk_id (kst_rows ks)). i < kst_next_id ks)"

lemma find_named_None: "find_named ks p n = None \<longleftrightarrow> (p, n) \<notin> (\<lambda>r. (pk_provider r, pk_key_name r)) ` set (kst_rows ks)"
  by (auto simp: find_named_def find_None_iff)

lemma find_id_Some: "find_id ks i = Some r \<Longrightarrow> r \<in> set (kst_rows ks) \<and> pk_id r = i"
  by (auto simp: find_id_def find_Some_iff)

definition keeps_identity :: "(key_row \<Rightarrow> key_row) \<Rightarrow> bool" where
  "keeps_identity f \<longleftrightarrow> (\<forall>r. pk_id (f r) = pk_id r \<and> pk_provider (f r) = pk_provider r \<and> pk_key_name (f r) = pk_key_name r)"

lemma update_key_rows_maps:
  assumes "keeps_identity f"
  shows "map pk_id (kst_rows (update_key_rows P f ks)) = map pk_id (kst_rows ks)"
    and "map (\<lambda>r. (pk_provider r, pk_key_name r)) (kst_rows (update_key_rows P f ks)) =
      map (\<lambda>r. (pk_provider r, pk_key_name r)) (kst_rows ks)"
  using assms by (auto simp: update_key_rows_def keeps_identity_def)

lemma update_key_rows_ok:
  assumes "keeps_identity f" and "store_ok ks"
  shows "store_ok (update_key_rows P f ks)"
  using assms(2) unfolding store_ok_def update_key_rows_maps [OF assms(1)]
  by (simp add: update_key_rows_def)

lemma insert_key_ok: "store_ok ks \<Longrightarrow> insert_key f p n e t now ks = Inr (i, ks') \<Longrightarrow> store_ok ks'"
  by (auto simp: insert_key_def store_ok_def find_named_None less_le_not_le split: option.splits if_splits)
    (meson dual_order.irrefl less_imp_le order_le_less_trans zle_add1_eq_le)+

lemma update_find_named:
  assumes "keeps_identity f"
  shows "find_named (update_key_rows P f ks) p n = None \<longleftrightarrow> find_named ks p n = None"
  using arg_cong [OF update_key_rows_maps(2) [OF assms, of P ks], of set]
  unfolding find_named_None by simp

text \<open>
  C33. Rotating a provider's API key never succeeds: the new row repeats the provider and the name of
  the row it replaces, which the unique index forbids, so every call ends in an error and leaves the
  table as it was.
\<close>

theorem rotate_never_succeeds:
  "\<exists>e. KeyStore_Rotate env failGet failBegin failUpdate failInsert failCommit now id' newValue ks = (Inl e, ks)"
proof (cases "KeyStore_Get env failGet id' ks")
  case (Inr x)
  obtain key v where x: "x = (key, v)" by (cases x)
  obtain r where r: "r \<in> set (kst_rows ks)" "key = row_key r"
    using Inr x by (auto simp: KeyStore_Get_def split: option.splits sum.splits dest!: find_id_Some)
  have id: "keeps_identity (\<lambda>r. r\<lparr>pk_is_active := False, pk_updated_at := t\<rparr>)" for t
    by (simp add: keeps_identity_def)
  have "find_named ks (pk_provider key) (pk_key_name key) \<noteq> None"
    using r by (auto simp: find_named_None row_key_def)
  then have "find_named (update_key_rows P (\<lambda>r. r\<lparr>pk_is_active := False, pk_updated_at := t\<rparr>) ks)
      (pk_provider key) (pk_key_name key) \<noteq> None" for P t
    using update_find_named [OF id] by simp
  then show ?thesis
    using Inr x by (auto simp: KeyStore_Rotate_def insert_key_def Let_def split: sum.split option.split)
qed (simp add: KeyStore_Rotate_def)

subsection \<open>A stored key can be read back\<close>

lemma find_id_None: "find_id ks i = None \<longleftrightarrow> i \<notin> set (map pk_id (kst_rows ks))"
  by (auto simp: find_id_def find_None_iff)

lemma find_id_update:
  assumes "keeps_identity f"
  shows "find_id (update_key_rows P f ks) i = map_option (\<lambda>r. if P r then f r else r) (find_id ks i)"
proof -
  have "List.find (\<lambda>r. pk_id r = i) (map (\<lambda>r. if P r then f r else r) rows) =
      map_option (\<lambda>r. if P r then f r else r) (List.find (\<lambda>r. pk_id r = i) rows)" for rows
    using assms by (induction rows) (auto simp: keeps_identity_def)
  then show ?thesis by (simp add: find_id_def update_key_rows_def)
qed

lemma find_id_insert:
  assumes "store_ok ks" and "insert_key f p n e t now ks = Inr (i, ks')"
  shows "\<exists>r. find_id ks' i = Some r \<and> pk_encrypted r = e \<and> pk_provider r = p \<and> pk_key_name r = n \<and> pk_is_active r"
proof -
  have "find_id ks (kst_next_id ks) = None"
    using assms(1) unfolding find_id_None store_ok_def by blast
  moreover have "List.find P (xs @ [x]) = (case List.find P xs of None \<Rightarrow> if P x then Some x else None | Some y \<Rightarrow> Some y)"
    for P and xs :: "key_row list" and x
    by (induction xs) auto
  ultimately show ?thesis
    using assms(2) by (auto simp: insert_key_def find_id_def split: option.splits if_splits)
qed

lemma decrypt_encrypted:
  assumes "aead_ok a" and "cr_rand env = Inr nonce" and "length nonce = aead_nonce_size a"
    and "Encrypt a (cr_rand env) e v = Inr c"
  shows "Decrypt a e c = Inr v"
proof -
  have "aead_open a (enc_key e) nonce (aead_seal a (enc_key e) nonce v) = Inr v"
    using assms(1) by (simp add: aead_ok_def)
  then show ?thesis using assms(2-4) by (auto simp: Encrypt_def Decrypt_def Let_def)
qed

text \<open>The row that \<^verbatim>\<open>Create\<close> leaves behind; no other row appears.\<close>

definition key_names :: "KeyStore \<Rightarrow> (string \<times> string) set" where
  "key_names ks = (\<lambda>r. (pk_provider r, pk_key_name r)) ` set (kst_rows ks)"

lemma created_row:
  assumes "store_ok ks" and "aead_ok (cr_aead env)"
    and "cr_rand env = Inr nonce" and "length nonce = aead_nonce_size (cr_aead env)"
    and "KeyStore_Create env failQuery failExec now provider keyName keyValue keyType ks = (Inr key, ks')"
  shows "store_ok ks' \<and> kst_encryptor ks' = kst_encryptor ks \<and> key_names ks' = insert (provider, keyName) (key_names ks) \<and>
    (\<exists>r. find_id ks' (pk_id key) = Some r \<and> pk_provider r = provider \<and> pk_key_name r = keyName \<and> pk_is_active r \<and>
       Decrypt (cr_aead env) (kst_encryptor ks) (pk_encrypted r) = Inr keyValue)"
proof -
  obtain c where c: "Encrypt (cr_aead env) (cr_rand env) (kst_encryptor ks) keyValue = Inr c"
    using assms(5) by (auto simp: KeyStore_Create_def split: sum.splits)
  note dec = decrypt_encrypted [OF assms(2-4) c]
  show ?thesis
  proof (cases "if failQuery = None then find_named ks provider keyName else None")
    case None
    then obtain i where i: "insert_key failExec provider keyName c keyType (tf_format (cr_time env) now) ks = Inr (i, ks')"
      and key: "pk_id key = i"
      using assms(5) c by (auto simp: KeyStore_Create_def Let_def new_provider_key_def split: sum.splits)
    have "kst_encryptor ks' = kst_encryptor ks \<and> key_names ks' = insert (provider, keyName) (key_names ks)"
      using i by (auto simp: insert_key_def key_names_def split: option.splits if_splits)
    then show ?thesis
      using find_id_insert [OF assms(1) i] insert_key_ok [OF assms(1) i] dec key by auto
  next
    case (Some ex)
    then have ex: "ex \<in> set (kst_rows ks)" "pk_provider ex = provider" "pk_key_name ex = keyName"
      by (auto simp: find_named_def find_Some_iff split: if_splits)
    define f :: "key_row \<Rightarrow> key_row" where "f = (\<lambda>r. r\<lparr>pk_encrypted := c, pk_key_type := keyType, pk_is_active := True,
      pk_updated_at := tf_format (cr_time env) now\<rparr>)"
    have id: "keeps_identity f" by (simp add: keeps_identity_def f_def)
    have ks': "ks' = update_key_rows (\<lambda>r. pk_id r = pk_id ex) f ks" and key: "pk_id key = pk_id ex"
      using assms(5) c Some
      by (auto simp: KeyStore_Create_def Let_def new_provider_key_def f_def split: option.splits)
    obtain r where r: "find_id ks (pk_id ex) = Some r" using ex(1) find_id_None by (metis image_eqI list.set_map not_None_eq)
    then have "r = ex"
      using assms(1) ex(1) find_id_Some unfolding store_ok_def by (metis (mono_tags, lifting) distinct_map inj_onD)
    then have "find_id ks' (pk_id ex) = Some (f ex)"
      using r unfolding ks' find_id_update [OF id] by simp
    moreover have "store_ok ks'" unfolding ks' by (rule update_key_rows_ok [OF id assms(1)])
    moreover have "kst_encryptor ks' = kst_encryptor ks" by (simp add: ks' update_key_rows_def)
    moreover have "key_names ks' = insert (provider, keyName) (key_names ks)"
      using update_key_rows_maps(2) [OF id, of "\<lambda>r. pk_id r = pk_id ex" ks] ex
      unfolding ks' key_names_def by (metis (mono_tags, lifting) image_eqI insert_absorb list.set_map)
    ultimately show ?thesis
      using dec ex key by (simp add: f_def)
  qed
qed

text \<open>
  What \<^verbatim>\<open>Create\<close> stores is what \<^verbatim>\<open>Get\<close> returns: after a successful call, new row or existing one, the id
  it reports reads back the provider, the name and the decrypted value, and the row is active.
\<close>

theorem created_key_reads_back:
  assumes "store_ok ks" and "aead_ok (cr_aead env)"
    and "cr_rand env = Inr nonce" and "length nonce = aead_nonce_size (cr_aead env)"
    and "KeyStore_Create env failQuery failExec now provider keyName keyValue keyType ks = (Inr key, ks')"
  shows "store_ok ks' \<and> (\<exists>key'. KeyStore_Get env None (pk_id key) ks' = Inr (key', keyValue) \<and>
    pk_provider key' = provider \<and> pk_key_name key' = keyName \<and> pk_is_active key')"
  using created_row [OF assms] by (auto simp: KeyStore_Get_def row_key_def)

definition sample_crypto :: crypto_env where
  "sample_crypto = \<lparr>cr_aead = sample_aead, cr_rand = Inr (replicate 12 CHR ''n''),
     cr_time = \<lparr>tf_format = (\<lambda>t. show_int (t div second)), tf_parse = (\<lambda>s. Inl s)\<rparr>\<rparr>"

definition empty_keys :: KeyStore where
  "empty_keys = \<lparr>kst_rows = [], kst_next_id = 1, kst_encryptor = \<lparr>enc_key = replicate 32 CHR ''k''\<rparr>\<rparr>"

theorem created_key_reads_back_witness:
  "\<exists>key ks'. KeyStore_Create sample_crypto None None 0 ''gpt'' ''main'' ''sk-1'' ''api_key'' empty_keys = (Inr key, ks') \<and>
    store_ok ks' \<and> (\<exists>key'. KeyStore_Get sample_crypto None (pk_id key) ks' = Inr (key', ''sk-1'') \<and>
      pk_provider key' = ''gpt'' \<and> pk_key_name key' = ''main'' \<and> pk_is_active key')"
proof -
  obtain key ks' where c: "KeyStore_Create sample_crypto None None 0 ''gpt'' ''main'' ''sk-1'' ''api_key'' empty_keys = (Inr key, ks')"
    by (simp add: KeyStore_Create_def sample_crypto_def Encrypt_def empty_keys_def find_named_def insert_key_def Let_def)
  have "aead_ok (cr_aead sample_crypto)"
    by (auto simp: aead_ok_def sample_crypto_def sample_aead_def split: list.splits)
  moreover have "cr_rand sample_crypto = Inr (replicate 12 CHR ''n'')"
    "length (replicate 12 CHR ''n'') = aead_nonce_size (cr_aead sample_crypto)"
    by (simp_all add: sample_crypto_def sample_aead_def)
  moreover have "store_ok empty_keys" by (simp add: store_ok_def empty_keys_def)
  ultimately show ?thesis using created_key_reads_back c by blast
qed

end
