(* ===== verification/Admin.thy ===== *)
theory Admin
  imports KeyStore Logs Middleware
begin

text \<open>
  \<^verbatim>\<open>internal/handler/admin.go\<close>: the administrative API for provider keys, audit entries and request logs.  The
  errors of the services are arguments; the audit entry of a change is written after it, and a failure
  to write it does not undo the change.
\<close>

record admin_env =
  ad_crypto :: crypto_env
  ad_now :: "nat \<Rightarrow> go_time"
  ad_fail :: "string \<Rightarrow> error_text option"

record admin_state =
  as_keys :: KeyStore
  as_audit :: AuditLog

record createKeyRequest =
  kr_provider :: string
  kr_key_name :: string
  kr_key_value :: string
  kr_key_type :: string

definition bind_key :: "error_text \<Rightarrow> error_text + createKeyRequest \<Rightarrow> error_text + createKeyRequest" where
  "bind_key invalid decoded =
     (case decoded of
        Inl e \<Rightarrow> Inl e
      | Inr req \<Rightarrow>
          if kr_provider req = [] \<or> kr_key_name req = [] \<or> kr_key_value req = [] then Inl invalid else Inr req)"

definition bind_value :: "error_text \<Rightarrow> error_text + string \<Rightarrow> error_text + string" where
  "bind_value invalid decoded =
     (case decoded of Inl e \<Rightarrow> Inl e | Inr key_value \<Rightarrow> if key_value = [] then Inl invalid else Inr key_value)"

definition provider_key_json :: "ProviderKey \<Rightarrow> json" where
  "provider_key_json k = JObj
     [(''id'', JInt (pk_id k)), (''provider'', JStr (pk_provider k)), (''key_name'', JStr (pk_key_name k)),
      (''key_type'', JStr (pk_key_type k)), (''is_active'', JBool (pk_is_active k)),
      (''created_at'', JStr (pk_created_at k)), (''updated_at'', JStr (pk_updated_at k))]"

definition admin_audit :: "admin_env \<Rightarrow> nat \<Rightarrow> int \<Rightarrow> string \<Rightarrow> string \<Rightarrow> string \<Rightarrow> AuditLog \<Rightarrow> AuditLog" where
  "admin_audit env i keyID action clientID detail a =
     snd (audit_record (ad_fail env ''audit'') (cr_time (ad_crypto env)) (ad_now env i) keyID action clientID detail a)"

definition bad_request :: "error_text \<Rightarrow> http_response" where
  "bad_request e = error_response 400 ((bytes [236, 158, 152, 235, 170, 187, 235, 144, 156, 32, 236, 154, 148, 236, 178, 173, 58, 32]) @ e)"

definition bad_id :: http_response where
  "bad_id = error_response 400 (bytes [236, 158, 152, 235, 170, 187, 235, 144, 156, 32, 73, 68])"

definition ListKeys :: "admin_env \<Rightarrow> admin_state \<Rightarrow> http_response" where
  "ListKeys env s =
     (case KeyStore_List (ad_fail env ''list'') (as_keys s) of
        Inl e \<Rightarrow> error_response 500 e
      | Inr keys \<Rightarrow> json_response 200 [(''keys'', json_list provider_key_json keys)])"

definition CreateKey ::
  "admin_env \<Rightarrow> error_text \<Rightarrow> error_text + createKeyRequest \<Rightarrow> gin \<Rightarrow> admin_state \<Rightarrow> http_response \<times> admin_state" where
  "CreateKey env invalid decoded c s =
     (case bind_key invalid decoded of
        Inl e \<Rightarrow> (bad_request e, s)
      | Inr req \<Rightarrow>
          (let keyType = (if kr_key_type req = [] then ''api_key'' else kr_key_type req)
           in case KeyStore_Create (ad_crypto env) (ad_fail env ''query'') (ad_fail env ''exec'') (ad_now env 0)
                     (kr_provider req) (kr_key_name req) (kr_key_value req) keyType (as_keys s) of
                (Inl e, ks) \<Rightarrow> (error_response 500 e, s\<lparr>as_keys := ks\<rparr>)
              | (Inr key, ks) \<Rightarrow>
                  (\<lparr>rs_status = 201, rs_body = provider_key_json key\<rparr>,
                   \<lparr>as_keys = ks,
                    as_audit = admin_audit env 1 (pk_id key) ''created'' (gn_header c ''X-Client-ID'')
                      ((bytes [237, 130, 164, 32, 235, 147, 177, 235, 161, 157, 58, 32]) @ kr_key_name req) (as_audit s)\<rparr>)))"

definition key_not_found :: http_response where
  "key_not_found = error_response 404 (bytes [237, 130, 164, 235, 165, 188, 32, 236, 176, 190, 236, 157, 132, 32, 236, 136, 152, 32, 236, 151, 134, 236, 138, 181, 235, 139, 136, 235, 139, 164])"

definition UpdateKey ::
  "admin_env \<Rightarrow> error_text \<Rightarrow> error_text + string \<Rightarrow> gin \<Rightarrow> admin_state \<Rightarrow> http_response \<times> admin_state" where
  "UpdateKey env invalid decoded c s =
     (case parse_int (gn_param c ''id'') of
        None \<Rightarrow> (bad_id, s)
      | Some id' \<Rightarrow>
          (case bind_value invalid decoded of
             Inl e \<Rightarrow> (bad_request e, s)
           | Inr key_value \<Rightarrow>
               (case KeyStore_Update (ad_crypto env) (ad_fail env ''exec'') (ad_now env 0) id' key_value (as_keys s) of
                  (Some (NoRows _), ks) \<Rightarrow> (key_not_found, s\<lparr>as_keys := ks\<rparr>)
                | (Some (DBError e), ks) \<Rightarrow> (error_response 500 e, s\<lparr>as_keys := ks\<rparr>)
                | (None, ks) \<Rightarrow>
                    (json_response 200 [(''message'', JStr (bytes [237, 130, 164, 234, 176, 128, 32, 236, 151, 133, 235, 141, 176, 236, 157, 180, 237, 138, 184, 235, 144, 152, 236, 151, 136, 236, 138, 181, 235, 139, 136, 235, 139, 164]))],
                     \<lparr>as_keys = ks, as_audit = admin_audit env 1 id' ''updated'' (gn_header c ''X-Client-ID'')
                        (bytes [237, 130, 164, 32, 234, 176, 146, 32, 236, 151, 133, 235, 141, 176, 236, 157, 180, 237, 138, 184]) (as_audit s)\<rparr>))))"

definition RotateKey ::
  "admin_env \<Rightarrow> error_text \<Rightarrow> error_text + string \<Rightarrow> gin \<Rightarrow> admin_state \<Rightarrow> http_response \<times> admin_state" where
  "RotateKey env invalid decoded c s =
     (case parse_int (gn_param c ''id'') of
        None \<Rightarrow> (bad_id, s)
      | Some id' \<Rightarrow>
          (case bind_value invalid decoded of
             Inl e \<Rightarrow> (bad_request e, s)
           | Inr key_value \<Rightarrow>
               (case KeyStore_Rotate (ad_crypto env) (ad_fail env ''get'') (ad_fail env ''begin'') (ad_fail env ''update'')
                       (ad_fail env ''exec'') (ad_fail env ''commit'') (ad_now env 0) id' key_value (as_keys s) of
                  (Inl (NoRows _), ks) \<Rightarrow> (key_not_found, s\<lparr>as_keys := ks\<rparr>)
                | (Inl (DBError e), ks) \<Rightarrow> (error_response 500 e, s\<lparr>as_keys := ks\<rparr>)
                | (Inr newKey, ks) \<Rightarrow>
                    (\<lparr>rs_status = 200, rs_body = provider_key_json newKey\<rparr>,
                     \<lparr>as_keys = ks,
                      as_audit = admin_audit env 2 (pk_id newKey) ''created'' (gn_header c ''X-Client-ID'')
                        (bytes [235, 161, 156, 237, 133, 140, 236, 157, 180, 236, 133, 152, 236, 156, 188, 235, 161, 156, 32, 236, 131, 157, 236, 132, 177, 235, 144, 156, 32, 236, 131, 136, 32, 237, 130, 164])
                        (admin_audit env 1 id' ''rotated'' (gn_header c ''X-Client-ID'') (bytes [234, 184, 176, 236, 161, 180, 32, 237, 130, 164, 32, 235, 185, 132, 237, 153, 156, 236, 132, 177, 237, 153, 148]) (as_audit s))\<rparr>))))"

definition DeleteKey :: "admin_env \<Rightarrow> gin \<Rightarrow> admin_state \<Rightarrow> http_response \<times> admin_state" where
  "DeleteKey env c s =
     (case parse_int (gn_param c ''id'') of
        None \<Rightarrow> (bad_id, s)
      | Some id' \<Rightarrow>
          (case KeyStore_Deactivate (ad_crypto env) (ad_fail env ''exec'') (ad_now env 0) id' (as_keys s) of
             (Some e, ks) \<Rightarrow>
               (if contains e (bytes [236, 176, 190, 236, 157, 132, 32, 236, 136, 152, 32, 236, 151, 134]) then key_not_found else error_response 500 e, s\<lparr>as_keys := ks\<rparr>)
           | (None, ks) \<Rightarrow>
               (json_response 200 [(''message'', JStr (bytes [237, 130, 164, 234, 176, 128, 32, 235, 185, 132, 237, 153, 156, 236, 132, 177, 237, 153, 148, 235, 144, 152, 236, 151, 136, 236, 138, 181, 235, 139, 136, 235, 139, 164]))],
                \<lparr>as_keys = ks, as_audit = admin_audit env 1 id' ''deactivated'' (gn_header c ''X-Client-ID'')
                   (bytes [237, 130, 164, 32, 235, 185, 132, 237, 153, 156, 236, 132, 177, 237, 153, 148]) (as_audit s)\<rparr>)))"

definition ListAuditLogs :: "admin_env \<Rightarrow> gin \<Rightarrow> admin_state \<Rightarrow> http_response" where
  "ListAuditLogs env c s =
     (case audit_list (ad_fail env ''audit list'') (query_limit 100 1000 (gn_query c ''limit'')) (as_audit s) of
        Inl e \<Rightarrow> error_response 500 e
      | Inr entries \<Rightarrow> json_response 200 [(''audit_logs'', json_list audit_json entries)])"

subsection \<open>Logs\<close>

definition opt_json :: "('a \<Rightarrow> json) \<Rightarrow> 'a option \<Rightarrow> json" where
  "opt_json f v = (case v of None \<Rightarrow> JNull | Some x \<Rightarrow> f x)"

definition omit_none :: "string \<Rightarrow> ('a \<Rightarrow> json) \<Rightarrow> 'a option \<Rightarrow> (string \<times> json) list" where
  "omit_none k f v = (case v of None \<Rightarrow> [] | Some x \<Rightarrow> [(k, f x)])"

definition log_entry_json :: "LogEntry \<Rightarrow> json" where
  "log_entry_json e = JObj
     ([(''id'', JInt (le_id e)), (''trace_id'', JStr (le_trace_id e)), (''timestamp'', JStr (le_timestamp e)),
       (''client_id'', opt_json JStr (le_client_id e)), (''client_ip'', opt_json JStr (le_client_ip e)),
       (''project'', opt_json JStr (le_project e)), (''requested_provider'', opt_json JStr (le_requested_provider e)),
       (''requested_model'', opt_json JStr (le_requested_model e)), (''actual_provider'', opt_json JStr (le_actual_provider e)),
       (''actual_model'', opt_json JStr (le_actual_model e)), (''fallback_used'', JBool (le_fallback_used e)),
       (''status'', JStr (le_status e))] @
      omit_none ''error_message'' JStr (le_error_message e) @
      [(''input_tokens'', opt_json JInt (le_input_tokens e)), (''output_tokens'', opt_json JInt (le_output_tokens e)),
       (''cost_usd'', opt_json JFloat (le_cost_usd e)), (''latency_ms'', opt_json JInt (le_latency_ms e))] @
      omit_none ''routing_reason'' JStr (le_routing_reason e))"

definition stats_json :: "LogStatsEntry \<Rightarrow> json" where
  "stats_json e = JObj
     [(''group_key'', JStr (st_group_key e)), (''requests'', JInt (st_requests e)), (''errors'', JInt (st_errors e)),
      (''avg_latency_ms'', JFloat (st_avg_latency_ms e)), (''input_tokens'', JInt (st_input_tokens e)),
      (''output_tokens'', JInt (st_output_tokens e)), (''cost_usd'', JFloat (st_cost_usd e))]"

definition log_query_of :: "gin \<Rightarrow> LogQuery" where
  "log_query_of c =
     (let fb = gn_query c ''fallback_used'' in
      \<lparr>lq_trace_id = gn_query c ''trace_id'', lq_client_id = gn_query c ''client_id'', lq_provider = gn_query c ''provider'',
       lq_project = gn_query c ''project'', lq_status = gn_query c ''status'',
       lq_fallback_used = (if fb \<noteq> [] then Some (fb = ''true'' \<or> fb = ''1'') else None),
       lq_date = gn_query c ''date'', lq_from = gn_query c ''from'', lq_to = gn_query c ''to'',
       lq_limit = query_limit 100 1000 (gn_query c ''limit'')\<rparr>)"

text \<open>\<open>reader\<close> is \<^const>\<open>None\<close> when there is no log database.\<close>

definition ListLogs :: "sql_lib \<Rightarrow> error_text option \<Rightarrow> gin \<Rightarrow> logs_table option \<Rightarrow> http_response" where
  "ListLogs sq fail c reader =
     (case reader of
        None \<Rightarrow> json_response 200 [(''logs'', JList [])]
      | Some t \<Rightarrow>
          (case log_query sq fail (log_query_of c) t of
             Inl e \<Rightarrow> error_response 500 e
           | Inr entries \<Rightarrow>
               json_response 200 [(''logs'', json_list log_entry_json entries), (''count'', JInt (int (length entries)))]))"

definition LogStats :: "sql_lib \<Rightarrow> error_text option \<Rightarrow> gin \<Rightarrow> logs_table option \<Rightarrow> http_response" where
  "LogStats sq fail c reader =
     (case reader of
        None \<Rightarrow> json_response 200 [(''stats'', JList [])]
      | Some t \<Rightarrow>
          (let groupBy = gn_query c ''group_by'' in
           if groupBy = [] then error_response 400 (bytes [103, 114, 111, 117, 112, 95, 98, 121, 32, 237, 140, 140, 235, 157, 188, 235, 175, 184, 237, 132, 176, 234, 176, 128, 32, 237, 149, 132, 236, 154, 148, 237, 149, 169, 235, 139, 136, 235, 139, 164])
           else
             (case log_stats sq fail \<lparr>sq_group_by = groupBy, sq_q_date = gn_query c ''date'',
                     sq_q_from = gn_query c ''from'', sq_q_to = gn_query c ''to''\<rparr> t of
                Inl e \<Rightarrow> error_response 500 e
              | Inr entries \<Rightarrow>
                  json_response 200 [(''stats'', json_list stats_json entries), (''count'', JInt (int (length entries)))])))"

subsection \<open>Changes and their audit entries\<close>

lemma store_errors_keep:
  "KeyStore_Create env f1 f2 now p n v t ks = (Inl e, ks') \<Longrightarrow> ks' = ks"
  "KeyStore_Update env f1 now i v ks = (Some de, ks') \<Longrightarrow> ks' = ks"
  "KeyStore_Rotate env g1 g2 g3 g4 g5 now i v ks = (Inl de, ks') \<Longrightarrow> ks' = ks"
  "KeyStore_Deactivate env f1 now i ks = (Some e, ks') \<Longrightarrow> ks' = ks"
  by (auto simp: KeyStore_Create_def KeyStore_Update_def KeyStore_Rotate_def KeyStore_Deactivate_def Let_def
      split: sum.splits option.splits if_splits prod.splits)

lemma admin_audit_appends:
  "ad_fail env ''audit'' = None \<Longrightarrow>
   \<exists>e. al_rows (admin_audit env i k a p d lg) = al_rows lg @ [e] \<and> ae_performed_by e = p \<and> ae_provider_key_id e = k"
  by (simp add: admin_audit_def audit_record_def)

lemma admin_audit_grows: "prefix (al_rows lg) (al_rows (admin_audit env i k a p d lg))"
  by (auto simp: admin_audit_def audit_record_def split: option.split)

text \<open>
  Every change of a provider key is audited.  Whatever one of the four key requests does, an answer of 400
  or above leaves keys and audit log as they were; otherwise the log grows, by at least one entry in the
  name of the caller when writing it succeeds; entries are never removed.
\<close>

theorem key_changes_are_audited:
  "\<forall>(resp, s') \<in> {CreateKey env invalid create_body c s, UpdateKey env invalid update_body c s,
      RotateKey env invalid rot_body c s, DeleteKey env c s}.
     (rs_status resp \<ge> 400 \<longrightarrow> s' = s) \<and> prefix (al_rows (as_audit s)) (al_rows (as_audit s')) \<and>
     (rs_status resp < 400 \<and> ad_fail env ''audit'' = None \<longrightarrow>
       (\<exists>es. es \<noteq> [] \<and> al_rows (as_audit s') = al_rows (as_audit s) @ es \<and>
          (\<forall>e \<in> set es. ae_performed_by e = gn_header c ''X-Client-ID'')))"
proof -
  define ok where "ok = (\<lambda>(resp :: http_response, s'). (rs_status resp \<ge> 400 \<longrightarrow> s' = s) \<and> prefix (al_rows (as_audit s)) (al_rows (as_audit s')) \<and>
     (rs_status resp < 400 \<and> ad_fail env ''audit'' = None \<longrightarrow>
       (\<exists>es. es \<noteq> [] \<and> al_rows (as_audit s') = al_rows (as_audit s) @ es \<and>
          (\<forall>e \<in> set es. ae_performed_by e = gn_header c ''X-Client-ID''))))"
  have refused: "ok (resp, s)" if "rs_status resp \<ge> 400" for resp
    using that by (simp add: ok_def)
  have refused': "ok (resp, s\<lparr>as_keys := ks\<rparr>)" if "rs_status resp \<ge> 400" "ks = as_keys s" for resp ks
    using that by (simp add: ok_def)
  have once: "ok (resp, \<lparr>as_keys = ks, as_audit = admin_audit env i k a (gn_header c ''X-Client-ID'') d (as_audit s)\<rparr>)"
    if "rs_status resp < 400" for resp ks i k a d
    using that admin_audit_grows admin_audit_appends [of env i k a "gn_header c ''X-Client-ID''" d "as_audit s"]
    by (auto simp: ok_def)
  have twice: "ok (resp, \<lparr>as_keys = ks, as_audit = admin_audit env i k a (gn_header c ''X-Client-ID'') d
      (admin_audit env i' k' a' (gn_header c ''X-Client-ID'') d' (as_audit s))\<rparr>)"
    if "rs_status resp < 400" for resp ks i k a d i' k' a' d'
    using that prefix_order.trans [OF admin_audit_grows admin_audit_grows]
      admin_audit_appends [of env i k a "gn_header c ''X-Client-ID''" d "admin_audit env i' k' a' (gn_header c ''X-Client-ID'') d' (as_audit s)"]
      admin_audit_appends [of env i' k' a' "gn_header c ''X-Client-ID''" d' "as_audit s"]
    by (auto simp: ok_def)
  have status [simp]: "rs_status (error_response n e) = n" "rs_status (json_response n kvs) = n"
    "rs_status (bad_request e) = 400" "rs_status bad_id = 400" "rs_status key_not_found = 404" for n e kvs
    by (simp_all add: error_response_def json_response_def bad_request_def bad_id_def key_not_found_def)
  have "ok (CreateKey env invalid create_body c s)"
    unfolding CreateKey_def Let_def
    by (auto split: sum.split prod.split intro!: refused refused' once dest: store_errors_keep)
  moreover have "ok (UpdateKey env invalid update_body c s)"
    unfolding UpdateKey_def
    by (auto split: sum.split prod.split option.split db_error.split intro!: refused refused' once dest: store_errors_keep)
  moreover have "ok (RotateKey env invalid rot_body c s)"
    unfolding RotateKey_def
    by (auto split: sum.split prod.split option.split db_error.split intro!: refused refused' twice dest: store_errors_keep)
  moreover have "ok (DeleteKey env c s)"
    unfolding DeleteKey_def
    by (auto split: prod.split option.split intro!: refused refused' once dest: store_errors_keep)
  ultimately show ?thesis unfolding ok_def by auto
qed

definition sample_admin :: admin_env where
  "sample_admin = \<lparr>ad_crypto = sample_crypto, ad_now = (\<lambda>i. int i * second), ad_fail = (\<lambda>_. None)\<rparr>"

definition admin_call :: gin where
  "admin_call = \<lparr>gn_client_ip = ''10.0.0.1'', gn_header = (\<lambda>_. ''ops''), gn_get_query = (\<lambda>_. None), gn_param = (\<lambda>_. ''7''),
     gn_client_id = None, gn_service_name = None, gn_trusted = Some True, gn_trace_id = None, gn_out_headers = []\<rparr>"

theorem key_changes_are_audited_witness:
  "\<exists>resp s' es. CreateKey sample_admin [] (Inr \<lparr>kr_provider = ''gpt'', kr_key_name = ''main'', kr_key_value = ''sk'', kr_key_type = []\<rparr>)
      admin_call \<lparr>as_keys = empty_keys, as_audit = \<lparr>al_rows = [], al_next_id = 1\<rparr>\<rparr> = (resp, s') \<and>
    es \<noteq> [] \<and> al_rows (as_audit s') = es \<and> (\<forall>e \<in> set es. ae_performed_by e = ''ops'')"
proof -
  let ?b = "Inr \<lparr>kr_provider = ''gpt'', kr_key_name = ''main'', kr_key_value = ''sk'', kr_key_type = []\<rparr>"
  let ?s = "\<lparr>as_keys = empty_keys, as_audit = \<lparr>al_rows = [], al_next_id = 1\<rparr>\<rparr>"
  obtain resp s' where c: "CreateKey sample_admin [] ?b admin_call ?s = (resp, s')" by (metis surj_pair)
  have st: "rs_status resp = 201"
    using c by (auto simp: CreateKey_def bind_key_def sample_admin_def KeyStore_Create_def sample_crypto_def Encrypt_def
        empty_keys_def find_named_def insert_key_def Let_def)
  show ?thesis
    using key_changes_are_audited [of sample_admin "[]" ?b admin_call ?s "Inl []" "Inl []"] c st
    by (auto simp: sample_admin_def admin_call_def)
qed

text \<open>
  Updating a provider key that does not exist is reported as done: the statement touches no row and \<^verbatim>\<open>Update\<close>
  does not look at the number of rows, so the answer is 200, the keys are unchanged and an audit entry
  for the missing id is written; the branch for 404 is unreachable.
\<close>

theorem update_of_a_missing_key_answers_200:
  assumes "parse_int (gn_param c ''id'') = Some i" and "find_id (as_keys s) i = None"
    and "value \<noteq> []" and "ad_fail env ''exec'' = None" and "cr_rand (ad_crypto env) = Inr nonce"
  shows "\<exists>resp s'. UpdateKey env invalid (Inr value) c s = (resp, s') \<and> rs_status resp = 200 \<and> as_keys s' = as_keys s"
proof -
  have "update_key_rows (\<lambda>r. pk_id r = i) f (as_keys s) = as_keys s" for f
  proof -
    have "map (\<lambda>r. if pk_id r = i then f r else r) (kst_rows (as_keys s)) = kst_rows (as_keys s)"
      using assms(2) by (intro map_idI) (auto simp: find_id_None)
    then show ?thesis by (simp add: update_key_rows_def)
  qed
  then show ?thesis
    using assms by (simp add: UpdateKey_def bind_value_def KeyStore_Update_def Encrypt_def json_response_def)
qed

theorem update_of_a_missing_key_answers_200_witness:
  "\<exists>resp s'. UpdateKey sample_admin [] (Inr ''sk'') admin_call \<lparr>as_keys = empty_keys, as_audit = \<lparr>al_rows = [], al_next_id = 1\<rparr>\<rparr> = (resp, s') \<and>
    rs_status resp = 200 \<and> as_keys s' = empty_keys"
proof -
  let ?s = "\<lparr>as_keys = empty_keys, as_audit = \<lparr>al_rows = [], al_next_id = 1\<rparr>\<rparr>"
  have "\<exists>resp s'. UpdateKey sample_admin [] (Inr ''sk'') admin_call ?s = (resp, s') \<and> rs_status resp = 200 \<and> as_keys s' = as_keys ?s"
    by (rule update_of_a_missing_key_answers_200 [of _ 7])
      (simp_all add: admin_call_def parse_int_def digit_value_def empty_keys_def find_id_def sample_admin_def sample_crypto_def)
  then show ?thesis by simp
qed

end
