(* ===== verification/ClientKey.thy ===== *)
theory ClientKey
  imports Middleware Crypto "HOL-Library.List_Lexorder" "HOL-Library.Char_ord" "HOL-Library.Product_Lexorder"
begin

text \<open>
  \<^verbatim>\<open>internal/store/clientkey.go\<close>: the table of client keys.  A statement acts on the rows as its text says;
  \<open>fail\<close> is the error of the database, if any, and leaves the table as it was.
\<close>

subsection \<open>The table\<close>

record ClientKey =
  ck_id :: int
  ck_client_id :: string
  ck_secret_hash :: string
  ck_secret_prefix :: string
  ck_service_name :: string
  ck_description :: string
  ck_is_active :: bool
  ck_expires_at :: string
  ck_created_at :: string
  ck_updated_at :: string

record ClientKeyStore =
  cks_rows :: "ClientKey list"
  cks_next_id :: int

definition find_key :: "ClientKeyStore \<Rightarrow> string \<Rightarrow> ClientKey option" where
  "find_key st clientID = List.find (\<lambda>k. ck_client_id k = clientID) (cks_rows st)"

definition ErrKeyNotFound :: error_text where
  "ErrKeyNotFound = (bytes [237, 130, 164, 235, 165, 188, 32, 236, 176, 190, 236, 157, 132, 32, 236, 136, 152, 32, 236, 151, 134, 236, 138, 181, 235, 139, 136, 235, 139, 164])"

text \<open>An error that wraps \<^verbatim>\<open>ErrKeyNotFound\<close>, which callers recognise with \<^verbatim>\<open>errors.Is\<close>, or another one.\<close>

datatype store_error = KeyNotFound error_text | StoreError error_text

fun store_error_text :: "store_error \<Rightarrow> error_text" where
  "store_error_text (KeyNotFound e) = e"
| "store_error_text (StoreError e) = e"

definition ClientKeyStore_Create ::
  "error_text option \<Rightarrow> time_format \<Rightarrow> go_time \<Rightarrow> string \<Rightarrow> string \<Rightarrow> string \<Rightarrow> string \<Rightarrow> string \<Rightarrow> go_time
   \<Rightarrow> ClientKeyStore \<Rightarrow> (error_text + ClientKey) \<times> ClientKeyStore" where
  "ClientKeyStore_Create fail tf nowt clientID secretHash secretPrefix serviceName description expiresAt st =
     (let now = tf_format tf nowt; exp = tf_format tf expiresAt;
          err = (case fail of
                   Some e \<Rightarrow> Some e
                 | None \<Rightarrow> if find_key st clientID \<noteq> None
                           then Some ''UNIQUE constraint failed: client_keys.client_id'' else None)
      in case err of
           Some e \<Rightarrow> (Inl ((bytes [237, 129, 180, 235, 157, 188, 236, 157, 180, 236, 150, 184, 237, 138, 184, 32, 237, 130, 164, 32, 235, 147, 177, 235, 161, 157, 32, 236, 139, 164, 237, 140, 168, 58, 32]) @ e), st)
         | None \<Rightarrow>
             (let row = \<lparr>ck_id = cks_next_id st, ck_client_id = clientID, ck_secret_hash = secretHash,
                         ck_secret_prefix = secretPrefix, ck_service_name = serviceName,
                         ck_description = description, ck_is_active = True, ck_expires_at = exp,
                         ck_created_at = now, ck_updated_at = now\<rparr>
              in (Inr (row\<lparr>ck_secret_hash := []\<rparr>),
                  \<lparr>cks_rows = cks_rows st @ [row], cks_next_id = cks_next_id st + 1\<rparr>)))"

definition GetByClientID ::
  "error_text option \<Rightarrow> string \<Rightarrow> ClientKeyStore \<Rightarrow> error_text + ClientKey option" where
  "GetByClientID fail clientID st =
     (case fail of
        Some e \<Rightarrow> Inl ((bytes [237, 129, 180, 235, 157, 188, 236, 157, 180, 236, 150, 184, 237, 138, 184, 32, 237, 130, 164, 32, 236, 161, 176, 237, 154, 140, 32, 236, 139, 164, 237, 140, 168, 58, 32]) @ e)
      | None \<Rightarrow> Inr (find_key st clientID))"

text \<open>The listings leave the hash out.\<close>

definition public_key :: "ClientKey \<Rightarrow> ClientKey" where
  "public_key k = k\<lparr>ck_secret_hash := []\<rparr>"

definition ClientKeyStore_List ::
  "error_text option \<Rightarrow> ClientKeyStore \<Rightarrow> error_text + ClientKey list" where
  "ClientKeyStore_List fail st =
     (case fail of
        Some e \<Rightarrow> Inl ((bytes [237, 129, 180, 235, 157, 188, 236, 157, 180, 236, 150, 184, 237, 138, 184, 32, 237, 130, 164, 32, 235, 170, 169, 235, 161, 157, 32, 236, 161, 176, 237, 154, 140, 32, 236, 139, 164, 237, 140, 168, 58, 32]) @ e)
      | None \<Rightarrow> Inr (map public_key (sort_key (\<lambda>k. (ck_service_name k, ck_client_id k)) (cks_rows st))))"

definition ListByService ::
  "error_text option \<Rightarrow> string \<Rightarrow> ClientKeyStore \<Rightarrow> error_text + ClientKey list" where
  "ListByService fail serviceName st =
     (case fail of
        Some e \<Rightarrow> Inl ((bytes [236, 132, 156, 235, 185, 132, 236, 138, 164, 235, 179, 132, 32, 237, 130, 164, 32, 236, 161, 176, 237, 154, 140, 32, 236, 139, 164, 237, 140, 168, 58, 32]) @ e)
      | None \<Rightarrow> Inr (map public_key
          (sort_key ck_client_id (filter (\<lambda>k. ck_service_name k = serviceName) (cks_rows st)))))"

text \<open>An \<^verbatim>\<open>UPDATE ... WHERE\<close> statement, and the number of rows it touches.\<close>

definition update_rows ::
  "(ClientKey \<Rightarrow> bool) \<Rightarrow> (ClientKey \<Rightarrow> ClientKey) \<Rightarrow> ClientKeyStore \<Rightarrow> ClientKeyStore \<times> nat" where
  "update_rows P f st =
     (st\<lparr>cks_rows := map (\<lambda>k. if P k then f k else k) (cks_rows st)\<rparr>, length (filter P (cks_rows st)))"

definition RotateSecret ::
  "error_text option \<Rightarrow> time_format \<Rightarrow> go_time \<Rightarrow> string \<Rightarrow> string \<Rightarrow> string \<Rightarrow> ClientKeyStore
   \<Rightarrow> store_error option \<times> ClientKeyStore" where
  "RotateSecret fail tf nowt clientID newSecretHash newSecretPrefix st =
     (case fail of
        Some e \<Rightarrow> (Some (StoreError ((bytes [236, 139, 156, 237, 129, 172, 235, 166, 191, 32, 234, 181, 144, 236, 178, 180, 32, 236, 139, 164, 237, 140, 168, 58, 32]) @ e)), st)
      | None \<Rightarrow>
          (let (st', rows) = update_rows (\<lambda>k. ck_client_id k = clientID \<and> ck_is_active k)
                 (\<lambda>k. k\<lparr>ck_secret_hash := newSecretHash, ck_secret_prefix := newSecretPrefix,
                        ck_updated_at := tf_format tf nowt\<rparr>) st
           in if rows = 0
              then (Some (KeyNotFound (ErrKeyNotFound @ (bytes [32, 40, 237, 153, 156, 236, 132, 177, 32, 236, 131, 129, 237, 131, 156, 41, 58, 32]) @ clientID)), st')
              else (None, st')))"

definition ClientKeyStore_Deactivate ::
  "error_text option \<Rightarrow> time_format \<Rightarrow> go_time \<Rightarrow> string \<Rightarrow> ClientKeyStore
   \<Rightarrow> store_error option \<times> ClientKeyStore" where
  "ClientKeyStore_Deactivate fail tf nowt clientID st =
     (case fail of
        Some e \<Rightarrow> (Some (StoreError ((bytes [237, 130, 164, 32, 235, 185, 132, 237, 153, 156, 236, 132, 177, 237, 153, 148, 32, 236, 139, 164, 237, 140, 168, 58, 32]) @ e)), st)
      | None \<Rightarrow>
          (let (st', rows) = update_rows (\<lambda>k. ck_client_id k = clientID)
                 (\<lambda>k. k\<lparr>ck_is_active := False, ck_updated_at := tf_format tf nowt\<rparr>) st
           in if rows = 0 then (Some (KeyNotFound (ErrKeyNotFound @ '': '' @ clientID)), st')
              else (None, st')))"

definition ClientKeyStore_Reissue ::
  "error_text option \<Rightarrow> time_format \<Rightarrow> go_time \<Rightarrow> string \<Rightarrow> string \<Rightarrow> string \<Rightarrow> go_time \<Rightarrow> ClientKeyStore
   \<Rightarrow> store_error option \<times> ClientKeyStore" where
  "ClientKeyStore_Reissue fail tf nowt clientID newSecretHash newSecretPrefix expiresAt st =
     (case fail of
        Some e \<Rightarrow> (Some (StoreError ((bytes [237, 130, 164, 32, 236, 158, 172, 235, 176, 156, 234, 184, 137, 32, 236, 139, 164, 237, 140, 168, 58, 32]) @ e)), st)
      | None \<Rightarrow>
          (let (st', rows) = update_rows (\<lambda>k. ck_client_id k = clientID)
                 (\<lambda>k. k\<lparr>ck_secret_hash := newSecretHash, ck_secret_prefix := newSecretPrefix,
                        ck_is_active := True, ck_expires_at := tf_format tf expiresAt,
                        ck_updated_at := tf_format tf nowt\<rparr>) st
           in if rows = 0 then (Some (KeyNotFound (ErrKeyNotFound @ '': '' @ clientID)), st')
              else (None, st')))"

subsection \<open>The table's invariant\<close>

definition keys_ok :: "ClientKeyStore \<Rightarrow> bool" where
  "keys_ok st \<longleftrightarrow> distinct (map ck_client_id (cks_rows st)) \<and> distinct (map ck_id (cks_rows st)) \<and>
     (\<forall>k \<in> set (cks_rows st). ck_id k < cks_next_id st)"

lemma find_key_None: "find_key st c = None \<longleftrightarrow> c \<notin> ck_client_id ` set (cks_rows st)"
  by (auto simp: find_key_def find_None_iff)

lemma find_key_id: "find_key st c = Some k \<Longrightarrow> ck_client_id k = c"
  by (auto simp: find_key_def find_Some_iff)

lemma find_map_same:
  assumes "\<And>k. ck_client_id (g k) = ck_client_id k"
  shows "List.find (\<lambda>k. ck_client_id k = c) (map g rows) = map_option g (List.find (\<lambda>k. ck_client_id k = c) rows)"
  using assms by (induction rows) auto

lemma find_update:
  assumes "\<And>k. ck_client_id (f k) = ck_client_id k"
  shows "find_key (fst (update_rows P f st)) c = map_option (\<lambda>k. if P k then f k else k) (find_key st c)"
  using assms by (simp add: find_key_def update_rows_def find_map_same)

lemma update_rows_ok:
  assumes "\<And>k. ck_client_id (f k) = ck_client_id k \<and> ck_id (f k) = ck_id k" and "keys_ok st"
  shows "keys_ok (fst (update_rows P f st))"
proof -
  have "map ck_client_id (map (\<lambda>k. if P k then f k else k) rows) = map ck_client_id rows"
    "map ck_id (map (\<lambda>k. if P k then f k else k) rows) = map ck_id rows" for rows
    using assms(1) by (induction rows) auto
  then show ?thesis using assms by (auto simp: keys_ok_def update_rows_def simp del: map_map)
qed

lemma update_rows_none: "snd (update_rows P f st) = 0 \<Longrightarrow> fst (update_rows P f st) = st"
  by (auto simp: update_rows_def filter_empty_conv intro!: ClientKeyStore.equality map_idI)

lemma key_ops_ok:
  assumes "keys_ok st"
  shows "keys_ok (snd (RotateSecret fail tf now c h p st))"
    and "keys_ok (snd (ClientKeyStore_Deactivate fail tf now c st))"
    and "keys_ok (snd (ClientKeyStore_Reissue fail tf now c h p e st))"
    and "keys_ok (snd (ClientKeyStore_Create fail tf now c h p sn d e st))"
proof -
  show "keys_ok (snd (RotateSecret fail tf now c h p st))"
    using assms update_rows_ok by (auto simp: RotateSecret_def case_prod_beta Let_def split: option.split)
  show "keys_ok (snd (ClientKeyStore_Deactivate fail tf now c st))"
    using assms update_rows_ok by (auto simp: ClientKeyStore_Deactivate_def case_prod_beta Let_def split: option.split)
  show "keys_ok (snd (ClientKeyStore_Reissue fail tf now c h p e st))"
    using assms update_rows_ok by (auto simp: ClientKeyStore_Reissue_def case_prod_beta Let_def split: option.split)
  show "keys_ok (snd (ClientKeyStore_Create fail tf now c h p sn d e st))"
    using assms by (auto simp: ClientKeyStore_Create_def Let_def keys_ok_def find_key_None split: option.split)
qed

text \<open>What the statements do to the row of a client, and to no other.\<close>

lemma find_after_rotate:
  assumes "RotateSecret fail tf now c h p st = (r, st')"
  shows "find_key st' c' =
     (if c' = c \<and> fail = None
      then map_option (\<lambda>k. if ck_is_active k
        then k\<lparr>ck_secret_hash := h, ck_secret_prefix := p, ck_updated_at := tf_format tf now\<rparr> else k) (find_key st c)
      else find_key st c')"
    and "r = None \<longleftrightarrow> fail = None \<and> (\<exists>k \<in> set (cks_rows st). ck_client_id k = c \<and> ck_is_active k)"
proof -
  show "find_key st' c' =
     (if c' = c \<and> fail = None
      then map_option (\<lambda>k. if ck_is_active k
        then k\<lparr>ck_secret_hash := h, ck_secret_prefix := p, ck_updated_at := tf_format tf now\<rparr> else k) (find_key st c)
      else find_key st c')"
    using assms find_key_id
    by (cases "find_key st c'")
      (auto simp: RotateSecret_def case_prod_beta Let_def find_update split: option.splits if_splits)
  show "r = None \<longleftrightarrow> fail = None \<and> (\<exists>k \<in> set (cks_rows st). ck_client_id k = c \<and> ck_is_active k)"
    using assms by (auto simp: RotateSecret_def update_rows_def filter_empty_conv split: option.splits if_splits)
qed

lemma find_after_deactivate:
  assumes "ClientKeyStore_Deactivate fail tf now c st = (r, st')"
  shows "find_key st' c' =
     (if c' = c \<and> fail = None
      then map_option (\<lambda>k. k\<lparr>ck_is_active := False, ck_updated_at := tf_format tf now\<rparr>) (find_key st c)
      else find_key st c')"
  using assms find_key_id
  by (cases "find_key st c'")
    (auto simp: ClientKeyStore_Deactivate_def case_prod_beta Let_def find_update split: option.splits if_splits)

end
