(* ===== verification/KeyService.thy ===== *)
theory KeyService
  imports ClientKey
begin

text \<open>
  \<^verbatim>\<open>internal/service/clientkey_validator.go\<close>: validation with the Redis cache in front of the table.
  \<^verbatim>\<open>Validate\<close> is given twice: as a function, and as the steps between its accesses to shared state, so that
  the lemmas can also speak about what other goroutines do in between.  The validator interprets the locale
  of theory \<open>Middleware\<close>.
\<close>

definition clientKeyCachePrefix :: string where
  "clientKeyCachePrefix = ''ezai:clientkey:''"

definition clientKeyCacheTTL :: duration where
  "clientKeyCacheTTL = 5 * 60 * second"

record cachedKey =
  cc_secret_hash :: string
  cc_service_name :: string
  cc_is_active :: bool
  cc_expires_at :: string

text \<open>The environment: Redis, \<^verbatim>\<open>encoding/json\<close> on \<^verbatim>\<open>cachedKey\<close>, the time format and the hashes.\<close>

record 'r key_env =
  ke_redis :: "'r redis"
  ke_marshal :: "cachedKey \<Rightarrow> error_text + string"
  ke_unmarshal :: "string \<Rightarrow> error_text + cachedKey"
  ke_time :: time_format
  ke_hashes :: hashes

record 'r key_state =
  ks_store :: ClientKeyStore
  ks_redis :: "'r option"

definition cache_key :: "string \<Rightarrow> string" where
  "cache_key clientID = clientKeyCachePrefix @ clientID"

definition getFromCache :: "'r key_env \<Rightarrow> go_time \<Rightarrow> string \<Rightarrow> 'r key_state \<Rightarrow> cachedKey option" where
  "getFromCache env now clientID s =
     (case ks_redis s of
        None \<Rightarrow> None
      | Some r \<Rightarrow>
          (case rd_get (ke_redis env) now r (cache_key clientID) of
             RedisVal data \<Rightarrow> (case ke_unmarshal env data of Inl _ \<Rightarrow> None | Inr ck \<Rightarrow> Some ck)
           | _ \<Rightarrow> None))"

definition saveToCache ::
  "'r key_env \<Rightarrow> go_time \<Rightarrow> string \<Rightarrow> cachedKey \<Rightarrow> 'r key_state \<Rightarrow> 'r key_state" where
  "saveToCache env now clientID ck s =
     (case ks_redis s of
        None \<Rightarrow> s
      | Some r \<Rightarrow>
          (case ke_marshal env ck of
             Inl _ \<Rightarrow> s
           | Inr data \<Rightarrow>
               s\<lparr>ks_redis := Some (snd (rd_set (ke_redis env) now r (cache_key clientID) data clientKeyCacheTTL))\<rparr>))"

definition InvalidateCache :: "'r key_env \<Rightarrow> go_time \<Rightarrow> string \<Rightarrow> 'r key_state \<Rightarrow> 'r key_state" where
  "InvalidateCache env now clientID s =
     (case ks_redis s of
        None \<Rightarrow> s
      | Some r \<Rightarrow> s\<lparr>ks_redis := Some (snd (rd_del (ke_redis env) now r (cache_key clientID)))\<rparr>)"

definition cached_of :: "ClientKey \<Rightarrow> cachedKey" where
  "cached_of k = \<lparr>cc_secret_hash = ck_secret_hash k, cc_service_name = ck_service_name k,
     cc_is_active = ck_is_active k, cc_expires_at = ck_expires_at k\<rparr>"

text \<open>The lookup: the cached fields, or the row's, which are then to be saved.\<close>

definition lookup_key ::
  "'r key_env \<Rightarrow> error_text option \<Rightarrow> go_time \<Rightarrow> string \<Rightarrow> 'r key_state \<Rightarrow> error_text + (cachedKey \<times> bool)" where
  "lookup_key env dbErr now clientID s =
     (case getFromCache env now clientID s of
        Some cached \<Rightarrow> Inr (cached, False)
      | None \<Rightarrow>
          (case GetByClientID dbErr clientID (ks_store s) of
             Inl err \<Rightarrow> Inl ((bytes [237, 130, 164, 32, 236, 161, 176, 237, 154, 140, 32, 236, 139, 164, 237, 140, 168, 58, 32]) @ err)
           | Inr None \<Rightarrow> Inl (bytes [236, 156, 160, 237, 154, 168, 237, 149, 152, 236, 167, 128, 32, 236, 149, 138, 236, 157, 128, 32, 237, 129, 180, 235, 157, 188, 236, 157, 180, 236, 150, 184, 237, 138, 184, 32, 73, 68])
           | Inr (Some key) \<Rightarrow> Inr (cached_of key, True)))"

text \<open>The checks, on the fields alone.\<close>

definition check_key :: "'r key_env \<Rightarrow> go_time \<Rightarrow> string \<Rightarrow> string \<Rightarrow> cachedKey \<Rightarrow> error_text + ValidatedKey" where
  "check_key env now clientID secret ck =
     (if \<not> cc_is_active ck then Inl (bytes [235, 185, 132, 237, 153, 156, 236, 132, 177, 237, 153, 148, 235, 144, 156, 32, 237, 130, 164, 236, 158, 133, 235, 139, 136, 235, 139, 164])
      else (case tf_parse (ke_time env) (cc_expires_at ck) of
              Inl err \<Rightarrow> Inl ((bytes [235, 167, 140, 235, 163, 140, 32, 236, 139, 156, 234, 176, 132, 32, 237, 140, 140, 236, 139, 177, 32, 236, 139, 164, 237, 140, 168, 58, 32]) @ err)
            | Inr expiresAt \<Rightarrow>
                if now > expiresAt then Inl (bytes [235, 167, 140, 235, 163, 140, 235, 144, 156, 32, 237, 130, 164, 236, 158, 133, 235, 139, 136, 235, 139, 164])
                else if \<not> CompareSecretHash (ke_hashes env) secret (cc_secret_hash ck)
                then Inl (bytes [236, 156, 160, 237, 154, 168, 237, 149, 152, 236, 167, 128, 32, 236, 149, 138, 236, 157, 128, 32, 236, 139, 156, 237, 129, 172, 235, 166, 191])
                else Inr \<lparr>vk_client_id = clientID, vk_service_name = cc_service_name ck,
                           vk_expires_at = expiresAt\<rparr>))"

definition Validate ::
  "'r key_env \<Rightarrow> error_text option \<Rightarrow> go_time \<Rightarrow> string \<Rightarrow> string \<Rightarrow> 'r key_state
   \<Rightarrow> (error_text + ValidatedKey) \<times> 'r key_state" where
  "Validate env dbErr now clientID secret s =
     (case lookup_key env dbErr now clientID s of
        Inl err \<Rightarrow> (Inl err, s)
      | Inr (ck, fromDB) \<Rightarrow>
          (check_key env now clientID secret ck, if fromDB then saveToCache env now clientID ck s else s))"

text \<open>
  The same function as the goroutine of a request runs it, one access to shared state per step: the
  cache, the table, the cache again, then the checks.  Alone, its steps are \<^const>\<open>Validate\<close>.
\<close>

datatype validate_pc =
  VCache | VTable | VSave cachedKey | VCheck cachedKey | VDone "error_text + ValidatedKey"

fun validate_step ::
  "'r key_env \<Rightarrow> error_text option \<Rightarrow> go_time \<Rightarrow> string \<Rightarrow> string \<Rightarrow> validate_pc \<times> 'r key_state
   \<Rightarrow> validate_pc \<times> 'r key_state" where
  "validate_step env dbErr now clientID secret (VCache, s) =
     (case getFromCache env now clientID s of Some cached \<Rightarrow> (VCheck cached, s) | None \<Rightarrow> (VTable, s))"
| "validate_step env dbErr now clientID secret (VTable, s) =
     (case GetByClientID dbErr clientID (ks_store s) of
        Inl err \<Rightarrow> (VDone (Inl ((bytes [237, 130, 164, 32, 236, 161, 176, 237, 154, 140, 32, 236, 139, 164, 237, 140, 168, 58, 32]) @ err)), s)
      | Inr None \<Rightarrow> (VDone (Inl (bytes [236, 156, 160, 237, 154, 168, 237, 149, 152, 236, 167, 128, 32, 236, 149, 138, 236, 157, 128, 32, 237, 129, 180, 235, 157, 188, 236, 157, 180, 236, 150, 184, 237, 138, 184, 32, 73, 68])), s)
      | Inr (Some key) \<Rightarrow> (VSave (cached_of key), s))"
| "validate_step env dbErr now clientID secret (VSave ck, s) = (VCheck ck, saveToCache env now clientID ck s)"
| "validate_step env dbErr now clientID secret (VCheck ck, s) = (VDone (check_key env now clientID secret ck), s)"
| "validate_step env dbErr now clientID secret (VDone r, s) = (VDone r, s)"

lemma Validate_steps:
  "(validate_step env dbErr now clientID secret ^^ 4) (VCache, s) =
     (VDone (fst (Validate env dbErr now clientID secret s)), snd (Validate env dbErr now clientID secret s))"
  by (simp add: Validate_def lookup_key_def numeral_eq_Suc split: option.split sum.split)

subsection \<open>Soundness\<close>

definition key_env_ok :: "'r key_env \<Rightarrow> ('r \<Rightarrow> go_time \<Rightarrow> string \<Rightarrow> string option) \<Rightarrow> bool" where
  "key_env_ok env view \<longleftrightarrow> redis_ok (ke_redis env) view \<and>
     (\<forall>ck d. ke_marshal env ck = Inr d \<longrightarrow> ke_unmarshal env d = Inr ck) \<and> time_format_ok (ke_time env)"

text \<open>From \<open>now\<close> on every entry of the cache has the fields of its client's row.\<close>

definition key_cache_ok ::
  "'r key_env \<Rightarrow> ('r \<Rightarrow> go_time \<Rightarrow> string \<Rightarrow> string option) \<Rightarrow> go_time \<Rightarrow> 'r key_state \<Rightarrow> bool" where
  "key_cache_ok env view now s \<longleftrightarrow>
     (\<forall>r clientID t d ck. ks_redis s = Some r \<longrightarrow> now \<le> t \<longrightarrow> view r t (cache_key clientID) = Some d \<longrightarrow>
        ke_unmarshal env d = Inr ck \<longrightarrow>
        (\<exists>row. find_key (ks_store s) clientID = Some row \<and> ck = cached_of row))"

definition genuine_key :: "'r key_env \<Rightarrow> go_time \<Rightarrow> 'r key_state \<Rightarrow> string \<Rightarrow> string \<Rightarrow> ValidatedKey \<Rightarrow> bool" where
  "genuine_key env now s clientID secret k \<longleftrightarrow>
     (\<exists>row. find_key (ks_store s) clientID = Some row \<and> check_key env now clientID secret (cached_of row) = Inr k)"

lemma cache_key_inj [simp]: "cache_key a = cache_key b \<longleftrightarrow> a = b"
  by (simp add: cache_key_def)

lemma key_cache_ok_later: "key_cache_ok env view now s \<Longrightarrow> now \<le> now' \<Longrightarrow> key_cache_ok env view now' s"
  unfolding key_cache_ok_def by (meson order_trans)

lemma lookup_key_row:
  assumes "key_env_ok env view" and "key_cache_ok env view now s" and "lookup_key env dbErr now clientID s = Inr (ck, b)"
  shows "\<exists>row. find_key (ks_store s) clientID = Some row \<and> ck = cached_of row"
proof (cases "getFromCache env now clientID s")
  case None
  then show ?thesis using assms(3) by (auto simp: lookup_key_def GetByClientID_def split: option.splits)
next
  case (Some c)
  then obtain r d where "ks_redis s = Some r" "rd_get (ke_redis env) now r (cache_key clientID) = RedisVal d"
    "ke_unmarshal env d = Inr ck"
    using assms(3) by (auto simp: lookup_key_def getFromCache_def split: option.splits redis_reply.splits sum.splits)
  moreover from this have "view r now (cache_key clientID) = Some d"
    using assms(1) redis_get_val by (auto simp: key_env_ok_def)
  ultimately show ?thesis using assms(2) unfolding key_cache_ok_def by blast
qed

lemma save_row_ok:
  assumes "key_env_ok env view" and "key_cache_ok env view now s" and "find_key (ks_store s) clientID = Some row"
    and "now \<le> t0"
  shows "key_cache_ok env view t0 (saveToCache env t0 clientID (cached_of row) s)"
proof (cases "ks_redis s")
  case None
  then show ?thesis using key_cache_ok_later [OF assms(2,4)] by (simp add: saveToCache_def)
next
  case (Some r)
  show ?thesis
  proof (cases "ke_marshal env (cached_of row)")
    case (Inl e)
    then show ?thesis using Some key_cache_ok_later [OF assms(2,4)] by (simp add: saveToCache_def)
  next
    case (Inr d)
    obtain e r' where st: "rd_set (ke_redis env) t0 r (cache_key clientID) d clientKeyCacheTTL = (e, r')"
      by (metis surj_pair)
    have v: "view r' = set_view (view r) t0 (cache_key clientID) d clientKeyCacheTTL \<or> view r' = view r"
      using redis_set_view [of _ view, OF _ st] assms(1) by (auto simp: key_env_ok_def)
    have "ke_unmarshal env d = Inr (cached_of row)" using assms(1) Inr by (simp add: key_env_ok_def)
    then show ?thesis
      using key_cache_ok_later [OF assms(2,4)] v assms(3) Some Inr st
      by (auto simp: saveToCache_def key_cache_ok_def set_view_def split: if_splits)
  qed
qed

text \<open>
  The validator is what the middleware needs: bundled with its environment, the moment and the state of
  the database, it interprets the interface.
\<close>

record 'r key_service =
  sv_env :: "'r key_env"
  sv_view :: "'r \<Rightarrow> go_time \<Rightarrow> string \<Rightarrow> string option"
  sv_db_err :: "error_text option"
  sv_now :: go_time
  sv_state :: "'r key_state"

definition service_validate ::
  "'r key_service \<Rightarrow> string \<Rightarrow> string \<Rightarrow> (error_text + ValidatedKey) \<times> 'r key_service" where
  "service_validate sv clientID secret =
     (case Validate (sv_env sv) (sv_db_err sv) (sv_now sv) clientID secret (sv_state sv) of
        (r, s') \<Rightarrow> (r, sv\<lparr>sv_state := s'\<rparr>))"

definition service_ok :: "'r key_service \<Rightarrow> bool" where
  "service_ok sv \<longleftrightarrow> key_env_ok (sv_env sv) (sv_view sv) \<and>
     key_cache_ok (sv_env sv) (sv_view sv) (sv_now sv) (sv_state sv)"

definition service_genuine :: "'r key_service \<Rightarrow> string \<Rightarrow> string \<Rightarrow> ValidatedKey \<Rightarrow> bool" where
  "service_genuine sv = genuine_key (sv_env sv) (sv_now sv) (sv_state sv)"

lemma check_key_id: "check_key env now clientID secret ck = Inr k \<Longrightarrow> vk_client_id k = clientID"
  by (auto simp: check_key_def split: if_splits sum.splits)

lemma Validate_store [simp]: "ks_store (snd (Validate env dbErr now clientID secret s)) = ks_store s"
  by (auto simp: Validate_def saveToCache_def split: sum.splits option.splits prod.splits)

lemma Validate_sound:
  assumes "key_env_ok env view" and "key_cache_ok env view now s"
  shows "fst (Validate env dbErr now clientID secret s) = Inr k \<Longrightarrow> genuine_key env now s clientID secret k"
    and "key_cache_ok env view now (snd (Validate env dbErr now clientID secret s))"
proof -
  assume "fst (Validate env dbErr now clientID secret s) = Inr k"
  then obtain ck b where "lookup_key env dbErr now clientID s = Inr (ck, b)" "check_key env now clientID secret ck = Inr k"
    by (auto simp: Validate_def split: sum.splits prod.splits)
  then show "genuine_key env now s clientID secret k"
    using lookup_key_row [OF assms] unfolding genuine_key_def by metis
next
  show "key_cache_ok env view now (snd (Validate env dbErr now clientID secret s))"
    using assms(2) lookup_key_row [OF assms] save_row_ok [OF assms(1,2)]
    by (auto simp: Validate_def split: sum.splits prod.splits) blast
qed

interpretation keysvc: key_validator service_validate service_ok service_genuine
proof
  fix s s' :: "'r key_service" and clientID secret k r
  show "service_ok s \<Longrightarrow> service_validate s clientID secret = (Inr k, s') \<Longrightarrow> service_genuine s clientID secret k"
    using Validate_sound(1) [of "sv_env s" "sv_view s" "sv_now s" "sv_state s" "sv_db_err s" clientID secret k]
    by (auto simp: service_ok_def service_validate_def service_genuine_def split: prod.splits)
  show "service_ok s \<Longrightarrow> service_validate s clientID secret = (r, s') \<Longrightarrow> service_ok s'"
    using Validate_sound(2) [of "sv_env s" "sv_view s" "sv_now s" "sv_state s" "sv_db_err s" clientID secret]
    by (auto simp: service_ok_def service_validate_def split: prod.splits)
  show "service_genuine s clientID secret k \<Longrightarrow> vk_client_id k = clientID"
    using check_key_id by (auto simp: service_genuine_def genuine_key_def)
qed

end
