(* ===== verification/KeyAdmin.thy ===== *)
theory KeyAdmin
  imports KeyService AuditTrail
begin

text \<open>
  \<^verbatim>\<open>internal/handler/clientkey_admin.go\<close> and \<^verbatim>\<open>clientkey_rotate.go\<close>: issuing, listing, revoking, reissuing and
  rotating client keys.  A handler gets the request, the outcome of decoding its body and the errors of the
  services, and returns its response and the new state.  The lemmas follow a key through its life.
\<close>

text \<open>\<open>kv_clock i\<close> is the i-th reading of the clock within the request; \<open>kv_validator\<close> is false for a nil validator.\<close>

record 'r keys_env =
  kv_key_env :: "'r key_env"
  kv_validator :: bool
  kv_clock :: "nat \<Rightarrow> go_time"
  kv_rand :: "error_text + string"
  kv_fail_get :: "error_text option"
  kv_fail_exec :: "error_text option"
  kv_fail_audit :: "error_text option"

record 'r keys_state =
  kx_keys :: "'r key_state"
  kx_audit :: AuditLog

record createClientKeyRequest =
  cr_client_id :: string
  cr_service_name :: string
  cr_description :: string
  cr_ttl_hours :: int

text \<open>
  \<^verbatim>\<open>ShouldBindJSON\<close>: decoding, then the \<^verbatim>\<open>binding\<close> tags; \<open>invalid\<close> is the validator's text.
\<close>

definition bind_create :: "error_text \<Rightarrow> error_text + createClientKeyRequest \<Rightarrow> error_text + createClientKeyRequest" where
  "bind_create invalid decoded =
     (case decoded of
        Inl e \<Rightarrow> Inl e
      | Inr req \<Rightarrow>
          if cr_client_id req = [] \<or> cr_service_name req = [] \<or> cr_ttl_hours req < 1 then Inl invalid else Inr req)"

definition bind_reissue :: "error_text \<Rightarrow> error_text + int \<Rightarrow> error_text + int" where
  "bind_reissue invalid decoded =
     (case decoded of
        Inl e \<Rightarrow> Inl e
      | Inr ttl_hours \<Rightarrow> if ttl_hours < 1 then Inl invalid else Inr ttl_hours)"

definition client_key_json :: "ClientKey \<Rightarrow> json" where
  "client_key_json k = JObj
     [(''id'', JInt (ck_id k)), (''client_id'', JStr (ck_client_id k)), (''secret_prefix'', JStr (ck_secret_prefix k)),
      (''service_name'', JStr (ck_service_name k)), (''description'', JStr (ck_description k)),
      (''is_active'', JBool (ck_is_active k)), (''expires_at'', JStr (ck_expires_at k)),
      (''created_at'', JStr (ck_created_at k)), (''updated_at'', JStr (ck_updated_at k))]"

text \<open>\<^verbatim>\<open>time.Duration(ttlHours) * time.Hour\<close>, in 64 bits.\<close>

definition ttl_duration :: "int \<Rightarrow> duration" where
  "ttl_duration ttl_hours = int64 (ttl_hours * (3600 * second))"

definition secret_warning :: string where
  "secret_warning = (bytes [236, 157, 180, 32, 236, 139, 156, 237, 129, 172, 235, 166, 191, 236, 157, 128, 32, 235, 139, 164, 236, 139, 156, 32, 237, 153, 149, 236, 157, 184, 237, 149, 160, 32, 236, 136, 152, 32, 236, 151, 134, 236, 138, 181, 235, 139, 136, 235, 139, 164, 46, 32, 236, 149, 136, 236, 160, 132, 237, 149, 156, 32, 234, 179, 179, 236, 151, 144, 32, 235, 179, 180, 234, 180, 128, 237, 149, 152, 236, 132, 184, 236, 154, 148, 46])"

definition invalidate :: "'r keys_env \<Rightarrow> go_time \<Rightarrow> string \<Rightarrow> 'r key_state \<Rightarrow> 'r key_state" where
  "invalidate env now clientID s =
     (if kv_validator env then InvalidateCache (kv_key_env env) now clientID s else s)"

definition record_audit ::
  "'r keys_env \<Rightarrow> go_time \<Rightarrow> int \<Rightarrow> string \<Rightarrow> string \<Rightarrow> string \<Rightarrow> AuditLog \<Rightarrow> AuditLog" where
  "record_audit env now keyID action by detail a =
     snd (audit_record (kv_fail_audit env) (ke_time (kv_key_env env)) now keyID action by detail a)"

text \<open>A new secret, its hash and its prefix, or the response that ends the request.\<close>

definition new_secret :: "'r keys_env \<Rightarrow> http_response + (string \<times> string \<times> string)" where
  "new_secret env =
     (case GenerateClientSecret (kv_rand env) of
        Inl _ \<Rightarrow> Inl (error_response 500 (bytes [236, 139, 156, 237, 129, 172, 235, 166, 191, 32, 236, 131, 157, 236, 132, 177, 32, 236, 139, 164, 237, 140, 168]))
      | Inr secret \<Rightarrow>
          (case HashSecret (ke_hashes (kv_key_env env)) secret of
             Inl _ \<Rightarrow> Inl (error_response 500 (bytes [236, 139, 156, 237, 129, 172, 235, 166, 191, 32, 237, 149, 180, 236, 139, 177, 32, 236, 139, 164, 237, 140, 168]))
           | Inr secretHash \<Rightarrow> Inr (secret, secretHash, take 12 secret)))"

definition ClientKey_Create ::
  "'r keys_env \<Rightarrow> error_text \<Rightarrow> error_text + createClientKeyRequest \<Rightarrow> 'r keys_state \<Rightarrow> http_response \<times> 'r keys_state" where
  "ClientKey_Create env invalid decoded s =
     (case bind_create invalid decoded of
        Inl e \<Rightarrow> (error_response 400 ((bytes [236, 158, 152, 235, 170, 187, 235, 144, 156, 32, 236, 154, 148, 236, 178, 173, 58, 32]) @ e), s)
      | Inr req \<Rightarrow>
          (case GetByClientID (kv_fail_get env) (cr_client_id req) (ks_store (kx_keys s)) of
             Inl e \<Rightarrow> (error_response 500 e, s)
           | Inr (Some _) \<Rightarrow> (error_response 409 ((bytes [236, 157, 180, 235, 175, 184, 32, 236, 161, 180, 236, 158, 172, 237, 149, 152, 235, 138, 148, 32, 99, 108, 105, 101, 110, 116, 95, 105, 100, 236, 158, 133, 235, 139, 136, 235, 139, 164, 58, 32]) @ cr_client_id req), s)
           | Inr None \<Rightarrow>
               (case new_secret env of
                  Inl resp \<Rightarrow> (resp, s)
                | Inr (secret, secretHash, secretPrefix) \<Rightarrow>
                    (let expiresAt = kv_clock env 0 + ttl_duration (cr_ttl_hours req)
                     in case ClientKeyStore_Create (kv_fail_exec env) (ke_time (kv_key_env env)) (kv_clock env 1)
                               (cr_client_id req) secretHash secretPrefix (cr_service_name req)
                               (cr_description req) expiresAt (ks_store (kx_keys s)) of
                          (Inl e, st) \<Rightarrow> (error_response 500 e, s\<lparr>kx_keys := (kx_keys s)\<lparr>ks_store := st\<rparr>\<rparr>)
                        | (Inr key, st) \<Rightarrow>
                            (json_response 201 [(''client_key'', client_key_json key), (''secret'', JStr secret),
                                                (''warning'', JStr secret_warning)],
                             \<lparr>kx_keys = (kx_keys s)\<lparr>ks_store := st\<rparr>,
                              kx_audit = record_audit env (kv_clock env 2) (ck_id key) ''client_key_created'' ''admin''
                                ((bytes [237, 129, 180, 235, 157, 188, 236, 157, 180, 236, 150, 184, 237, 138, 184, 32, 237, 130, 164, 32, 235, 176, 156, 234, 184, 137, 58, 32]) @ cr_client_id req) (kx_audit s)\<rparr>)))))"

definition ClientKey_List :: "'r keys_env \<Rightarrow> gin \<Rightarrow> 'r keys_state \<Rightarrow> http_response" where
  "ClientKey_List env c s =
     (let svc = gn_query c ''service'';
          st = ks_store (kx_keys s)
      in case (if svc \<noteq> [] then ListByService (kv_fail_get env) svc st else ClientKeyStore_List (kv_fail_get env) st) of
           Inl e \<Rightarrow> error_response 500 e
         | Inr keys \<Rightarrow> json_response 200 [(''client_keys'', json_list client_key_json keys)])"

definition ClientKey_Revoke :: "'r keys_env \<Rightarrow> gin \<Rightarrow> 'r keys_state \<Rightarrow> http_response \<times> 'r keys_state" where
  "ClientKey_Revoke env c s =
     (let clientID = gn_param c ''client_id'' in
      case ClientKeyStore_Deactivate (kv_fail_exec env) (ke_time (kv_key_env env)) (kv_clock env 0) clientID
             (ks_store (kx_keys s)) of
        (Some (KeyNotFound _), st) \<Rightarrow>
          (error_response 404 ((bytes [237, 130, 164, 235, 165, 188, 32, 236, 176, 190, 236, 157, 132, 32, 236, 136, 152, 32, 236, 151, 134, 236, 138, 181, 235, 139, 136, 235, 139, 164, 58, 32]) @ clientID), s\<lparr>kx_keys := (kx_keys s)\<lparr>ks_store := st\<rparr>\<rparr>)
      | (Some (StoreError e), st) \<Rightarrow> (error_response 500 e, s\<lparr>kx_keys := (kx_keys s)\<lparr>ks_store := st\<rparr>\<rparr>)
      | (None, st) \<Rightarrow>
          (json_response 200 [(''message'', JStr (bytes [237, 130, 164, 234, 176, 128, 32, 235, 185, 132, 237, 153, 156, 236, 132, 177, 237, 153, 148, 235, 144, 152, 236, 151, 136, 236, 138, 181, 235, 139, 136, 235, 139, 164]))],
           \<lparr>kx_keys = invalidate env (kv_clock env 1) clientID ((kx_keys s)\<lparr>ks_store := st\<rparr>),
            kx_audit = record_audit env (kv_clock env 2) 0 ''client_key_revoked'' ''admin''
              ((bytes [237, 129, 180, 235, 157, 188, 236, 157, 180, 236, 150, 184, 237, 138, 184, 32, 237, 130, 164, 32, 237, 143, 144, 234, 184, 176, 58, 32]) @ clientID) (kx_audit s)\<rparr>))"

definition ClientKey_Reissue ::
  "'r keys_env \<Rightarrow> error_text \<Rightarrow> error_text + int \<Rightarrow> gin \<Rightarrow> 'r keys_state \<Rightarrow> http_response \<times> 'r keys_state" where
  "ClientKey_Reissue env invalid decoded c s =
     (let clientID = gn_param c ''client_id'' in
      case bind_reissue invalid decoded of
        Inl e \<Rightarrow> (error_response 400 ((bytes [236, 158, 152, 235, 170, 187, 235, 144, 156, 32, 236, 154, 148, 236, 178, 173, 58, 32]) @ e), s)
      | Inr ttl_hours \<Rightarrow>
          (case GetByClientID (kv_fail_get env) clientID (ks_store (kx_keys s)) of
             Inl e \<Rightarrow> (error_response 500 e, s)
           | Inr None \<Rightarrow> (error_response 404 ((bytes [237, 130, 164, 235, 165, 188, 32, 236, 176, 190, 236, 157, 132, 32, 236, 136, 152, 32, 236, 151, 134, 236, 138, 181, 235, 139, 136, 235, 139, 164, 58, 32]) @ clientID), s)
           | Inr (Some existing) \<Rightarrow>
               (case new_secret env of
                  Inl resp \<Rightarrow> (resp, s)
                | Inr (secret, secretHash, secretPrefix) \<Rightarrow>
                    (let expiresAt = kv_clock env 0 + ttl_duration ttl_hours
                     in case ClientKeyStore_Reissue (kv_fail_exec env) (ke_time (kv_key_env env)) (kv_clock env 1)
                               clientID secretHash secretPrefix expiresAt (ks_store (kx_keys s)) of
                          (Some e, st) \<Rightarrow>
                            (error_response 500 (store_error_text e), s\<lparr>kx_keys := (kx_keys s)\<lparr>ks_store := st\<rparr>\<rparr>)
                        | (None, st) \<Rightarrow>
                            (json_response 200
                               [(''client_id'', JStr clientID), (''secret'', JStr secret),
                                (''expires_at'', JStr (tf_format (ke_time (kv_key_env env)) expiresAt)),
                                (''warning'', JStr secret_warning)],
                             \<lparr>kx_keys = invalidate env (kv_clock env 2) clientID ((kx_keys s)\<lparr>ks_store := st\<rparr>),
                              kx_audit = record_audit env (kv_clock env 3) (ck_id existing) ''client_key_reissued'' ''admin''
                                ((bytes [237, 129, 180, 235, 157, 188, 236, 157, 180, 236, 150, 184, 237, 138, 184, 32, 237, 130, 164, 32, 236, 158, 172, 235, 176, 156, 234, 184, 137, 58, 32]) @ clientID) (kx_audit s)\<rparr>)))))"

text \<open>\<open>expired\<close>: the check of the expiry is skipped when the stored text cannot be parsed.\<close>

definition expired :: "time_format \<Rightarrow> go_time \<Rightarrow> string \<Rightarrow> bool" where
  "expired tf now expiresAt = (case tf_parse tf expiresAt of Inl _ \<Rightarrow> False | Inr t \<Rightarrow> now > t)"

definition ClientKey_Rotate :: "'r keys_env \<Rightarrow> gin \<Rightarrow> 'r keys_state \<Rightarrow> http_response \<times> 'r keys_state" where
  "ClientKey_Rotate env c s =
     (let clientID = GetClientID c in
      if clientID = [] then (error_response 401 (bytes [236, 157, 184, 236, 166, 157, 32, 236, 160, 149, 235, 179, 180, 234, 176, 128, 32, 236, 151, 134, 236, 138, 181, 235, 139, 136, 235, 139, 164]), s)
      else
        (case GetByClientID (kv_fail_get env) clientID (ks_store (kx_keys s)) of
           Inl _ \<Rightarrow> (error_response 500 (bytes [237, 130, 164, 32, 236, 161, 176, 237, 154, 140, 32, 236, 139, 164, 237, 140, 168]), s)
         | Inr None \<Rightarrow> (error_response 404 (bytes [237, 130, 164, 235, 165, 188, 32, 236, 176, 190, 236, 157, 132, 32, 236, 136, 152, 32, 236, 151, 134, 236, 138, 181, 235, 139, 136, 235, 139, 164]), s)
         | Inr (Some existing) \<Rightarrow>
             if \<not> ck_is_active existing
             then (error_response 403 (bytes [235, 185, 132, 237, 153, 156, 236, 132, 177, 237, 153, 148, 235, 144, 156, 32, 237, 130, 164, 235, 138, 148, 32, 235, 161, 156, 237, 133, 140, 236, 157, 180, 236, 133, 152, 237, 149, 160, 32, 236, 136, 152, 32, 236, 151, 134, 236, 138, 181, 235, 139, 136, 235, 139, 164]), s)
             else if expired (ke_time (kv_key_env env)) (kv_clock env 0) (ck_expires_at existing)
             then (error_response 403 (bytes [235, 167, 140, 235, 163, 140, 235, 144, 156, 32, 237, 130, 164, 235, 138, 148, 32, 235, 161, 156, 237, 133, 140, 236, 157, 180, 236, 133, 152, 237, 149, 160, 32, 236, 136, 152, 32, 236, 151, 134, 236, 138, 181, 235, 139, 136, 235, 139, 164, 46, 32, 234, 180, 128, 235, 166, 172, 236, 158, 144, 236, 151, 144, 234, 178, 140, 32, 236, 158, 172, 235, 176, 156, 234, 184, 137, 236, 157, 132, 32, 236, 154, 148, 236, 178, 173, 237, 149, 152, 236, 132, 184, 236, 154, 148]), s)
             else
               (case new_secret env of
                  Inl resp \<Rightarrow> (resp, s)
                | Inr (secret, secretHash, secretPrefix) \<Rightarrow>
                    (case RotateSecret (kv_fail_exec env) (ke_time (kv_key_env env)) (kv_clock env 1)
                            clientID secretHash secretPrefix (ks_store (kx_keys s)) of
                       (Some _, st) \<Rightarrow>
                         (error_response 500 (bytes [236, 139, 156, 237, 129, 172, 235, 166, 191, 32, 234, 181, 144, 236, 178, 180, 32, 236, 139, 164, 237, 140, 168]), s\<lparr>kx_keys := (kx_keys s)\<lparr>ks_store := st\<rparr>\<rparr>)
                     | (None, st) \<Rightarrow>
                         (json_response 200
                            [(''client_id'', JStr clientID), (''secret'', JStr secret),
                             (''expires_at'', JStr (ck_expires_at existing)), (''warning'', JStr secret_warning)],
                          \<lparr>kx_keys = invalidate env (kv_clock env 2) clientID ((kx_keys s)\<lparr>ks_store := st\<rparr>),
                           kx_audit = record_audit env (kv_clock env 3) (ck_id existing) ''client_key_rotated'' clientID
                             (bytes [236, 133, 128, 237, 148, 132, 32, 235, 161, 156, 237, 133, 140, 236, 157, 180, 236, 133, 152]) (kx_audit s)\<rparr>)))))"

subsection \<open>The table after each operation\<close>

lemma find_append: "find_key \<lparr>cks_rows = cks_rows st @ [row], cks_next_id = i\<rparr> c =
    (case find_key st c of Some k \<Rightarrow> Some k | None \<Rightarrow> if ck_client_id row = c then Some row else None)"
proof -
  have "List.find P (xs @ [x]) = (case List.find P xs of Some y \<Rightarrow> Some y | None \<Rightarrow> if P x then Some x else None)"
    for P and xs :: "ClientKey list" and x
    by (induction xs) auto
  then show ?thesis by (simp add: find_key_def)
qed

lemma find_after_create:
  assumes "ClientKeyStore_Create fail tf now c h p sn d e st = (Inr key, st')"
  shows "find_key st c = None"
    and "\<exists>row. find_key st' c = Some row \<and> ck_secret_hash row = h \<and> ck_service_name row = sn \<and>
      ck_is_active row \<and> ck_expires_at row = tf_format tf e \<and> key = public_key row"
    and "c' \<noteq> c \<Longrightarrow> find_key st' c' = find_key st c'"
  using assms
  by (auto simp: ClientKeyStore_Create_def Let_def find_append public_key_def split: option.splits if_splits)

lemma find_after_reissue:
  assumes "ClientKeyStore_Reissue fail tf now c h p e st = (r, st')"
  shows "find_key st' c' =
     (if c' = c \<and> fail = None
      then map_option (\<lambda>k. k\<lparr>ck_secret_hash := h, ck_secret_prefix := p, ck_is_active := True,
        ck_expires_at := tf_format tf e, ck_updated_at := tf_format tf now\<rparr>) (find_key st c)
      else find_key st c')"
  using assms find_key_id
  by (cases "find_key st c'")
    (auto simp: ClientKeyStore_Reissue_def case_prod_beta Let_def find_update split: option.splits if_splits)

subsection \<open>The cache over time\<close>

text \<open>Saving the current row keeps the cache coherent from any moment on, whenever it happens.\<close>

lemma save_row_keeps:
  assumes "key_env_ok env view" and "key_cache_ok env view T s" and "find_key (ks_store s) clientID = Some row"
  shows "key_cache_ok env view T (saveToCache env now clientID (cached_of row) s)"
proof (cases "ks_redis s")
  case None
  then show ?thesis using assms(2) by (simp add: saveToCache_def)
next
  case (Some r)
  show ?thesis
  proof (cases "ke_marshal env (cached_of row)")
    case (Inr d)
    obtain e r' where st: "rd_set (ke_redis env) now r (cache_key clientID) d clientKeyCacheTTL = (e, r')"
      by (metis surj_pair)
    have v: "view r' = set_view (view r) now (cache_key clientID) d clientKeyCacheTTL \<or> view r' = view r"
      using redis_set_view [of _ view, OF _ st] assms(1) by (auto simp: key_env_ok_def)
    have "ke_unmarshal env d = Inr (cached_of row)" using assms(1) Inr by (simp add: key_env_ok_def)
    then show ?thesis
      using assms(2,3) v Some Inr st by (auto simp: saveToCache_def key_cache_ok_def set_view_def split: if_splits)
  qed (use Some assms(2) in \<open>simp add: saveToCache_def\<close>)
qed

text \<open>So no validation spoils it, even one that answers from an entry that is stale until then.\<close>

lemma lookup_fromDB: "lookup_key env dbErr now c s = Inr (ck, True) \<Longrightarrow>
    \<exists>row. find_key (ks_store s) c = Some row \<and> ck = cached_of row"
  by (auto simp: lookup_key_def GetByClientID_def split: option.splits)

lemma Validate_keeps:
  assumes "key_env_ok env view" and "key_cache_ok env view T s"
  shows "key_cache_ok env view T (snd (Validate env dbErr now c secret s))"
  using assms save_row_keeps [OF assms] lookup_fromDB [of env dbErr now c s]
  by (fastforce simp: Validate_def split: sum.splits prod.splits)

text \<open>A run of validations: each with its moment and its database error.\<close>

type_synonym validation = "error_text option \<times> go_time \<times> string \<times> string"

definition after_validations :: "'r key_env \<Rightarrow> validation list \<Rightarrow> 'r key_state \<Rightarrow> 'r key_state" where
  "after_validations env vs s = foldl (\<lambda>s (e, t, c, secret). snd (Validate env e t c secret s)) s vs"

lemma after_validations_store [simp]: "ks_store (after_validations env vs s) = ks_store s"
  by (induction vs arbitrary: s) (auto simp: after_validations_def)

lemma after_validations_keeps:
  "key_env_ok env view \<Longrightarrow> key_cache_ok env view T s \<Longrightarrow> key_cache_ok env view T (after_validations env vs s)"
proof (induction vs arbitrary: s)
  case (Cons v vs)
  obtain e t c secret where v: "v = (e, t, c, secret)" by (cases v)
  show ?case using Cons.IH [OF Cons.prems(1) Validate_keeps [OF Cons.prems, of e t c secret]]
    by (simp add: after_validations_def v)
qed (simp add: after_validations_def)

text \<open>Exactly the genuine pairs are accepted, as long as the cache is coherent and the database answers.\<close>

lemma Validate_exact:
  assumes "key_env_ok env view" and "key_cache_ok env view now s"
  shows "fst (Validate env None now c secret s) = Inr k \<longleftrightarrow> genuine_key env now s c secret k"
proof
  show "fst (Validate env None now c secret s) = Inr k \<Longrightarrow> genuine_key env now s c secret k"
    by (rule Validate_sound(1) [OF assms])
  assume g: "genuine_key env now s c secret k"
  then obtain row where row: "find_key (ks_store s) c = Some row" "check_key env now c secret (cached_of row) = Inr k"
    by (auto simp: genuine_key_def)
  have "\<exists>ck b. lookup_key env None now c s = Inr (ck, b)"
    using row(1) by (cases "getFromCache env now c s") (auto simp: lookup_key_def GetByClientID_def)
  then obtain ck b where l: "lookup_key env None now c s = Inr (ck, b)" by blast
  then have "ck = cached_of row" using lookup_key_row [OF assms l] row(1) by auto
  then show "fst (Validate env None now c secret s) = Inr k" using l row(2) by (simp add: Validate_def)
qed

lemma check_key_iff:
  "check_key env now c secret ck = Inr k \<longleftrightarrow>
     cc_is_active ck \<and> (\<exists>t. tf_parse (ke_time env) (cc_expires_at ck) = Inr t \<and> now \<le> t \<and>
       CompareSecretHash (ke_hashes env) secret (cc_secret_hash ck) \<and>
       k = \<lparr>vk_client_id = c, vk_service_name = cc_service_name ck, vk_expires_at = t\<rparr>)"
  by (auto simp: check_key_def split: sum.split)

lemma genuine_key_iff:
  "genuine_key env now s c secret k \<longleftrightarrow>
     (\<exists>row t. find_key (ks_store s) c = Some row \<and> ck_is_active row \<and>
        tf_parse (ke_time env) (ck_expires_at row) = Inr t \<and> now \<le> t \<and>
        CompareSecretHash (ke_hashes env) secret (ck_secret_hash row) \<and>
        k = \<lparr>vk_client_id = c, vk_service_name = ck_service_name row, vk_expires_at = t\<rparr>)"
  by (auto simp: genuine_key_def check_key_iff cached_of_def)

text \<open>
  The validator is exact.  While the cache is coherent and the database answers, \<^verbatim>\<open>Validate\<close> accepts a pair
  exactly when the table has an active row for the client whose expiry has not passed and whose hash the
  secret matches, it returns that row's service and expiry, and it leaves the cache coherent, whether it
  answered from the cache or from the table.
\<close>

theorem validator_is_exact:
  assumes "key_env_ok env view" and "key_cache_ok env view now s"
  shows "(fst (Validate env None now c secret s) = Inr k \<longleftrightarrow>
     (\<exists>row t. find_key (ks_store s) c = Some row \<and> ck_is_active row \<and>
        tf_parse (ke_time env) (ck_expires_at row) = Inr t \<and> now \<le> t \<and>
        CompareSecretHash (ke_hashes env) secret (ck_secret_hash row) \<and>
        k = \<lparr>vk_client_id = c, vk_service_name = ck_service_name row, vk_expires_at = t\<rparr>)) \<and>
    key_cache_ok env view now (snd (Validate env None now c secret s))"
  using Validate_keeps [OF assms, of None now c secret]
  by (simp add: Validate_exact [OF assms] genuine_key_iff)

subsection \<open>A concrete environment\<close>

text \<open>For the instances: fields in hexadecimal with separators, Redis in memory.\<close>

definition sample_marshal :: "cachedKey \<Rightarrow> error_text + string" where
  "sample_marshal ck = Inr (hex_encode (cc_secret_hash ck) @ '','' @ hex_encode (cc_service_name ck) @ '','' @
     hex_encode (cc_expires_at ck) @ '','' @ (if cc_is_active ck then ''1'' else ''0''))"

definition sample_unmarshal :: "string \<Rightarrow> error_text + cachedKey" where
  "sample_unmarshal s =
     (case split_at CHR '','' s of
        [h, n, e, a] \<Rightarrow>
          (case (hex_decode h, hex_decode n, hex_decode e) of
             (Inr h', Inr n', Inr e') \<Rightarrow>
               Inr \<lparr>cc_secret_hash = h', cc_service_name = n', cc_is_active = (a = ''1''), cc_expires_at = e'\<rparr>
           | _ \<Rightarrow> Inl ''invalid'')
      | _ \<Rightarrow> Inl ''invalid'')"

lemma split_at_append: "c \<notin> set a \<Longrightarrow> split_at c (a @ c # b) = a # split_at c b"
  by (induction a) auto

lemma comma_not_hex: "CHR '','' \<notin> set (hex_encode bs)"
  using hex_encode_chars [of "CHR '',''" bs] by (auto simp: hex_digit_def split: if_splits dest!: arg_cong [where f = "of_char :: char \<Rightarrow> nat"] simp: of_char_of)

lemma sample_marshal_roundtrip: "sample_marshal ck = Inr d \<Longrightarrow> sample_unmarshal d = Inr ck"
  by (auto simp: sample_marshal_def sample_unmarshal_def split_at_append comma_not_hex)

definition sample_key_env :: "mem_redis key_env" where
  "sample_key_env = \<lparr>ke_redis = mem_redis, ke_marshal = sample_marshal, ke_unmarshal = sample_unmarshal,
     ke_time = sample_time, ke_hashes = sample_hashes\<rparr>"

lemma sample_key_env_ok: "key_env_ok sample_key_env mem_view"
  using mem_redis_ok sample_marshal_roundtrip sample_time_ok by (simp add: key_env_ok_def sample_key_env_def)

definition sample_row :: ClientKey where
  "sample_row = \<lparr>ck_id = 1, ck_client_id = ''app'', ck_secret_hash = ''$'' @ ''pw'' @ replicate 57 CHR ''0'',
     ck_secret_prefix = ''pw'', ck_service_name = ''mobile'', ck_description = [], ck_is_active = True,
     ck_expires_at = ''100'', ck_created_at = ''0'', ck_updated_at = ''0''\<rparr>"

definition sample_keys :: "mem_redis key_state" where
  "sample_keys = \<lparr>ks_store = \<lparr>cks_rows = [sample_row], cks_next_id = 2\<rparr>, ks_redis = Some []\<rparr>"

lemma sample_keys_coherent: "key_cache_ok sample_key_env mem_view t sample_keys"
  by (auto simp: key_cache_ok_def sample_keys_def mem_view_def)

theorem validator_is_exact_witness:
  "fst (Validate sample_key_env None 0 ''app'' ''pw'' sample_keys) =
     Inr \<lparr>vk_client_id = ''app'', vk_service_name = ''mobile'', vk_expires_at = 100 * second\<rparr>"
proof -
  have "find_key (ks_store sample_keys) ''app'' = Some sample_row"
    by (simp add: find_key_def sample_keys_def sample_row_def)
  moreover have "tf_parse sample_time ''100'' = Inr (100 * second)"
    by (simp add: sample_time_def digit_value_def)
  moreover have "CompareSecretHash sample_hashes ''pw'' (ck_secret_hash sample_row)"
    by (simp add: CompareSecretHash_def sample_hashes_def sample_row_def numeral_eq_Suc)
  ultimately show ?thesis
    using validator_is_exact [OF sample_key_env_ok sample_keys_coherent, of 0 "''app''" "''pw''"
        "\<lparr>vk_client_id = ''app'', vk_service_name = ''mobile'', vk_expires_at = 100 * second\<rparr>"]
    by (simp add: sample_key_env_def sample_row_def second_def)
qed

subsection \<open>A change of one row\<close>

text \<open>From \<open>T\<close> on the cache has nothing for the client.\<close>

definition no_entry :: "('r \<Rightarrow> go_time \<Rightarrow> string \<Rightarrow> string option) \<Rightarrow> go_time \<Rightarrow> string \<Rightarrow> 'r key_state \<Rightarrow> bool" where
  "no_entry view T c s \<longleftrightarrow> (\<forall>r t. ks_redis s = Some r \<longrightarrow> T \<le> t \<longrightarrow> view r t (cache_key c) = None)"

lemma row_change_keeps:
  assumes "key_cache_ok env view T s" and "\<And>c'. c' \<noteq> c \<Longrightarrow> find_key st' c' = find_key (ks_store s) c'"
    and "no_entry view T c s"
  shows "key_cache_ok env view T (s\<lparr>ks_store := st'\<rparr>)"
  unfolding key_cache_ok_def
proof (intro allI impI)
  fix r clientID t d ck
  assume h: "ks_redis (s\<lparr>ks_store := st'\<rparr>) = Some r" "T \<le> t" "view r t (cache_key clientID) = Some d" "ke_unmarshal env d = Inr ck"
  then have "clientID \<noteq> c" using assms(3) by (auto simp: no_entry_def)
  then show "\<exists>row. find_key (ks_store (s\<lparr>ks_store := st'\<rparr>)) clientID = Some row \<and> ck = cached_of row"
    using h assms(1,2) by (auto simp: key_cache_ok_def)
qed

lemma new_row_keeps:
  assumes "key_cache_ok env view T s" and "\<And>c'. c' \<noteq> c \<Longrightarrow> find_key st' c' = find_key (ks_store s) c'"
    and "find_key (ks_store s) c = None"
  shows "key_cache_ok env view T (s\<lparr>ks_store := st'\<rparr>)"
  unfolding key_cache_ok_def
proof (intro allI impI)
  fix r clientID t d ck
  assume h: "ks_redis (s\<lparr>ks_store := st'\<rparr>) = Some r" "T \<le> t" "view r t (cache_key clientID) = Some d" "ke_unmarshal env d = Inr ck"
  then have "\<exists>row. find_key (ks_store s) clientID = Some row \<and> ck = cached_of row"
    using assms(1) by (auto simp: key_cache_ok_def)
  moreover from this have "clientID \<noteq> c" using assms(3) by auto
  ultimately show "\<exists>row. find_key (ks_store (s\<lparr>ks_store := st'\<rparr>)) clientID = Some row \<and> ck = cached_of row"
    using assms(2) by auto
qed

text \<open>\<open>del_ok\<close>: the deletion, if there is a Redis server, reports no error.\<close>

definition del_ok :: "'r key_env \<Rightarrow> go_time \<Rightarrow> string \<Rightarrow> 'r key_state \<Rightarrow> bool" where
  "del_ok env now c s =
     (case ks_redis s of None \<Rightarrow> True | Some r \<Rightarrow> fst (rd_del (ke_redis env) now r (cache_key c)) = None)"

lemma invalidated:
  assumes "key_env_ok env view"
  shows "del_ok env now c s \<Longrightarrow> no_entry view T c (InvalidateCache env now c s)"
    and "no_entry view T c s \<Longrightarrow> no_entry view T c (InvalidateCache env now c s)"
    and "ks_store (InvalidateCache env now c s) = ks_store s"
    and "key_cache_ok env view T s \<Longrightarrow> key_cache_ok env view T (InvalidateCache env now c s)"
    and "ks_redis s = Some r \<Longrightarrow> \<exists>r'. ks_redis (InvalidateCache env now c s) = Some r' \<and>
      (view r' = view r \<or> view r' = del_view (view r) (cache_key c))"
proof -
  have v: "view r' = del_view (view r) (cache_key c) \<or> (e \<noteq> None \<and> view r' = view r)"
    if "rd_del (ke_redis env) now r (cache_key c) = (e, r')" for r e r'
    using redis_del_view [of _ view, OF _ that] assms by (auto simp: key_env_ok_def)
  show "del_ok env now c s \<Longrightarrow> no_entry view T c (InvalidateCache env now c s)"
    using v by (cases "ks_redis s")
      (auto simp: del_ok_def no_entry_def InvalidateCache_def del_view_def prod_eq_iff, metis option.distinct(1) prod.collapse)
  show "no_entry view T c s \<Longrightarrow> no_entry view T c (InvalidateCache env now c s)"
    using v by (cases "ks_redis s") (auto simp: no_entry_def InvalidateCache_def, metis del_view_def prod.collapse)
  show "ks_store (InvalidateCache env now c s) = ks_store s"
    by (simp add: InvalidateCache_def split: option.split)
  show r: "\<exists>r'. ks_redis (InvalidateCache env now c s) = Some r' \<and>
      (view r' = view r \<or> view r' = del_view (view r) (cache_key c))" if "ks_redis s = Some r" for r
    using that v [OF prod.collapse [symmetric]] by (auto simp: InvalidateCache_def)
  show "key_cache_ok env view T s \<Longrightarrow> key_cache_ok env view T (InvalidateCache env now c s)"
  proof (cases "ks_redis s")
    case None
    then show "key_cache_ok env view T s \<Longrightarrow> ?thesis" by (simp add: InvalidateCache_def)
  next
    case (Some r)
    assume ok: "key_cache_ok env view T s"
    obtain r' where r': "ks_redis (InvalidateCache env now c s) = Some r'"
      "view r' = view r \<or> view r' = del_view (view r) (cache_key c)" using r [OF Some] by blast
    have "view r' t k = Some d \<Longrightarrow> view r t k = Some d" for t k d
      using r'(2) by (auto simp: del_view_def split: if_splits)
    then show ?thesis
      using ok Some r'(1) \<open>ks_store (InvalidateCache env now c s) = ks_store s\<close>
      unfolding key_cache_ok_def by (metis option.inject)
  qed
qed

text \<open>
  After the row of a client has changed and from the moment its old entries are gone, every run of
  validations answers by the new row.
\<close>

lemma changed_row_decides:
  assumes "key_env_ok env view" and "key_cache_ok env view T s" and "T \<le> now"
  shows "fst (Validate env None now c secret (after_validations env vs s)) = Inr k \<longleftrightarrow> genuine_key env now s c secret k"
    and "fst (Validate env e now c secret (after_validations env vs s)) = Inr k \<Longrightarrow> genuine_key env now s c secret k"
proof -
  have ok: "key_cache_ok env view now (after_validations env vs s)"
    by (rule key_cache_ok_later [OF after_validations_keeps [OF assms(1,2)] assms(3)])
  have "genuine_key env now (after_validations env vs s) c secret k = genuine_key env now s c secret k"
    by (simp add: genuine_key_def)
  then show "fst (Validate env None now c secret (after_validations env vs s)) = Inr k \<longleftrightarrow> genuine_key env now s c secret k"
    and "fst (Validate env e now c secret (after_validations env vs s)) = Inr k \<Longrightarrow> genuine_key env now s c secret k"
    using Validate_exact [OF assms(1) ok] Validate_sound(1) [OF assms(1) ok] by simp_all
qed

subsection \<open>The life of a key\<close>

lemma ttl_duration_small: "1 \<le> h \<Longrightarrow> h \<le> 2562047 \<Longrightarrow> ttl_duration h = h * (3600 * second)"
  by (auto simp: ttl_duration_def second_def intro!: int64_id)

lemma new_secret_works:
  assumes "hashes_ok (ke_hashes (kv_key_env env))" and "kv_rand env = Inr b" and "length b = 32"
    and "new_secret env = Inr (secret, h, p)"
  shows "CompareSecretHash (ke_hashes (kv_key_env env)) secret h"
  using assms(4) generated_secret [OF assms(1,3)] assms(2)
  by (auto simp: new_secret_def split: sum.splits)

lemma new_secret_error: "new_secret env = Inl r \<Longrightarrow> rs_status r = 500"
  by (auto simp: new_secret_def error_response_def split: sum.splits)

lemma created:
  assumes "ClientKey_Create env invalid (Inr req) s = (resp, s')" and "rs_status resp = 201"
  shows "\<exists>secret h p key st. new_secret env = Inr (secret, h, p) \<and>
    ClientKeyStore_Create (kv_fail_exec env) (ke_time (kv_key_env env)) (kv_clock env 1) (cr_client_id req) h p
       (cr_service_name req) (cr_description req) (kv_clock env 0 + ttl_duration (cr_ttl_hours req)) (ks_store (kx_keys s)) = (Inr key, st) \<and>
    rs_body resp = JObj [(''client_key'', client_key_json key), (''secret'', JStr secret), (''warning'', JStr secret_warning)] \<and>
    kx_keys s' = (kx_keys s)\<lparr>ks_store := st\<rparr> \<and> 1 \<le> cr_ttl_hours req"
proof -
  note step = assms(1) [unfolded ClientKey_Create_def]
  have b: "bind_create invalid (Inr req) = Inr req"
    using step assms(2) by (cases "bind_create invalid (Inr req)") (auto simp: error_response_def bind_create_def split: if_splits)
  have g: "GetByClientID (kv_fail_get env) (cr_client_id req) (ks_store (kx_keys s)) = Inr None"
    using step assms(2)
    by (cases "GetByClientID (kv_fail_get env) (cr_client_id req) (ks_store (kx_keys s))")
      (auto simp: b error_response_def split: option.splits)
  obtain x where n: "new_secret env = Inr x"
    using step assms(2) by (cases "new_secret env") (auto simp: b g dest: new_secret_error)
  obtain secret h p where x: "x = (secret, h, p)" by (metis surj_pair)
  obtain r st where c: "ClientKeyStore_Create (kv_fail_exec env) (ke_time (kv_key_env env)) (kv_clock env 1) (cr_client_id req) h p
       (cr_service_name req) (cr_description req) (kv_clock env 0 + ttl_duration (cr_ttl_hours req)) (ks_store (kx_keys s)) = (r, st)"
    by (metis surj_pair)
  obtain key where key: "r = Inr key"
    using step assms(2) by (cases r) (auto simp: b g n x c [unfolded One_nat_def] Let_def error_response_def)
  have "1 \<le> cr_ttl_hours req" using b by (auto simp: bind_create_def split: if_splits)
  then show ?thesis
    using step n x c key by (auto simp: b g c [unfolded One_nat_def] Let_def json_response_def)
qed

text \<open>
  C30. An issued secret works.  When \<^verbatim>\<open>Create\<close> answers 201, the secret in the response authenticates the
  client for the service it was issued for, until the expiry (in whole seconds), after any number
  of other validations and whatever Redis does with the entries; lifetimes up to 2562047 hours.
\<close>

theorem issued_secret_authenticates:
  assumes "hashes_ok (ke_hashes (kv_key_env env))" and "key_env_ok (kv_key_env env) view"
    and "kv_rand env = Inr b" and "length b = 32"
    and "key_cache_ok (kv_key_env env) view t0 (kx_keys s)"
    and "ClientKey_Create env invalid (Inr req) s = (resp, s')" and "rs_status resp = 201"
    and "cr_ttl_hours req \<le> 2562047"
    and "t0 \<le> now" and "now \<le> whole_seconds (kv_clock env 0 + cr_ttl_hours req * (3600 * second))"
  shows "\<exists>key secret. rs_body resp = JObj [(''client_key'', client_key_json key), (''secret'', JStr secret),
       (''warning'', JStr secret_warning)] \<and>
     (\<exists>k. fst (Validate (kv_key_env env) None now (cr_client_id req) secret
          (after_validations (kv_key_env env) vs (kx_keys s'))) = Inr k \<and> vk_service_name k = cr_service_name req)"
proof -
  let ?e = "kv_key_env env" and ?c = "cr_client_id req"
  obtain secret h p key st where ns: "new_secret env = Inr (secret, h, p)"
    and cs: "ClientKeyStore_Create (kv_fail_exec env) (ke_time ?e) (kv_clock env 1) ?c h p
       (cr_service_name req) (cr_description req) (kv_clock env 0 + ttl_duration (cr_ttl_hours req)) (ks_store (kx_keys s)) = (Inr key, st)"
    and body: "rs_body resp = JObj [(''client_key'', client_key_json key), (''secret'', JStr secret), (''warning'', JStr secret_warning)]"
    and s': "kx_keys s' = (kx_keys s)\<lparr>ks_store := st\<rparr>" and ttl: "1 \<le> cr_ttl_hours req"
    using created [OF assms(6,7)] by blast
  note f = find_after_create [OF cs]
  obtain row where row: "find_key st ?c = Some row" "ck_secret_hash row = h" "ck_service_name row = cr_service_name req"
    "ck_is_active row" "ck_expires_at row = tf_format (ke_time ?e) (kv_clock env 0 + ttl_duration (cr_ttl_hours req))"
    using f(2) by blast
  have coherent: "key_cache_ok ?e view t0 (kx_keys s')"
    unfolding s' by (rule new_row_keeps [OF assms(5) f(3) f(1)])
  have "tf_parse (ke_time ?e) (ck_expires_at row) = Inr (whole_seconds (kv_clock env 0 + cr_ttl_hours req * (3600 * second)))"
    using assms(2,8) ttl row(5) by (simp add: key_env_ok_def time_format_ok_def ttl_duration_small)
  then have "genuine_key ?e now (kx_keys s') ?c secret
      \<lparr>vk_client_id = ?c, vk_service_name = cr_service_name req,
       vk_expires_at = whole_seconds (kv_clock env 0 + cr_ttl_hours req * (3600 * second))\<rparr>"
    using row assms(10) new_secret_works [OF assms(1,3,4) ns] by (auto simp: genuine_key_iff s')
  then show ?thesis
    using changed_row_decides(1) [OF assms(2) coherent assms(9)] body by fastforce
qed

lemma InvalidateCache_store:
  "InvalidateCache env now c (s\<lparr>ks_store := st\<rparr>) = (InvalidateCache env now c s)\<lparr>ks_store := st\<rparr>"
  by (simp add: InvalidateCache_def split: option.split)

lemma changed_and_invalidated:
  assumes "key_env_ok env view" and "key_cache_ok env view T s"
    and "\<And>c'. c' \<noteq> c \<Longrightarrow> find_key st c' = find_key (ks_store s) c'"
    and "del_ok env now c s \<or> no_entry view T c s"
  shows "key_cache_ok env view T (InvalidateCache env now c (s\<lparr>ks_store := st\<rparr>))"
proof -
  have "no_entry view T c (InvalidateCache env now c s)"
    using assms(4) invalidated(1,2) [OF assms(1)] by blast
  then show ?thesis
    unfolding InvalidateCache_store
    using row_change_keeps [OF invalidated(4) [OF assms(1,2)], of c st] assms(3) invalidated(3) [OF assms(1)] by auto
qed

lemma revoked:
  assumes "ClientKey_Revoke env c s = (resp, s')" and "rs_status resp = 200"
  shows "\<exists>st. (\<forall>c'. c' \<noteq> gn_param c ''client_id'' \<longrightarrow> find_key st c' = find_key (ks_store (kx_keys s)) c') \<and>
    (\<forall>row. find_key st (gn_param c ''client_id'') = Some row \<longrightarrow> \<not> ck_is_active row) \<and>
    kx_keys s' = invalidate env (kv_clock env 1) (gn_param c ''client_id'') ((kx_keys s)\<lparr>ks_store := st\<rparr>)"
proof -
  let ?c = "gn_param c ''client_id''"
  obtain r st where d: "ClientKeyStore_Deactivate (kv_fail_exec env) (ke_time (kv_key_env env)) (kv_clock env 0) ?c
      (ks_store (kx_keys s)) = (r, st)" by (metis surj_pair)
  then have r: "r = None" and s': "kx_keys s' = invalidate env (kv_clock env 1) ?c ((kx_keys s)\<lparr>ks_store := st\<rparr>)"
    using assms by (auto simp: ClientKey_Revoke_def Let_def error_response_def split: option.splits store_error.splits)
  then have "kv_fail_exec env = None"
    using d by (auto simp: ClientKeyStore_Deactivate_def split: option.splits)
  then show ?thesis using s' find_after_deactivate [OF d] by (intro exI [of _ st]) auto
qed

text \<open>The client of an inactive row is refused.\<close>

lemma inactive_refused:
  assumes "key_env_ok env view" and "key_cache_ok env view T s" and "T \<le> now"
    and "\<forall>row. find_key (ks_store s) c = Some row \<longrightarrow> \<not> ck_is_active row"
  shows "\<exists>e. fst (Validate env dbErr now c secret (after_validations env vs s)) = Inl e"
  using changed_row_decides(2) [OF assms(1-3)] assms(4)
  by (cases "fst (Validate env dbErr now c secret (after_validations env vs s))") (fastforce simp: genuine_key_iff)+

text \<open>
  C31. Revocation works at once when the cache can be reached: once \<^verbatim>\<open>Revoke\<close> has answered 200 and
  its deletion from Redis has reported no error, the client is refused with every secret, after any
  validations that follow.
\<close>

theorem revocation_is_immediate:
  assumes "key_env_ok (kv_key_env env) view" and "key_cache_ok (kv_key_env env) view t0 (kx_keys s)"
    and "ClientKey_Revoke env c s = (resp, s')" and "rs_status resp = 200" and "kv_validator env"
    and "del_ok (kv_key_env env) (kv_clock env 1) (gn_param c ''client_id'') (kx_keys s)" and "t0 \<le> now"
  shows "\<exists>e. fst (Validate (kv_key_env env) dbErr now (gn_param c ''client_id'') secret
       (after_validations (kv_key_env env) vs (kx_keys s'))) = Inl e"
proof -
  let ?c = "gn_param c ''client_id''"
  obtain st where st: "\<And>c'. c' \<noteq> ?c \<Longrightarrow> find_key st c' = find_key (ks_store (kx_keys s)) c'"
    "\<forall>row. find_key st ?c = Some row \<longrightarrow> \<not> ck_is_active row"
    "kx_keys s' = InvalidateCache (kv_key_env env) (kv_clock env 1) ?c ((kx_keys s)\<lparr>ks_store := st\<rparr>)"
    using revoked [OF assms(3,4)] assms(5) by (auto simp: invalidate_def)
  show ?thesis
    using inactive_refused [OF assms(1) changed_and_invalidated [OF assms(1,2) st(1) disjI1 [OF assms(6)]] assms(7)]
      st(2) invalidated(3) [OF assms(1)] unfolding st(3) by simp
qed

text \<open>Validations up to a moment leave no entry that outlives the cache's time to live.\<close>

lemma young_entries:
  assumes "key_env_ok env view" and "\<forall>(e, t, c, secret) \<in> set vs. t \<le> t0"
    and "no_entry view (t0 + clientKeyCacheTTL) c s"
  shows "no_entry view (t0 + clientKeyCacheTTL) c (after_validations env vs s)"
  using assms(2,3)
proof (induction vs arbitrary: s)
  case (Cons v vs)
  obtain e t c' secret where v: "v = (e, t, c', secret)" by (cases v)
  have save: "no_entry view (t0 + clientKeyCacheTTL) c (saveToCache env t c' ck s)" for ck
  proof (cases "ks_redis s")
    case (Some r)
    show ?thesis
    proof (cases "ke_marshal env ck")
      case (Inr d)
      obtain x r' where st: "rd_set (ke_redis env) t r (cache_key c') d clientKeyCacheTTL = (x, r')"
        by (metis surj_pair)
      have "view r' = set_view (view r) t (cache_key c') d clientKeyCacheTTL \<or> view r' = view r"
        using redis_set_view [of _ view, OF _ st] assms(1) by (auto simp: key_env_ok_def)
      then show ?thesis
        using Cons.prems Some Inr st v
        by (auto simp: saveToCache_def no_entry_def set_view_def clientKeyCacheTTL_def second_def)
    qed (use Some Cons.prems(2) in \<open>simp add: saveToCache_def\<close>)
  qed (use Cons.prems(2) in \<open>simp add: saveToCache_def\<close>)
  have "no_entry view (t0 + clientKeyCacheTTL) c (snd (Validate env e t c' secret s))"
    using save Cons.prems(2) by (auto simp: Validate_def split: sum.split prod.split)
  then show ?case using Cons by (simp add: after_validations_def v)
qed (simp add: after_validations_def)

text \<open>
  Revocation takes effect within five minutes, whatever happens to Redis.  From an empty cache and any
  validations up to the moment \<open>t0\<close> on, a \<^verbatim>\<open>Revoke\<close> that answers 200 makes \<^verbatim>\<open>Validate\<close> refuse the client from
  \<open>t0\<close> plus the time to live of an entry on, even when the deletion of the entry fails.
\<close>

theorem revocation_within_ttl:
  assumes "key_env_ok (kv_key_env env) view" and "\<And>r t k. ks_redis s0 = Some r \<Longrightarrow> view r t k = None"
    and "\<forall>(e, t, c, secret) \<in> set before. t \<le> t0" and "kx_keys s = after_validations (kv_key_env env) before s0"
    and "ClientKey_Revoke env c s = (resp, s')" and "rs_status resp = 200"
    and "t0 + clientKeyCacheTTL \<le> now"
  shows "\<exists>e. fst (Validate (kv_key_env env) dbErr now (gn_param c ''client_id'') secret
       (after_validations (kv_key_env env) vs (kx_keys s'))) = Inl e"
proof -
  let ?c = "gn_param c ''client_id''" and ?T = "t0 + clientKeyCacheTTL"
  have coherent: "key_cache_ok (kv_key_env env) view ?T (kx_keys s)"
    unfolding assms(4) by (rule after_validations_keeps [OF assms(1)]) (use assms(2) in \<open>auto simp: key_cache_ok_def\<close>)
  have young: "no_entry view ?T ?c (kx_keys s)"
    unfolding assms(4) by (rule young_entries [OF assms(1,3)]) (use assms(2) in \<open>auto simp: no_entry_def\<close>)
  obtain st where st: "\<And>c'. c' \<noteq> ?c \<Longrightarrow> find_key st c' = find_key (ks_store (kx_keys s)) c'"
    "\<forall>row. find_key st ?c = Some row \<longrightarrow> \<not> ck_is_active row"
    "kx_keys s' = invalidate env (kv_clock env 1) ?c ((kx_keys s)\<lparr>ks_store := st\<rparr>)"
    using revoked [OF assms(5,6)] by auto
  have "key_cache_ok (kv_key_env env) view ?T (kx_keys s')"
    unfolding st(3) invalidate_def
    using changed_and_invalidated [OF assms(1) coherent st(1) disjI2 [OF young]]
      row_change_keeps [OF coherent st(1) young] by simp
  then show ?thesis
    by (rule inactive_refused [OF assms(1) _ assms(7)])
      (use st(2,3) invalidated(3) [OF assms(1)] in \<open>simp add: invalidate_def\<close>)
qed

lemma rotated:
  assumes "ClientKey_Rotate env c s = (resp, s')" and "rs_status resp = 200"
  shows "\<exists>old secret h p st. find_key (ks_store (kx_keys s)) (GetClientID c) = Some old \<and> ck_is_active old \<and>
    new_secret env = Inr (secret, h, p) \<and>
    RotateSecret (kv_fail_exec env) (ke_time (kv_key_env env)) (kv_clock env 1) (GetClientID c) h p
      (ks_store (kx_keys s)) = (None, st) \<and>
    rs_body resp = JObj [(''client_id'', JStr (GetClientID c)), (''secret'', JStr secret),
       (''expires_at'', JStr (ck_expires_at old)), (''warning'', JStr secret_warning)] \<and>
    kx_keys s' = invalidate env (kv_clock env 2) (GetClientID c) ((kx_keys s)\<lparr>ks_store := st\<rparr>)"
proof -
  let ?c = "GetClientID c"
  note step = assms(1) [unfolded ClientKey_Rotate_def Let_def]
  have c: "?c \<noteq> []" using step assms(2) by (auto simp: error_response_def)
  obtain old where g: "GetByClientID (kv_fail_get env) ?c (ks_store (kx_keys s)) = Inr (Some old)"
    using step assms(2) c
    by (cases "GetByClientID (kv_fail_get env) ?c (ks_store (kx_keys s))")
      (auto simp: error_response_def split: option.splits)
  have a: "ck_is_active old" using step assms(2) c g by (auto simp: error_response_def split: if_splits)
  have x: "\<not> expired (ke_time (kv_key_env env)) (kv_clock env 0) (ck_expires_at old)"
    using step assms(2) c g a by (auto simp: error_response_def split: if_splits)
  obtain secret h p where n: "new_secret env = Inr (secret, h, p)"
    using step assms(2) c g a x by (cases "new_secret env") (auto dest: new_secret_error)
  obtain r st where rot: "RotateSecret (kv_fail_exec env) (ke_time (kv_key_env env)) (kv_clock env 1) ?c h p
      (ks_store (kx_keys s)) = (r, st)" by (metis surj_pair)
  have r: "r = None"
    using step assms(2) c g a x n by (cases r) (auto simp: rot [unfolded One_nat_def] error_response_def)
  have "find_key (ks_store (kx_keys s)) ?c = Some old"
    using g by (auto simp: GetByClientID_def split: option.splits)
  then show ?thesis using step c g a x n rot r by (auto simp: rot [unfolded One_nat_def] json_response_def)
qed

text \<open>
  A rotation replaces the secret: when \<^verbatim>\<open>Rotate\<close> answers 200, its secret is accepted for the old service
  until the old expiry, no secret is accepted that does not match the new hash, and both hold at once
  when the deletion from Redis reports no error.
\<close>

theorem rotation_switches_secret:
  assumes "hashes_ok (ke_hashes (kv_key_env env))" and "key_env_ok (kv_key_env env) view"
    and "kv_rand env = Inr b" and "length b = 32" and "key_cache_ok (kv_key_env env) view t0 (kx_keys s)"
    and "ClientKey_Rotate env c s = (resp, s')" and "rs_status resp = 200" and "kv_validator env"
    and "del_ok (kv_key_env env) (kv_clock env 2) (GetClientID c) (kx_keys s)" and "t0 \<le> now"
  shows "\<exists>old secret hash. find_key (ks_store (kx_keys s)) (GetClientID c) = Some old \<and> ck_is_active old \<and>
     HashSecret (ke_hashes (kv_key_env env)) secret = Inr hash \<and>
     rs_body resp = JObj [(''client_id'', JStr (GetClientID c)), (''secret'', JStr secret),
       (''expires_at'', JStr (ck_expires_at old)), (''warning'', JStr secret_warning)] \<and>
     (\<forall>t. tf_parse (ke_time (kv_key_env env)) (ck_expires_at old) = Inr t \<and> now \<le> t \<longrightarrow>
        (\<exists>k. fst (Validate (kv_key_env env) None now (GetClientID c) secret
            (after_validations (kv_key_env env) vs (kx_keys s'))) = Inr k \<and> vk_service_name k = ck_service_name old)) \<and>
     (\<forall>other. \<not> CompareSecretHash (ke_hashes (kv_key_env env)) other hash \<longrightarrow>
        (\<exists>e. fst (Validate (kv_key_env env) dbErr now (GetClientID c) other
            (after_validations (kv_key_env env) vs (kx_keys s'))) = Inl e))"
proof -
  let ?e = "kv_key_env env" and ?c = "GetClientID c"
  obtain old secret h p st where old: "find_key (ks_store (kx_keys s)) ?c = Some old" "ck_is_active old"
    and ns: "new_secret env = Inr (secret, h, p)"
    and rot: "RotateSecret (kv_fail_exec env) (ke_time ?e) (kv_clock env 1) ?c h p (ks_store (kx_keys s)) = (None, st)"
    and body: "rs_body resp = JObj [(''client_id'', JStr ?c), (''secret'', JStr secret),
       (''expires_at'', JStr (ck_expires_at old)), (''warning'', JStr secret_warning)]"
    and s': "kx_keys s' = InvalidateCache ?e (kv_clock env 2) ?c ((kx_keys s)\<lparr>ks_store := st\<rparr>)"
    using rotated [OF assms(6,7)] assms(8) by (auto simp: invalidate_def)
  have "kv_fail_exec env = None" using find_after_rotate(2) [OF rot] by simp
  then have row: "find_key st ?c = Some (old\<lparr>ck_secret_hash := h, ck_secret_prefix := p,
      ck_updated_at := tf_format (ke_time ?e) (kv_clock env 1)\<rparr>)"
    and same: "\<And>c'. c' \<noteq> ?c \<Longrightarrow> find_key st c' = find_key (ks_store (kx_keys s)) c'"
    using find_after_rotate(1) [OF rot] old by auto
  have coherent: "key_cache_ok ?e view t0 (kx_keys s')"
    unfolding s' by (rule changed_and_invalidated [OF assms(2,5) same disjI1 [OF assms(9)]])
  have store: "ks_store (kx_keys s') = st" by (simp add: s' invalidated(3) [OF assms(2)])
  have works: "CompareSecretHash (ke_hashes ?e) secret h" by (rule new_secret_works [OF assms(1,3,4) ns])
  have hash: "HashSecret (ke_hashes ?e) secret = Inr h" using ns by (auto simp: new_secret_def split: sum.splits)
  have "\<exists>k. fst (Validate ?e None now ?c secret (after_validations ?e vs (kx_keys s'))) = Inr k \<and>
      vk_service_name k = ck_service_name old"
    if "tf_parse (ke_time ?e) (ck_expires_at old) = Inr t" "now \<le> t" for t
    using changed_row_decides(1) [OF assms(2) coherent assms(10), of ?c secret vs] row old works that store
    by (fastforce simp: genuine_key_iff)
  moreover have "\<exists>e. fst (Validate ?e dbErr now ?c other (after_validations ?e vs (kx_keys s'))) = Inl e"
    if "\<not> CompareSecretHash (ke_hashes ?e) other h" for other
    using changed_row_decides(2) [OF assms(2) coherent assms(10), of dbErr ?c other vs] row that store
    by (cases "fst (Validate ?e dbErr now ?c other (after_validations ?e vs (kx_keys s')))")
      (auto simp: genuine_key_iff)
  ultimately show ?thesis using old body hash by blast
qed

subsection \<open>Instances\<close>

definition sample_kv :: "mem_redis keys_env" where
  "sample_kv = \<lparr>kv_key_env = sample_key_env, kv_validator = True, kv_clock = (\<lambda>i. int i * second),
     kv_rand = Inr (replicate 32 CHR ''r''), kv_fail_get = None, kv_fail_exec = None, kv_fail_audit = None\<rparr>"

definition sample_kx :: "mem_redis keys_state" where
  "sample_kx = \<lparr>kx_keys = sample_keys, kx_audit = \<lparr>al_rows = [], al_next_id = 1\<rparr>\<rparr>"

definition sample_gin :: gin where
  "sample_gin = \<lparr>gn_client_ip = ''9.9.9.9'', gn_header = (\<lambda>_. []), gn_get_query = (\<lambda>_. None), gn_param = (\<lambda>_. ''app''),
     gn_client_id = Some ''app'', gn_service_name = Some ''mobile'', gn_trusted = None, gn_trace_id = None,
     gn_out_headers = []\<rparr>"

lemma sample_kv_simps [simp]:
  "kv_key_env sample_kv = sample_key_env" "kv_validator sample_kv" "kv_clock sample_kv i = int i * second"
  "kv_rand sample_kv = Inr (replicate 32 CHR ''r'')" "kv_fail_get sample_kv = None" "kv_fail_exec sample_kv = None"
  "ke_hashes sample_key_env = sample_hashes" "ke_time sample_key_env = sample_time" "ke_redis sample_key_env = mem_redis"
  "kx_keys sample_kx = sample_keys" "gn_param sample_gin p = ''app''" "GetClientID sample_gin = ''app''"
  by (simp_all add: sample_kv_def sample_key_env_def sample_kx_def sample_gin_def GetClientID_def)

lemma sample_new_secret: "\<exists>secret h p. new_secret sample_kv = Inr (secret, h, p)"
  using generated_secret [OF sample_hashes_ok, of "replicate 32 CHR ''r''"]
  by (auto simp: new_secret_def split: sum.split)

lemma sample_del_ok: "del_ok sample_key_env t c s"
  by (simp add: del_ok_def mem_redis_def split: option.split)

lemma sample_find: "find_key (ks_store sample_keys) ''app'' = Some sample_row" "find_key (ks_store sample_keys) ''new'' = None"
  by (simp_all add: find_key_def sample_keys_def sample_row_def)

lemma sample_row_simps [simp]:
  "ck_client_id sample_row = ''app''" "ck_is_active sample_row" "ck_expires_at sample_row = ''100''"
  "ck_service_name sample_row = ''mobile''"
  by (simp_all add: sample_row_def)

lemma sample_parse: "tf_parse sample_time ''100'' = Inr (100 * second)"
  by (simp add: sample_time_def digit_value_def)

theorem issued_secret_authenticates_witness:
  "\<exists>secret k s'. ClientKey_Create sample_kv [] (Inr \<lparr>cr_client_id = ''new'', cr_service_name = ''web'',
       cr_description = [], cr_ttl_hours = 1\<rparr>) sample_kx = s' \<and> rs_status (fst s') = 201 \<and>
    fst (Validate sample_key_env None (1000 * second) ''new'' secret
      (after_validations sample_key_env [(None, second, ''app'', ''pw'')] (kx_keys (snd s')))) = Inr k \<and>
    vk_service_name k = ''web''"
proof -
  let ?req = "\<lparr>cr_client_id = ''new'', cr_service_name = ''web'', cr_description = [], cr_ttl_hours = 1\<rparr>"
  obtain resp s' where c: "ClientKey_Create sample_kv [] (Inr ?req) sample_kx = (resp, s')" by (metis surj_pair)
  have "rs_status resp = 201"
    using c sample_new_secret sample_find
    by (auto simp: ClientKey_Create_def bind_create_def GetByClientID_def ClientKeyStore_Create_def Let_def json_response_def)
  moreover have "1000 * second \<le> whole_seconds (kv_clock sample_kv 0 + cr_ttl_hours ?req * (3600 * second))"
    by (simp add: whole_seconds_def second_def)
  moreover have "kv_rand sample_kv = Inr (replicate 32 CHR ''r'')" "length (replicate 32 CHR ''r'') = 32" by simp_all
  moreover have "key_cache_ok (kv_key_env sample_kv) mem_view 0 (kx_keys sample_kx)"
    using sample_keys_coherent by simp
  ultimately have "\<exists>key secret. rs_body resp = JObj [(''client_key'', client_key_json key), (''secret'', JStr secret),
       (''warning'', JStr secret_warning)] \<and>
     (\<exists>k. fst (Validate sample_key_env None (1000 * second) ''new'' secret
          (after_validations sample_key_env [(None, second, ''app'', ''pw'')] (kx_keys s'))) = Inr k \<and> vk_service_name k = ''web'')"
    using issued_secret_authenticates [of sample_kv mem_view "replicate 32 CHR ''r''" 0 sample_kx "[]" ?req resp s'
        "1000 * second" "[(None, second, ''app'', ''pw'')]"] c sample_hashes_ok sample_key_env_ok
    by (simp add: second_def)
  then show ?thesis using c \<open>rs_status resp = 201\<close> by auto
qed

lemma sample_revoked: "\<exists>resp s'. ClientKey_Revoke sample_kv sample_gin sample_kx = (resp, s') \<and> rs_status resp = 200"
  by (simp add: ClientKey_Revoke_def ClientKeyStore_Deactivate_def update_rows_def sample_keys_def Let_def json_response_def)

theorem revocation_is_immediate_witness:
  "\<exists>resp s' e. ClientKey_Revoke sample_kv sample_gin sample_kx = (resp, s') \<and> rs_status resp = 200 \<and>
    fst (Validate sample_key_env None (4 * second) ''app'' ''pw''
      (after_validations sample_key_env [(None, 3 * second, ''app'', ''pw'')] (kx_keys s'))) = Inl e"
proof -
  obtain resp s' where r: "ClientKey_Revoke sample_kv sample_gin sample_kx = (resp, s')" "rs_status resp = 200"
    using sample_revoked by blast
  have "\<exists>e. fst (Validate (kv_key_env sample_kv) None (4 * second) (gn_param sample_gin ''client_id'') ''pw''
      (after_validations (kv_key_env sample_kv) [(None, 3 * second, ''app'', ''pw'')] (kx_keys s'))) = Inl e"
    by (rule revocation_is_immediate [OF _ _ r, of mem_view 0])
      (simp_all add: sample_key_env_ok sample_keys_coherent sample_del_ok second_def)
  then show ?thesis using r by auto
qed

theorem revocation_within_ttl_witness:
  "\<exists>resp s' e. ClientKey_Revoke sample_kv sample_gin
       (sample_kx\<lparr>kx_keys := after_validations sample_key_env [(None, 0, ''app'', ''pw'')] sample_keys\<rparr>) = (resp, s') \<and>
    rs_status resp = 200 \<and>
    fst (Validate sample_key_env None (301 * second) ''app'' ''pw'' (after_validations sample_key_env [] (kx_keys s'))) = Inl e"
proof -
  let ?s = "sample_kx\<lparr>kx_keys := after_validations sample_key_env [(None, 0, ''app'', ''pw'')] sample_keys\<rparr>"
  have "cks_rows (ks_store (kx_keys ?s)) = [sample_row]" by (simp add: sample_keys_def)
  then have "rs_status (fst (ClientKey_Revoke sample_kv sample_gin ?s)) = 200"
    by (simp add: ClientKey_Revoke_def ClientKeyStore_Deactivate_def update_rows_def Let_def json_response_def)
  then obtain resp s' where r: "ClientKey_Revoke sample_kv sample_gin ?s = (resp, s')" "rs_status resp = 200"
    by (metis prod.collapse)
  have "\<exists>e. fst (Validate (kv_key_env sample_kv) None (301 * second) (gn_param sample_gin ''client_id'') ''pw''
      (after_validations (kv_key_env sample_kv) [] (kx_keys s'))) = Inl e"
    by (rule revocation_within_ttl [OF _ _ _ _ r, of mem_view sample_keys "[(None, 0, ''app'', ''pw'')]" 0])
      (auto simp: sample_key_env_ok sample_keys_def mem_view_def clientKeyCacheTTL_def second_def)
  then show ?thesis using r by auto
qed

theorem rotation_switches_secret_witness:
  "\<exists>resp s' secret. ClientKey_Rotate sample_kv sample_gin sample_kx = (resp, s') \<and> rs_status resp = 200 \<and>
    (\<exists>k. fst (Validate sample_key_env None (4 * second) ''app'' secret
      (after_validations sample_key_env [] (kx_keys s'))) = Inr k)"
proof -
  have "\<not> expired sample_time 0 ''100''" using sample_parse by (simp add: expired_def second_def)
  then obtain resp s' where r: "ClientKey_Rotate sample_kv sample_gin sample_kx = (resp, s')" "rs_status resp = 200"
    using sample_new_secret sample_find
    by (auto simp: ClientKey_Rotate_def GetByClientID_def RotateSecret_def update_rows_def Let_def json_response_def
        sample_keys_def)
  show ?thesis
    using rotation_switches_secret [of sample_kv mem_view "replicate 32 CHR ''r''" 0 sample_kx sample_gin resp s' "4 * second" "[]" None]
      r sample_hashes_ok sample_key_env_ok sample_keys_coherent sample_del_ok sample_find sample_parse
    by (auto simp: second_def)
qed

subsection \<open>Who gets past the middleware\<close>

text \<open>
  Outsiders need a genuine key.  With the gateway's validator, a request that gets past \<^verbatim>\<open>Auth\<close> comes
  from a trusted network, or its \<^verbatim>\<open>X-Client-ID\<close> names an active row whose expiry has not passed, its
  \<^verbatim>\<open>X-Client-Secret\<close> matches the hash of that row, and the request goes on under that id and service.
\<close>

theorem outsiders_need_a_valid_key:
  assumes "service_ok sv"
    and "Auth nl tf f cidrs (Some service_validate) now c sv = (Next c', sv')"
    and "\<not> in_trusted_net nl cidrs (gn_client_ip c)"
  shows "\<exists>row t. find_key (ks_store (sv_state sv)) (gn_header c ''X-Client-ID'') = Some row \<and> ck_is_active row \<and>
     tf_parse (ke_time (sv_env sv)) (ck_expires_at row) = Inr t \<and> sv_now sv \<le> t \<and>
     CompareSecretHash (ke_hashes (sv_env sv)) (gn_header c ''X-Client-Secret'') (ck_secret_hash row) \<and>
     GetClientID c' = gn_header c ''X-Client-ID'' \<and> gn_service_name c' = Some (ck_service_name row)"
  using keysvc.auth_admits [OF assms(1,2)] assms(3) by (auto simp: service_genuine_def genuine_key_iff)

definition sample_sv :: "mem_redis key_service" where
  "sample_sv = \<lparr>sv_env = sample_key_env, sv_view = mem_view, sv_db_err = None, sv_now = 0, sv_state = sample_keys\<rparr>"

definition no_nets :: "(unit, unit) net_lib" where
  "no_nets = \<lparr>nl_parse_ip = (\<lambda>_. Some ()), nl_parse_cidr = (\<lambda>_. Inr ()), nl_contains = (\<lambda>_ _. False)\<rparr>"

definition login :: gin where
  "login = sample_gin\<lparr>gn_header := (\<lambda>h. if h = ''X-Client-ID'' then ''app'' else ''pw'')\<rparr>"

lemma sample_genuine:
  "genuine_key sample_key_env 0 sample_keys ''app'' ''pw''
     \<lparr>vk_client_id = ''app'', vk_service_name = ''mobile'', vk_expires_at = 100 * second\<rparr>"
  using sample_find(1) sample_parse
  by (simp add: genuine_key_iff second_def) (simp add: CompareSecretHash_def sample_hashes_def sample_row_def numeral_eq_Suc)

lemma sample_validates: "\<exists>k s'. service_validate sample_sv ''app'' ''pw'' = (Inr k, s')"
proof -
  obtain k s0 where "Validate sample_key_env None 0 ''app'' ''pw'' sample_keys = (Inr k, s0)"
    using Validate_exact [OF sample_key_env_ok sample_keys_coherent] sample_genuine by (metis prod.collapse)
  then show ?thesis by (simp add: service_validate_def sample_sv_def)
qed

lemma sample_service_ok: "service_ok sample_sv"
  using sample_key_env_ok sample_keys_coherent by (simp add: service_ok_def sample_sv_def)

theorem outsiders_need_a_valid_key_witness:
  "\<exists>c' sv'. Auth no_nets sample_time show_int [''10.0.0.0/8''] (Some service_validate) 0 login sample_sv = (Next c', sv') \<and>
    GetClientID c' = ''app'' \<and> gn_service_name c' = Some ''mobile''"
proof -
  have nets: "\<not> in_trusted_net no_nets [''10.0.0.0/8''] (gn_client_ip login)"
    by (simp add: in_trusted_net_def no_nets_def)
  obtain k s' where v: "service_validate sample_sv ''app'' ''pw'' = (Inr k, s')"
    using sample_validates by blast
  then obtain c' where a: "Auth no_nets sample_time show_int [''10.0.0.0/8''] (Some service_validate) 0 login sample_sv = (Next c', s')"
    using nets by (simp add: Auth_def login_def)
  show ?thesis
    using outsiders_need_a_valid_key [OF sample_service_ok a nets] a sample_find by (auto simp: login_def sample_sv_def)
qed

subsection \<open>What can go wrong\<close>

text \<open>
  Requests that overlap: any number of goroutines inside \<^verbatim>\<open>Validate\<close>, each at its own step, while
  administrators revoke keys and time passes.
\<close>

record 'r key_sys =
  kq_keys :: "'r keys_state"
  kq_now :: go_time
  kq_calls :: "nat \<Rightarrow> (string \<times> string \<times> validate_pc) option"

inductive key_step :: "'r keys_env \<Rightarrow> 'r key_sys \<Rightarrow> 'r key_sys \<Rightarrow> bool" for env where
  call: "kq_calls q i = None \<Longrightarrow>
    key_step env q (q\<lparr>kq_calls := (kq_calls q)(i \<mapsto> (clientID, secret, VCache))\<rparr>)"
| move: "kq_calls q i = Some (clientID, secret, pc) \<Longrightarrow>
    validate_step (kv_key_env env) dbErr (kq_now q) clientID secret (pc, kx_keys (kq_keys q)) = (pc', ks) \<Longrightarrow>
    key_step env q (q\<lparr>kq_keys := (kq_keys q)\<lparr>kx_keys := ks\<rparr>, kq_calls := (kq_calls q)(i \<mapsto> (clientID, secret, pc'))\<rparr>)"
| revoke: "ClientKey_Revoke (env\<lparr>kv_clock := (\<lambda>_. kq_now q)\<rparr>) c (kq_keys q) = (resp, s') \<Longrightarrow>
    key_step env q (q\<lparr>kq_keys := s'\<rparr>)"
| tick: "0 \<le> d \<Longrightarrow> key_step env q (q\<lparr>kq_now := kq_now q + d\<rparr>)"

text \<open>A Redis server that never fails.\<close>

definition redis_up :: "'r redis \<Rightarrow> bool" where
  "redis_up rd \<longleftrightarrow> (\<forall>now r k e. rd_get rd now r k \<noteq> RedisErr e) \<and>
     (\<forall>now r k x ttl. fst (rd_set rd now r k x ttl) = None) \<and> (\<forall>now r k. fst (rd_del rd now r k) = None)"

lemma getFromCache_view:
  assumes "key_env_ok env view" and "redis_up (ke_redis env)" and "ks_redis s = Some r"
  shows "getFromCache env now c s = (case view r now (cache_key c) of
    None \<Rightarrow> None | Some d \<Rightarrow> (case ke_unmarshal env d of Inl _ \<Rightarrow> None | Inr ck \<Rightarrow> Some ck))"
  using assms redis_get_val [of "ke_redis env" view now r "cache_key c"]
    redis_get_nil [of "ke_redis env" view now r "cache_key c"]
  by (cases "rd_get (ke_redis env) now r (cache_key c)") (auto simp: getFromCache_def key_env_ok_def redis_up_def)

lemma saveToCache_view:
  assumes "key_env_ok env view" and "redis_up (ke_redis env)" and "ks_redis s = Some r" and "ke_marshal env ck = Inr d"
  obtains r' where "saveToCache env now c ck s = s\<lparr>ks_redis := Some r'\<rparr>"
    and "view r' = set_view (view r) now (cache_key c) d clientKeyCacheTTL"
proof -
  obtain e r' where st: "rd_set (ke_redis env) now r (cache_key c) d clientKeyCacheTTL = (e, r')" by (metis surj_pair)
  then have "e = None" using assms(2) unfolding redis_up_def by (metis fst_conv)
  then have "view r' = set_view (view r) now (cache_key c) d clientKeyCacheTTL"
    using redis_set_view [of _ view, OF _ st] assms(1) by (auto simp: key_env_ok_def)
  then show ?thesis using that assms(3,4) st by (simp add: saveToCache_def)
qed

lemma revoke_answers:
  assumes "find_key (ks_store (kx_keys s)) (gn_param c ''client_id'') = Some row" and "kv_fail_exec env = None"
  shows "rs_status (fst (ClientKey_Revoke env c s)) = 200"
proof -
  have "row \<in> set (cks_rows (ks_store (kx_keys s)))" "ck_client_id row = gn_param c ''client_id''"
    using assms(1) by (auto simp: find_key_def find_Some_iff)
  then have "filter (\<lambda>k. ck_client_id k = gn_param c ''client_id'') (cks_rows (ks_store (kx_keys s))) \<noteq> []"
    by (auto simp: filter_empty_conv)
  then show ?thesis
    using assms(2) by (simp add: ClientKey_Revoke_def ClientKeyStore_Deactivate_def update_rows_def Let_def json_response_def)
qed

lemma missed_inactive_refused:
  assumes "getFromCache env t c s = None" and "\<And>row. find_key (ks_store s) c = Some row \<Longrightarrow> \<not> ck_is_active row"
  shows "\<exists>err. fst (Validate env dbErr t c secret s) = Inl err"
  using assms
  by (auto simp: Validate_def lookup_key_def GetByClientID_def check_key_def cached_of_def split: option.split)

text \<open>
  An entry saved for a row that has become inactive meanwhile: accepted until it expires, then refused.
\<close>

lemma stale_entry:
  assumes "key_env_ok env view" and "redis_up (ke_redis env)" and "ks_redis s = Some r"
    and "ke_marshal env (cached_of row) = Inr data" and "ck_is_active row"
    and "tf_parse (ke_time env) (ck_expires_at row) = Inr e" and "CompareSecretHash (ke_hashes env) secret (ck_secret_hash row)"
    and "\<And>row'. find_key (ks_store s) c = Some row' \<Longrightarrow> \<not> ck_is_active row'"
  shows "t < now + clientKeyCacheTTL \<Longrightarrow> t \<le> e \<Longrightarrow>
      fst (Validate env dbErr t c secret (saveToCache env now c (cached_of row) s)) =
        Inr \<lparr>vk_client_id = c, vk_service_name = ck_service_name row, vk_expires_at = e\<rparr>"
    and "now + clientKeyCacheTTL \<le> t \<Longrightarrow>
      \<exists>err. fst (Validate env dbErr t c secret' (saveToCache env now c (cached_of row) s)) = Inl err"
proof -
  obtain r' where save: "saveToCache env now c (cached_of row) s = s\<lparr>ks_redis := Some r'\<rparr>"
    and v: "view r' = set_view (view r) now (cache_key c) data clientKeyCacheTTL"
    by (rule saveToCache_view [OF assms(1-4)])
  note cached = getFromCache_view [OF assms(1,2), of "s\<lparr>ks_redis := Some r'\<rparr>" r' t c, simplified, unfolded v set_view_def]
  have check: "t \<le> e \<Longrightarrow> check_key env t c secret (cached_of row) =
      Inr \<lparr>vk_client_id = c, vk_service_name = ck_service_name row, vk_expires_at = e\<rparr>"
    using assms(5-7) by (simp add: check_key_iff cached_of_def)
  assume "t < now + clientKeyCacheTTL"
  then have "getFromCache env t c (s\<lparr>ks_redis := Some r'\<rparr>) = Some (cached_of row)"
    using cached assms(1,4) by (simp add: key_env_ok_def)
  then show "t \<le> e \<Longrightarrow> fst (Validate env dbErr t c secret (saveToCache env now c (cached_of row) s)) =
        Inr \<lparr>vk_client_id = c, vk_service_name = ck_service_name row, vk_expires_at = e\<rparr>"
    using check by (simp add: save Validate_def lookup_key_def)
next
  obtain r' where save: "saveToCache env now c (cached_of row) s = s\<lparr>ks_redis := Some r'\<rparr>"
    and v: "view r' = set_view (view r) now (cache_key c) data clientKeyCacheTTL"
    by (rule saveToCache_view [OF assms(1-4)])
  note cached = getFromCache_view [OF assms(1,2), of "s\<lparr>ks_redis := Some r'\<rparr>" r' t c, simplified, unfolded v set_view_def]
  assume "now + clientKeyCacheTTL \<le> t"
  then have "getFromCache env t c (s\<lparr>ks_redis := Some r'\<rparr>) = None"
    using cached by (simp add: clientKeyCacheTTL_def second_def)
  then show "\<exists>err. fst (Validate env dbErr t c secret' (saveToCache env now c (cached_of row) s)) = Inl err"
    unfolding save by (rule missed_inactive_refused) (use assms(8) in simp)
qed

lemma reads_row:
  assumes "getFromCache (kv_key_env env) (kq_now q) c (kx_keys (kq_keys q)) = None"
    and "find_key (ks_store (kx_keys (kq_keys q))) c = Some row" and "kq_calls q i = None"
  shows "rtranclp (key_step env) q (q\<lparr>kq_calls := (kq_calls q)(i \<mapsto> (c, secret, VSave (cached_of row)))\<rparr>)"
proof -
  let ?q = "\<lambda>pc. q\<lparr>kq_calls := (kq_calls q)(i \<mapsto> (c, secret, pc))\<rparr>" and ?keys = "kx_keys (kq_keys q)"
  have "key_step env q (?q VCache)" by (rule key_step.call [OF assms(3)])
  moreover have "key_step env (?q VCache) (?q VTable)"
    using key_step.move [of "?q VCache" i c secret VCache env None VTable ?keys] assms(1) by simp
  moreover have "key_step env (?q VTable) (?q (VSave (cached_of row)))"
    using key_step.move [of "?q VTable" i c secret VTable env None "VSave (cached_of row)" ?keys] assms(2)
    by (simp add: GetByClientID_def)
  ultimately show ?thesis by (meson converse_rtranclp_into_rtranclp rtranclp.rtrancl_refl)
qed

lemma saves_late:
  assumes "kq_calls q i = Some (c, secret, VSave ck)" and "0 \<le> d"
  shows "\<exists>q' result. rtranclp (key_step env) q q' \<and> kq_now q' = kq_now q + d \<and>
    kq_calls q' = (kq_calls q)(i \<mapsto> (c, secret, VDone result)) \<and>
    kx_keys (kq_keys q') = saveToCache (kv_key_env env) (kq_now q + d) c ck (kx_keys (kq_keys q))"
proof -
  let ?q = "q\<lparr>kq_now := kq_now q + d\<rparr>"
  let ?s = "saveToCache (kv_key_env env) (kq_now q + d) c ck (kx_keys (kq_keys q))"
  obtain q1 where q1: "key_step env ?q q1" "kq_now q1 = kq_now q + d"
    "kq_calls q1 = (kq_calls q)(i \<mapsto> (c, secret, VCheck ck))" "kx_keys (kq_keys q1) = ?s"
    using key_step.move [of ?q i c secret "VSave ck" env None "VCheck ck"] assms(1) by force
  obtain q' result where "key_step env q1 q'" "kq_now q' = kq_now q + d"
    "kq_calls q' = (kq_calls q)(i \<mapsto> (c, secret, VDone result))" "kx_keys (kq_keys q') = ?s"
    using key_step.move [of q1 i c secret "VCheck ck" env None] q1(2-4) by force
  moreover have "key_step env q ?q" by (rule key_step.tick [OF assms(2)])
  ultimately show ?thesis using q1(1) by (meson converse_rtranclp_into_rtranclp rtranclp.rtrancl_refl)
qed

text \<open>
  C32. A revocation can be lost to a race, although no service fails.  From any state of the overlapping
  requests in which a key is valid and not cached, a request can read its row, then be overtaken by a
  \<^verbatim>\<open>Revoke\<close> that answers 200 and deletes the cached entry, and, any time \<open>d\<close> later, save the fields it has
  read and return: the row is inactive and nothing of the race is still running, but from then on every
  validation with the key's secret is accepted for the whole time to live of the entry (or until the key
  expires), and only afterwards every one is refused.
\<close>

theorem revocation_can_be_lost:
  assumes "key_env_ok (kv_key_env env) view" and "redis_up (ke_redis (kv_key_env env))"
    and "kv_fail_exec env = None" and "kv_validator env"
    and "ks_redis (kx_keys (kq_keys q)) = Some r" and "view r (kq_now q) (cache_key clientID) = None"
    and "find_key (ks_store (kx_keys (kq_keys q))) clientID = Some row" and "ck_is_active row"
    and "ke_marshal (kv_key_env env) (cached_of row) = Inr data"
    and "tf_parse (ke_time (kv_key_env env)) (ck_expires_at row) = Inr e"
    and "CompareSecretHash (ke_hashes (kv_key_env env)) secret (ck_secret_hash row)"
    and "kq_calls q i = None" and "gn_param c ''client_id'' = clientID" and "0 \<le> d"
  shows "\<exists>q1 resp s' q2.
    rtranclp (key_step env) q q1 \<and> kq_now q1 = kq_now q \<and>
    ClientKey_Revoke (env\<lparr>kv_clock := (\<lambda>_. kq_now q1)\<rparr>) c (kq_keys q1) = (resp, s') \<and> rs_status resp = 200 \<and>
    rtranclp (key_step env) (q1\<lparr>kq_keys := s'\<rparr>) q2 \<and> kq_now q2 = kq_now q1 + d \<and>
    (\<exists>result. kq_calls q2 = (kq_calls q)(i \<mapsto> (clientID, secret, VDone result))) \<and>
    (\<forall>row'. find_key (ks_store (kx_keys (kq_keys q2))) clientID = Some row' \<longrightarrow> \<not> ck_is_active row') \<and>
    (\<forall>t dbErr. t < kq_now q2 + clientKeyCacheTTL \<and> t \<le> e \<longrightarrow>
       fst (Validate (kv_key_env env) dbErr t clientID secret (kx_keys (kq_keys q2))) =
         Inr \<lparr>vk_client_id = clientID, vk_service_name = ck_service_name row, vk_expires_at = e\<rparr>) \<and>
    (\<forall>t dbErr secret'. kq_now q2 + clientKeyCacheTTL \<le> t \<longrightarrow>
       (\<exists>err. fst (Validate (kv_key_env env) dbErr t clientID secret' (kx_keys (kq_keys q2))) = Inl err))"
proof -
  let ?k = "kv_key_env env" and ?keys = "kx_keys (kq_keys q)"
  define q1 where "q1 = q\<lparr>kq_calls := (kq_calls q)(i \<mapsto> (clientID, secret, VSave (cached_of row)))\<rparr>"
  have "getFromCache ?k (kq_now q) clientID ?keys = None"
    using getFromCache_view [OF assms(1,2,5), of "kq_now q" clientID] assms(6) by simp
  then have reach1: "rtranclp (key_step env) q q1"
    unfolding q1_def by (rule reads_row [OF _ assms(7,12)])
  let ?env = "env\<lparr>kv_clock := (\<lambda>_. kq_now q1)\<rparr>"
  obtain resp s' where rv: "ClientKey_Revoke ?env c (kq_keys q1) = (resp, s')" by (metis surj_pair)
  have ok: "rs_status resp = 200"
    using revoke_answers [of "kq_keys q1" c row ?env] assms(3,7,13) rv by (simp add: q1_def)
  obtain st where st: "\<forall>row. find_key st clientID = Some row \<longrightarrow> \<not> ck_is_active row"
    "kx_keys s' = InvalidateCache ?k (kq_now q1) clientID (?keys\<lparr>ks_store := st\<rparr>)"
    using revoked [OF rv ok] assms(4,13) by (auto simp: invalidate_def q1_def)
  obtain r' where r': "ks_redis (kx_keys s') = Some r'"
    using invalidated(5) [OF assms(1), of "?keys\<lparr>ks_store := st\<rparr>" r "kq_now q1" clientID] assms(5) st(2) by auto
  have inactive: "find_key (ks_store (kx_keys s')) clientID = Some row' \<Longrightarrow> \<not> ck_is_active row'" for row'
    using st invalidated(3) [OF assms(1)] by simp
  have "kq_calls (q1\<lparr>kq_keys := s'\<rparr>) i = Some (clientID, secret, VSave (cached_of row))" by (simp add: q1_def)
  from saves_late [OF this assms(14), of env]
  obtain q2 result where q2: "rtranclp (key_step env) (q1\<lparr>kq_keys := s'\<rparr>) q2" "kq_now q2 = kq_now q1 + d"
    "kx_keys (kq_keys q2) = saveToCache ?k (kq_now q2) clientID (cached_of row) (kx_keys s')"
    "kq_calls q2 = (kq_calls q)(i \<mapsto> (clientID, secret, VDone result))"
    by (auto simp: q1_def)
  have store: "ks_store (kx_keys (kq_keys q2)) = ks_store (kx_keys s')"
    by (simp add: q2(3) saveToCache_def split: option.split sum.split)
  note stale = stale_entry [where c = clientID and now = "kq_now q2", OF assms(1,2) r' assms(9,8,10,11) inactive,
    folded q2(3)]
  have "kq_now q1 = kq_now q" by (simp add: q1_def)
  then show ?thesis
    using reach1 rv ok q2(1,2,4) inactive stale
    by - (rule exI [of _ q1], rule exI [of _ resp], rule exI [of _ s'], rule exI [of _ q2], auto simp: store)
qed

definition sample_sys :: "mem_redis key_sys" where
  "sample_sys = \<lparr>kq_keys = sample_kx, kq_now = 0, kq_calls = (\<lambda>_. None)\<rparr>"

theorem revocation_can_be_lost_witness:
  "\<exists>q1 resp s' q2. rtranclp (key_step sample_kv) sample_sys q1 \<and>
    ClientKey_Revoke (sample_kv\<lparr>kv_clock := (\<lambda>_. kq_now q1)\<rparr>) sample_gin (kq_keys q1) = (resp, s') \<and>
    rs_status resp = 200 \<and> rtranclp (key_step sample_kv) (q1\<lparr>kq_keys := s'\<rparr>) q2 \<and>
    (\<exists>k. fst (Validate sample_key_env None (100 * second) ''app'' ''pw'' (kx_keys (kq_keys q2))) = Inr k)"
proof -
  obtain data where data: "sample_marshal (cached_of sample_row) = Inr data" by (simp add: sample_marshal_def)
  have "\<exists>q1 resp s' q2. rtranclp (key_step sample_kv) sample_sys q1 \<and> kq_now q1 = kq_now sample_sys \<and>
    ClientKey_Revoke (sample_kv\<lparr>kv_clock := (\<lambda>_. kq_now q1)\<rparr>) sample_gin (kq_keys q1) = (resp, s') \<and>
    rs_status resp = 200 \<and> rtranclp (key_step sample_kv) (q1\<lparr>kq_keys := s'\<rparr>) q2 \<and> kq_now q2 = kq_now q1 + 5 * second \<and>
    (\<exists>result. kq_calls q2 = (kq_calls sample_sys)(0 \<mapsto> (''app'', ''pw'', VDone result))) \<and>
    (\<forall>row'. find_key (ks_store (kx_keys (kq_keys q2))) ''app'' = Some row' \<longrightarrow> \<not> ck_is_active row') \<and>
    (\<forall>t dbErr. t < kq_now q2 + clientKeyCacheTTL \<and> t \<le> 100 * second \<longrightarrow>
       fst (Validate (kv_key_env sample_kv) dbErr t ''app'' ''pw'' (kx_keys (kq_keys q2))) =
         Inr \<lparr>vk_client_id = ''app'', vk_service_name = ck_service_name sample_row, vk_expires_at = 100 * second\<rparr>) \<and>
    (\<forall>t dbErr secret'. kq_now q2 + clientKeyCacheTTL \<le> t \<longrightarrow>
       (\<exists>err. fst (Validate (kv_key_env sample_kv) dbErr t ''app'' secret' (kx_keys (kq_keys q2))) = Inl err))"
  proof (rule revocation_can_be_lost)
    show "key_env_ok (kv_key_env sample_kv) mem_view" "ke_marshal (kv_key_env sample_kv) (cached_of sample_row) = Inr data"
      using sample_key_env_ok data by (simp_all add: sample_key_env_def)
    show "redis_up (ke_redis (kv_key_env sample_kv))"
      by (simp add: redis_up_def mem_redis_def split: option.split)
    show "CompareSecretHash (ke_hashes (kv_key_env sample_kv)) ''pw'' (ck_secret_hash sample_row)"
      by (simp add: CompareSecretHash_def sample_hashes_def sample_row_def numeral_eq_Suc)
    show "ks_redis (kx_keys (kq_keys sample_sys)) = Some []" "kq_calls sample_sys 0 = None"
      "find_key (ks_store (kx_keys (kq_keys sample_sys))) ''app'' = Some sample_row"
      using sample_find by (simp_all add: sample_sys_def sample_keys_def)
  qed (simp_all add: sample_parse mem_view_def second_def)
  moreover have "kq_now sample_sys = 0" by (simp add: sample_sys_def)
  moreover have "100 * second < 0 + 5 * second + clientKeyCacheTTL" by (simp add: clientKeyCacheTTL_def second_def)
  ultimately show ?thesis by (metis order_refl sample_kv_simps(1))
qed

text \<open>
  A very long lifetime overflows: with \<^verbatim>\<open>ttl_hours\<close> 2562048 the multiplication by an hour wraps around, and
  the key that \<^verbatim>\<open>Create\<close> has just issued with status 201 is refused as expired from the start.
\<close>

theorem huge_ttl_is_expired:
  assumes "key_env_ok (kv_key_env env) view" and "key_cache_ok (kv_key_env env) view t0 (kx_keys s)"
    and "ClientKey_Create env invalid (Inr req) s = (resp, s')" and "rs_status resp = 201"
    and "cr_ttl_hours req = 2562048" and "t0 \<le> now" and "kv_clock env 0 \<le> now"
  shows "\<exists>e. fst (Validate (kv_key_env env) dbErr now (cr_client_id req) secret
       (after_validations (kv_key_env env) vs (kx_keys s'))) = Inl e"
proof -
  let ?e = "kv_key_env env" and ?c = "cr_client_id req"
  obtain st h p key where cs: "ClientKeyStore_Create (kv_fail_exec env) (ke_time ?e) (kv_clock env 1) ?c h p
       (cr_service_name req) (cr_description req) (kv_clock env 0 + ttl_duration (cr_ttl_hours req)) (ks_store (kx_keys s)) = (Inr key, st)"
    and s': "kx_keys s' = (kx_keys s)\<lparr>ks_store := st\<rparr>"
    using created [OF assms(3,4)] by blast
  note f = find_after_create [OF cs]
  have "ttl_duration 2562048 < 0" by (simp add: ttl_duration_def second_def wrap_def)
  then have "\<not> now \<le> whole_seconds (kv_clock env 0 + ttl_duration 2562048)"
    using whole_seconds_le(1) [of "kv_clock env 0 + ttl_duration 2562048"] assms(7) by linarith
  then have "\<not> genuine_key ?e now (kx_keys s') ?c secret k" for k
    using f(2) assms(1,5) by (auto simp: genuine_key_iff s' key_env_ok_def time_format_ok_def)
  then show ?thesis
    using changed_row_decides(2) [OF assms(1) _ assms(6)] new_row_keeps [OF assms(2) f(3) f(1)]
    unfolding s' by (cases "fst (Validate ?e dbErr now ?c secret (after_validations ?e vs ((kx_keys s)\<lparr>ks_store := st\<rparr>)))") blast+
qed

theorem huge_ttl_is_expired_witness:
  "\<exists>resp s' e. ClientKey_Create sample_kv [] (Inr \<lparr>cr_client_id = ''new'', cr_service_name = ''web'',
       cr_description = [], cr_ttl_hours = 2562048\<rparr>) sample_kx = (resp, s') \<and> rs_status resp = 201 \<and>
    fst (Validate sample_key_env None second ''new'' ''x'' (after_validations sample_key_env [] (kx_keys s'))) = Inl e"
proof -
  let ?req = "\<lparr>cr_client_id = ''new'', cr_service_name = ''web'', cr_description = [], cr_ttl_hours = 2562048\<rparr>"
  obtain resp s' where c: "ClientKey_Create sample_kv [] (Inr ?req) sample_kx = (resp, s')" by (metis surj_pair)
  have "rs_status resp = 201"
    using c sample_new_secret sample_find
    by (auto simp: ClientKey_Create_def bind_create_def GetByClientID_def ClientKeyStore_Create_def Let_def json_response_def)
  then show ?thesis
    using huge_ttl_is_expired [of sample_kv mem_view 0 sample_kx "[]" ?req resp s' second None "''x''" "[]"]
      c sample_key_env_ok sample_keys_coherent by (auto simp: second_def)
qed

end
