(* ===== verification/Cache.thy ===== *)
theory Cache
  imports Services Requests Crypto Http
begin

text \<open>
  \<^verbatim>\<open>internal/cache/cache.go\<close>: the response cache in Redis.  The key hashes a pre-image in which every field is
  followed by a NUL byte; the digest, the printing of floats with \<^verbatim>\<open>%f\<close> and the JSON coding of responses are
  arguments.
\<close>

definition cacheKeyPrefix :: string where
  "cacheKeyPrefix = ''ezai:cache:''"

definition defaultTTL :: duration where
  "defaultTTL = 10 * 60 * second"

record cache_lib =
  cl_sha256 :: "string \<Rightarrow> string"
  cl_fmt_f :: "float64 \<Rightarrow> string"
  cl_marshal :: "ChatResponse \<Rightarrow> error_text + string"
  cl_unmarshal :: "string \<Rightarrow> error_text + ChatResponse"

record Cache =
  ca_ttl :: duration

definition NewCache :: "duration \<Rightarrow> Cache" where
  "NewCache ttl = \<lparr>ca_ttl = (if ttl \<le> 0 then defaultTTL else ttl)\<rparr>"

definition NUL :: char where
  "NUL = char_of (0 :: nat)"

lemma NUL_eq [simp]: "NUL = c \<longleftrightarrow> (of_char c :: nat) = 0" "c = NUL \<longleftrightarrow> (of_char c :: nat) = 0"
proof -
  show "NUL = c \<longleftrightarrow> (of_char c :: nat) = 0"
    by (metis NUL_def char_of_char of_char_of mod_0)
  then show "c = NUL \<longleftrightarrow> (of_char c :: nat) = 0" by auto
qed

definition optional_text :: "('a \<Rightarrow> string) \<Rightarrow> 'a option \<Rightarrow> string" where
  "optional_text f v = (case v of None \<Rightarrow> [] | Some x \<Rightarrow> f x)"

definition message_bytes :: "Message list \<Rightarrow> string" where
  "message_bytes ms = concat (map (\<lambda>m. msg_role m @ [NUL] @ msg_content m @ [NUL]) ms)"

definition key_preimage :: "cache_lib \<Rightarrow> ChatRequest \<Rightarrow> string" where
  "key_preimage lib req =
     req_provider req @ [NUL] @ req_model req @ [NUL] @ message_bytes (req_messages req) @
     optional_text (\<lambda>t. ''t:'' @ cl_fmt_f lib t) (opt_temperature (req_options req)) @ [NUL] @
     optional_text (\<lambda>m. ''m:'' @ show_int m) (opt_max_tokens (req_options req)) @ [NUL] @
     optional_text (\<lambda>p. ''p:'' @ cl_fmt_f lib p) (opt_top_p (req_options req)) @ [NUL] @
     ''s:'' @ (if opt_stream (req_options req) then ''true'' else ''false'')"

definition buildKey :: "cache_lib \<Rightarrow> ChatRequest \<Rightarrow> string" where
  "buildKey lib req = cacheKeyPrefix @ take 32 (hex_encode (cl_sha256 lib (key_preimage lib req)))"

definition cache_get ::
  "cache_lib \<Rightarrow> 'r redis \<Rightarrow> go_time \<Rightarrow> ChatRequest \<Rightarrow> 'r \<Rightarrow> error_text + ChatResponse option" where
  "cache_get lib rd now req r =
     (case rd_get rd now r (buildKey lib req) of
        RedisNil \<Rightarrow> Inr None
      | RedisErr e \<Rightarrow> Inl ((bytes [236, 186, 144, 236, 139, 156, 32, 236, 161, 176, 237, 154, 140, 32, 236, 139, 164, 237, 140, 168, 58, 32]) @ e)
      | RedisVal data \<Rightarrow>
          (case cl_unmarshal lib data of
             Inl e \<Rightarrow> Inl ((bytes [236, 186, 144, 236, 139, 156, 32, 236, 151, 173, 236, 167, 129, 235, 160, 172, 237, 153, 148, 32, 236, 139, 164, 237, 140, 168, 58, 32]) @ e)
           | Inr resp \<Rightarrow> Inr (Some resp)))"

definition cache_set ::
  "cache_lib \<Rightarrow> 'r redis \<Rightarrow> Cache \<Rightarrow> go_time \<Rightarrow> ChatRequest \<Rightarrow> ChatResponse \<Rightarrow> 'r \<Rightarrow> error_text option \<times> 'r" where
  "cache_set lib rd c now req resp r =
     (case cl_marshal lib resp of
        Inl e \<Rightarrow> (Some ((bytes [236, 186, 144, 236, 139, 156, 32, 236, 167, 129, 235, 160, 172, 237, 153, 148, 32, 236, 139, 164, 237, 140, 168, 58, 32]) @ e), r)
      | Inr data \<Rightarrow> rd_set rd now r (buildKey lib req) data (ca_ttl c))"

subsection \<open>Keys\<close>

text \<open>Fields without NUL bytes can be read back from their concatenation.\<close>

lemma field_inj:
  assumes "c \<notin> set a" and "c \<notin> set b" and "a @ c # s = b @ c # t"
  shows "a = b \<and> s = t"
proof -
  have "takeWhile (\<lambda>x. x \<noteq> c) (a @ c # s) = a" "takeWhile (\<lambda>x. x \<noteq> c) (b @ c # t) = b"
    using assms(1,2) by (simp_all add: takeWhile_append takeWhile_eq_all_conv)
  then show ?thesis using assms(3) by simp
qed

definition fields :: "string list \<Rightarrow> string" where
  "fields fs = concat (map (\<lambda>f. f @ [NUL]) fs)"

lemma fields_inj:
  assumes "\<forall>f \<in> set fs. NUL \<notin> set f" and "\<forall>g \<in> set gs. NUL \<notin> set g" and "NUL \<notin> set x" and "NUL \<notin> set y"
    and "fields fs @ x = fields gs @ y"
  shows "fs = gs \<and> x = y"
  using assms
proof (induction fs arbitrary: gs)
  case Nil
  then show ?case by (cases gs) (auto simp: fields_def)
next
  case (Cons f fs)
  then obtain g gs' where gs: "gs = g # gs'" by (cases gs) (auto simp: fields_def)
  have "f @ NUL # (fields fs @ x) = g @ NUL # (fields gs' @ y)"
    using Cons.prems(5) by (simp add: gs fields_def)
  moreover have "NUL \<notin> set f" "NUL \<notin> set g" using Cons.prems(1,2) gs by simp_all
  ultimately have "f = g" "fields fs @ x = fields gs' @ y" using field_inj by metis+
  then show ?case using Cons.IH [of gs'] Cons.prems gs by simp
qed

definition message_fields :: "Message list \<Rightarrow> string list" where
  "message_fields ms = concat (map (\<lambda>m. [msg_role m, msg_content m]) ms)"

definition option_fields :: "cache_lib \<Rightarrow> ChatOptions \<Rightarrow> string list" where
  "option_fields lib o' =
     [optional_text (\<lambda>t. ''t:'' @ cl_fmt_f lib t) (opt_temperature o'),
      optional_text (\<lambda>m. ''m:'' @ show_int m) (opt_max_tokens o'),
      optional_text (\<lambda>p. ''p:'' @ cl_fmt_f lib p) (opt_top_p o')]"

definition stream_field :: "ChatOptions \<Rightarrow> string" where
  "stream_field o' = ''s:'' @ (if opt_stream o' then ''true'' else ''false'')"

lemma key_preimage_fields:
  "key_preimage lib req = fields ([req_provider req, req_model req] @ message_fields (req_messages req) @
     option_fields lib (req_options req)) @ stream_field (req_options req)"
proof -
  have "message_bytes ms = fields (message_fields ms)" for ms
    by (induction ms) (auto simp: message_bytes_def message_fields_def fields_def)
  then show ?thesis
    by (simp add: key_preimage_def fields_def option_fields_def stream_field_def)
qed

lemma message_fields_simps [simp]:
  "message_fields [] = []" "message_fields (m # ms) = msg_role m # msg_content m # message_fields ms"
  by (simp_all add: message_fields_def)

lemma message_fields_inj: "message_fields ms = message_fields ns \<Longrightarrow> ms = ns" for ms ns :: "Message list"
proof (induction ms arbitrary: ns)
  case Nil
  then show ?case by (cases ns) simp_all
next
  case (Cons m ms)
  then obtain n ns' where "ns = n # ns'" by (cases ns) simp_all
  then show ?case using Cons by simp
qed

lemma NUL_facts: "NUL \<notin> set (show_int i)" "NUL \<notin> set (stream_field o')"
proof -
  have d: "char_of (48 + m) \<noteq> NUL" if "m < 10" for m :: nat
    using that by (simp add: of_char_of)
  have "NUL \<notin> set (show_nat n)" for n
  proof (induction n rule: less_induct)
    case (less n)
    show ?case
    proof (cases "n < 10")
      case True
      then show ?thesis using d [OF True] by (subst show_nat.simps) auto
    next
      case False
      then have "NUL \<notin> set (show_nat (n div 10))" by (intro less.IH) simp
      moreover have "char_of (48 + n mod 10) \<noteq> NUL" by (rule d) simp
      ultimately show ?thesis using False by (subst show_nat.simps) auto
    qed
  qed
  then show "NUL \<notin> set (show_int i)" by (auto simp: show_int_def)
  show "NUL \<notin> set (stream_field o')" by (auto simp: stream_field_def)
qed

lemma show_nat_inj: "show_nat m = show_nat n \<Longrightarrow> m = n"
  using parse_show_nat by (metis option.inject)

lemma show_int_inj: "show_int i = show_int j \<Longrightarrow> i = j"
proof -
  assume h: "show_int i = show_int j"
  have n: "show_nat k \<noteq> CHR ''-'' # s" for k s using show_nat_first [of k] by auto
  show "i = j"
    using h n n [symmetric] by (auto simp: show_int_def dest!: show_nat_inj split: if_splits)
qed

definition no_nul :: "cache_lib \<Rightarrow> ChatRequest \<Rightarrow> bool" where
  "no_nul lib req \<longleftrightarrow> NUL \<notin> set (req_provider req) \<and> NUL \<notin> set (req_model req) \<and>
     (\<forall>m \<in> set (req_messages req). NUL \<notin> set (msg_role m) \<and> NUL \<notin> set (msg_content m)) \<and>
     (\<forall>x. NUL \<notin> set (cl_fmt_f lib x))"

text \<open>
  Cache keys separate requests: for requests whose texts have no NUL byte, equal pre-images mean the
  same provider, model, messages and stream flag, and options that print the same; so two such requests
  share an entry only if the first 32 digits of their digests agree.
\<close>

theorem cache_key_separates:
  assumes "no_nul lib req" and "no_nul lib req'" and "key_preimage lib req = key_preimage lib req'"
  shows "req_provider req = req_provider req' \<and> req_model req = req_model req' \<and> req_messages req = req_messages req' \<and>
    opt_stream (req_options req) = opt_stream (req_options req') \<and>
    opt_max_tokens (req_options req) = opt_max_tokens (req_options req') \<and>
    map_option (cl_fmt_f lib) (opt_temperature (req_options req)) = map_option (cl_fmt_f lib) (opt_temperature (req_options req')) \<and>
    map_option (cl_fmt_f lib) (opt_top_p (req_options req)) = map_option (cl_fmt_f lib) (opt_top_p (req_options req'))"
proof -
  let ?fs = "\<lambda>r. [req_provider r, req_model r] @ message_fields (req_messages r) @ option_fields lib (req_options r)"
  have clean: "\<forall>f \<in> set (?fs r). NUL \<notin> set f" if "no_nul lib r" for r
    using that NUL_facts(1) unfolding no_nul_def option_fields_def message_fields_def optional_text_def
    by (auto split: option.splits)
  have eq: "?fs req = ?fs req'" "stream_field (req_options req) = stream_field (req_options req')"
    using fields_inj [OF clean [OF assms(1)] clean [OF assms(2)] NUL_facts(2) NUL_facts(2)] assms(3)
    unfolding key_preimage_fields by blast+
  have "length (message_fields (req_messages req)) = length (message_fields (req_messages req'))"
    using arg_cong [OF eq(1), of length] by (simp add: option_fields_def)
  then have m: "message_fields (req_messages req) = message_fields (req_messages req')"
    "option_fields lib (req_options req) = option_fields lib (req_options req')"
    using eq(1) by auto
  have opt: "map_option f a = map_option f b"
    if "optional_text (\<lambda>t. p # CHR '':'' # f t) a = optional_text (\<lambda>t. p # CHR '':'' # f t) b" for f a b p
    using that by (auto simp: optional_text_def split: option.splits)
  have "map_option show_int (opt_max_tokens (req_options req)) = map_option show_int (opt_max_tokens (req_options req'))"
    using m(2) opt by (auto simp: option_fields_def)
  then have "opt_max_tokens (req_options req) = opt_max_tokens (req_options req')"
    by (cases "opt_max_tokens (req_options req)"; cases "opt_max_tokens (req_options req')") (auto dest: show_int_inj)
  then show ?thesis
    using eq m message_fields_inj [OF m(1)] opt
    by (auto simp: option_fields_def stream_field_def split: if_splits)
qed

definition sample_digest :: cache_lib where
  "sample_digest = \<lparr>cl_sha256 = (\<lambda>s. s), cl_fmt_f = (\<lambda>_. ''0.500000''), cl_marshal = (\<lambda>r. Inr (resp_content r)),
     cl_unmarshal = (\<lambda>d. if d = ''hi'' then Inr \<lparr>resp_id = ''1'', resp_provider = ''gpt'', resp_model = ''m'', resp_content = ''hi'',
        resp_usage = zero_usage, resp_metadata = zero_metadata\<rparr> else Inl ''bad'')\<rparr>"

definition short_request :: "string \<Rightarrow> string \<Rightarrow> ChatRequest" where
  "short_request p m = \<lparr>req_provider = p, req_model = m, req_messages = [\<lparr>msg_role = ''user'', msg_content = ''hello''\<rparr>],
     req_options = \<lparr>opt_temperature = None, opt_max_tokens = Some 5, opt_top_p = None, opt_stream = False,
       opt_search_grounding = False\<rparr>,
     req_fallback = [], req_fallback_policy = [], req_project = [], req_task = [], req_prompt_vars = [],
     req_metadata = \<lparr>rm_client_id = [], rm_request_id = []\<rparr>\<rparr>"

theorem cache_key_separates_witness:
  "key_preimage sample_digest (short_request ''ab'' ''cd'') \<noteq> key_preimage sample_digest (short_request ''a'' ''bcd'')"
  using cache_key_separates [of sample_digest "short_request ''ab'' ''cd''" "short_request ''a'' ''bcd''"]
  by (auto simp: no_nul_def short_request_def sample_digest_def)

subsection \<open>What is read back\<close>

lemma cache_get_after_set:
  assumes "redis_ok rd view" and "cl_marshal lib r = Inr data" and "cl_unmarshal lib data = Inr r"
    and "cache_set lib rd c now req r s = (None, s')"
    and "view s2 t (buildKey lib req) = view s' t (buildKey lib req)" and "t < now + ca_ttl c"
    and "\<And>e. rd_get rd t s2 (buildKey lib req) \<noteq> RedisErr e" and "buildKey lib req' = buildKey lib req"
  shows "cache_get lib rd t req' s2 = Inr (Some r)"
proof -
  have "rd_set rd now s (buildKey lib req) data (ca_ttl c) = (None, s')"
    using assms(2,4) by (simp add: cache_set_def)
  then have "view s' t (buildKey lib req) = Some data"
    using redis_set_view [OF assms(1)] assms(6) by (fastforce simp: set_view_def)
  then have "rd_get rd t s2 (buildKey lib req) = RedisVal data"
    using assms(1,5,7) redis_get_nil redis_get_val
    by (cases "rd_get rd t s2 (buildKey lib req)") fastforce+
  then show ?thesis using assms(3,8) by (simp add: cache_get_def)
qed

end
