(* ===== verification/Chat.thy ===== *)
theory Chat
  imports Fastest Prompt Pricing Cache Logs Middleware
begin

text \<open>
  \<^verbatim>\<open>internal/handler/chat.go\<close>: one chat request from its body to its response, through prompt, project
  fallback, cache, router, price and log; and the helpers the streaming handler shares.  A handler returns
  \<^const>\<open>None\<close> when a call it makes never returns; \<open>Panicked\<close> is a write to the closed log channel or a
  negative preview length.
\<close>

subsection \<open>Runes\<close>

text \<open>The bytes of the first UTF-8 sequence of a text, if it is a valid one.\<close>

definition continuation :: "nat \<Rightarrow> bool" where
  "continuation n \<longleftrightarrow> 128 \<le> n \<and> n \<le> 191"

definition utf8_first :: "string \<Rightarrow> nat option" where
  "utf8_first s =
     (let b = map (of_char :: char \<Rightarrow> nat) (take 4 s); ix = (\<lambda>i. if i < length b then b ! i else 0) in
      if s = [] then None
      else if ix 0 < 128 then Some 1
      else if 194 \<le> ix 0 \<and> ix 0 \<le> 223 \<and> continuation (ix 1) then Some 2
      else if ix 0 = 224 \<and> 160 \<le> ix 1 \<and> ix 1 \<le> 191 \<and> continuation (ix 2) then Some 3
      else if ix 0 = 237 \<and> 128 \<le> ix 1 \<and> ix 1 \<le> 159 \<and> continuation (ix 2) then Some 3
      else if 225 \<le> ix 0 \<and> ix 0 \<le> 239 \<and> ix 0 \<noteq> 237 \<and> continuation (ix 1) \<and> continuation (ix 2) then Some 3
      else if ix 0 = 240 \<and> 144 \<le> ix 1 \<and> ix 1 \<le> 191 \<and> continuation (ix 2) \<and> continuation (ix 3) then Some 4
      else if ix 0 = 244 \<and> 128 \<le> ix 1 \<and> ix 1 \<le> 143 \<and> continuation (ix 2) \<and> continuation (ix 3) then Some 4
      else if 241 \<le> ix 0 \<and> ix 0 \<le> 243 \<and> continuation (ix 1) \<and> continuation (ix 2) \<and> continuation (ix 3) then Some 4
      else None)"

text \<open>
  \<^verbatim>\<open>[]rune(s)\<close>, each rune as the bytes \<^verbatim>\<open>string\<close> gives it again: an invalid byte is the replacement character.
\<close>

function runes :: "string \<Rightarrow> string list" where
  "runes s =
     (case s of [] \<Rightarrow> []
      | c # s' \<Rightarrow>
          (case utf8_first s of
             Some n \<Rightarrow> take (max 1 n) s # runes (drop (max 1 n) s)
           | None \<Rightarrow> bytes [239, 191, 189] # runes s'))"
  by pat_completeness auto
termination
  by (relation "measure length") auto

declare runes.simps [simp del]

text \<open>\<^const>\<open>None\<close>: a negative length panics.\<close>

definition truncate_text :: "string \<Rightarrow> int \<Rightarrow> string option" where
  "truncate_text s maxLen =
     (if int (length (runes s)) \<le> maxLen then Some s
      else if maxLen < 0 then None
      else Some (concat (take (nat maxLen) (runes s)) @ ''...''))"

subsection \<open>What is logged\<close>

fun last_user :: "Message list \<Rightarrow> Message option" where
  "last_user [] = None"
| "last_user (m # ms) =
     (case last_user ms of Some u \<Rightarrow> Some u | None \<Rightarrow> if msg_role m = ''user'' then Some m else None)"

definition previewText :: "Message list \<Rightarrow> int \<Rightarrow> string option" where
  "previewText messages maxLen =
     (case last_user messages of None \<Rightarrow> Some [] | Some m \<Rightarrow> truncate_text (msg_content m) maxLen)"

definition loggingPreviewLengths :: "LoggingPolicy option \<Rightarrow> int \<times> int" where
  "loggingPreviewLengths lc =
     (case lc of
        Some p \<Rightarrow> (lr_input_preview_length (lg_record p), lr_output_preview_length (lg_record p))
      | None \<Rightarrow> (200, 200))"

definition loggingHashPrompt :: "(string \<Rightarrow> string) \<Rightarrow> LoggingPolicy option \<Rightarrow> Message list \<Rightarrow> string" where
  "loggingHashPrompt sha lc messages =
     (if (case lc of Some p \<Rightarrow> \<not> lp_hash_prompts (lg_privacy p) | None \<Rightarrow> False) then []
      else take 16 (hex_encode (sha (concat (map (\<lambda>m. msg_role m @ '':'' @ msg_content m) messages)))))"

definition attempt_log :: "FallbackAttempt \<Rightarrow> FallbackAttemptLog" where
  "attempt_log a = \<lparr>fl_order = fa_order a, fl_provider = fa_provider a, fl_model = fa_model a,
     fl_status = fa_status a, fl_error = fa_error a, fl_latency_ms = fa_latency_ms a\<rparr>"

record 'p chat_handler =
  hc_registry :: "'p Registry"
  hc_router :: bool
  hc_pricing :: "PricingManager option"
  hc_logging :: "LoggingPolicy option"
  hc_cache :: "Cache option"
  hc_config_dir :: string

record ('p, 'r) chat_lib =
  li_env :: "'p env"
  li_sched :: "label list"
  li_ctx :: context_err
  li_prompt :: prompt_env
  li_read :: read_file
  li_project_yaml :: "string \<Rightarrow> error_text + ProjectFallbackConfig"
  li_float :: "rat \<Rightarrow> rat"
  li_order1 :: "string list"
  li_order2 :: "string list"
  li_cache :: cache_lib
  li_redis :: "'r redis"
  li_options_json :: "ChatOptions \<Rightarrow> error_text + string"

record ('p, 'r) chat_state =
  hs_world :: "'p world"
  hs_prompts :: "PromptManager option"
  hs_redis :: 'r
  hs_writer :: "RequestLogWriter option"

text \<open>The fields every log of a request has, before its outcome; \<^const>\<open>None\<close> is a panic.\<close>

definition base_log ::
  "LoggingPolicy option \<Rightarrow> (string \<Rightarrow> string) \<Rightarrow> (ChatOptions \<Rightarrow> error_text + string) \<Rightarrow> string \<Rightarrow> string \<Rightarrow> string
   \<Rightarrow> ChatRequest \<Rightarrow> FallbackAttempt list \<Rightarrow> int \<Rightarrow> RequestLog option" where
  "base_log lc sha options_json traceID clientID clientIP req attempts totalLatencyMs =
     map_option (\<lambda>preview. \<lparr>lg_trace_id = traceID, lg_client_id = clientID, lg_client_ip = clientIP, lg_api_key_id = 0,
      lg_project = req_project req, lg_task = req_task req,
      lg_requested_provider = req_provider req, lg_requested_model = req_model req,
      lg_prompt_hash = loggingHashPrompt sha lc (req_messages req), lg_input_preview = preview,
      lg_options_json = (case options_json (req_options req) of Inr s \<Rightarrow> s | Inl _ \<Rightarrow> []),
      lg_actual_provider = [], lg_actual_model = [], lg_fallback_used = False,
      lg_fallback_chain = map attempt_log attempts, lg_routing_reason = [],
      lg_status = [], lg_error_code = [], lg_error_message = [],
      lg_input_tokens = 0, lg_output_tokens = 0, lg_cost_usd = 0,
      lg_latency_ms = totalLatencyMs, lg_provider_latency_ms = 0,
      lg_search_grounding = opt_search_grounding (req_options req), lg_output_preview = [], lg_metadata = []\<rparr>)
       (previewText (req_messages req) (fst (loggingPreviewLengths lc)))"

definition api_key_id :: "'p Registry \<Rightarrow> string \<Rightarrow> int" where
  "api_key_id r name = (case GetKeyID r name of Some k \<Rightarrow> if k > 0 then k else 0 | None \<Rightarrow> 0)"

definition chat_log ::
  "'p chat_handler \<Rightarrow> ('p, 'r) chat_lib \<Rightarrow> string \<Rightarrow> string \<Rightarrow> string \<Rightarrow> ChatRequest \<Rightarrow> ChatResponse option
   \<Rightarrow> FallbackAttempt list \<Rightarrow> int \<Rightarrow> error_text option \<Rightarrow> RequestLog option" where
  "chat_log h lib traceID clientID clientIP req resp attempts totalLatencyMs reqErr =
     (case base_log (hc_logging h) (cl_sha256 (li_cache lib)) (li_options_json lib) traceID clientID clientIP req
             attempts totalLatencyMs of
        None \<Rightarrow> None
      | Some l0 \<Rightarrow>
          (let l = (case resp of Some r \<Rightarrow> l0\<lparr>lg_api_key_id := api_key_id (hc_registry h) (resp_provider r)\<rparr> | None \<Rightarrow> l0)
           in case reqErr of
                Some e \<Rightarrow> Some (l\<lparr>lg_status := ''error'', lg_error_message := e\<rparr>)
              | None \<Rightarrow>
                  (case resp of
                     None \<Rightarrow> Some l
                   | Some r \<Rightarrow>
                       map_option (\<lambda>preview.
                         l\<lparr>lg_status := ''success'', lg_actual_provider := resp_provider r, lg_actual_model := resp_model r,
                           lg_input_tokens := us_input_tokens (resp_usage r), lg_output_tokens := us_output_tokens (resp_usage r),
                           lg_cost_usd := us_estimated_cost (resp_usage r),
                           lg_fallback_used := md_fallback_used (resp_metadata r), lg_provider_latency_ms := totalLatencyMs,
                           lg_output_preview := preview,
                           lg_routing_reason := (case md_fallback_reason (resp_metadata r) of Some s \<Rightarrow> s | None \<Rightarrow> [])\<rparr>)
                         (truncate_text (resp_content r) (snd (loggingPreviewLengths (hc_logging h)))))))"

text \<open>
  A handler's last step: building and writing the log, which is skipped without a writer and panics on a
  negative preview length (\<open>l\<close> is \<^const>\<open>None\<close>) or a closed channel.
\<close>

definition write_entry :: "RequestLog option \<Rightarrow> RequestLogWriter option \<Rightarrow> RequestLogWriter option option" where
  "write_entry l writer =
     (case writer of
        None \<Rightarrow> Some None
      | Some w \<Rightarrow> (case l of None \<Rightarrow> None | Some e \<Rightarrow> map_option Some (log_write e w)))"

definition write_log :: "RequestLog option \<Rightarrow> ('p, 'r) chat_state \<Rightarrow> ('p, 'r) chat_state option" where
  "write_log l s = map_option (\<lambda>w. s\<lparr>hs_writer := w\<rparr>) (write_entry l (hs_writer s))"

subsection \<open>Preparing the request\<close>

definition bind_chat :: "error_text \<Rightarrow> error_text + ChatRequest \<Rightarrow> error_text + ChatRequest" where
  "bind_chat invalid decoded =
     (case decoded of
        Inl e \<Rightarrow> Inl e
      | Inr req \<Rightarrow>
          if req_provider req = [] \<or> req_model req = [] \<or> req_messages req = [] then Inl invalid else Inr req)"

definition with_prompt ::
  "prompt_env \<Rightarrow> ChatRequest \<Rightarrow> PromptManager option \<Rightarrow> ChatRequest \<times> PromptManager option" where
  "with_prompt penv req pm =
     (case pm of
        None \<Rightarrow> (req, None)
      | Some m \<Rightarrow>
          if req_project req = [] \<and> req_task req = [] then (req, pm)
          else
            (case Build penv (req_provider req) (req_project req) (req_task req) (req_prompt_vars req) m of
               (Inl _, m') \<Rightarrow> (req, Some m')
             | (Inr systemPrompt, m') \<Rightarrow>
                 (if systemPrompt \<noteq> []
                  then req\<lparr>req_messages := \<lparr>msg_role = ''system'', msg_content = systemPrompt\<rparr> # req_messages req\<rparr>
                  else req, Some m')))"

fun chain_targets :: "ChatRequest \<Rightarrow> FallbackTarget list \<Rightarrow> FallbackTarget list" where
  "chain_targets req [] = []"
| "chain_targets req (entry # chain) =
     (if ft_provider entry = req_provider req \<and> ft_model entry = req_model req then chain_targets req chain
      else entry # chain_targets req chain)"

definition with_project_fallback ::
  "read_file \<Rightarrow> (string \<Rightarrow> error_text + ProjectFallbackConfig) \<Rightarrow> string \<Rightarrow> ChatRequest \<Rightarrow> ChatRequest" where
  "with_project_fallback read project_yaml configDir req =
     (if req_project req \<noteq> [] \<and> length (req_fallback req) = 0 \<and> configDir \<noteq> [] then
        (case LoadProjectFallback read project_yaml configDir (req_project req) of
           Inl _ \<Rightarrow> req
         | Inr cfg \<Rightarrow>
             req\<lparr>req_fallback := req_fallback req @ chain_targets req (prj_default_chain cfg),
                 req_fallback_policy := (if req_fallback_policy req = [] \<and> prj_policy cfg \<noteq> [] then prj_policy cfg
                                         else req_fallback_policy req)\<rparr>)
      else req)"

subsection \<open>The response\<close>

definition usage_info_json :: "UsageInfo \<Rightarrow> json" where
  "usage_info_json u = JObj [(''input_tokens'', JInt (us_input_tokens u)), (''output_tokens'', JInt (us_output_tokens u)),
     (''total_tokens'', JInt (us_total_tokens u)), (''estimated_cost_usd'', JFloat (us_estimated_cost u))]"

definition chat_response_json :: "ChatResponse \<Rightarrow> json" where
  "chat_response_json r = JObj
     [(''id'', JStr (resp_id r)), (''provider'', JStr (resp_provider r)), (''model'', JStr (resp_model r)),
      (''content'', JStr (resp_content r)), (''usage'', usage_info_json (resp_usage r)),
      (''metadata'', JObj
        ([(''latency_ms'', JInt (md_latency_ms (resp_metadata r))), (''fallback_used'', JBool (md_fallback_used (resp_metadata r)))] @
         (case md_fallback_reason (resp_metadata r) of None \<Rightarrow> [] | Some s \<Rightarrow> [(''fallback_reason'', JStr s)]) @
         (if md_search_sources (resp_metadata r) = [] then []
          else [(''search_sources'', JList (map (\<lambda>x. JObj [(''title'', JStr (ss_title x)), (''uri'', JStr (ss_uri x))])
                   (md_search_sources (resp_metadata r))))])))]"

definition stamp :: "string \<Rightarrow> int \<Rightarrow> ChatResponse \<Rightarrow> ChatResponse" where
  "stamp traceID latency r =
     r\<lparr>resp_id := traceID, resp_metadata := (resp_metadata r)\<lparr>md_latency_ms := latency\<rparr>\<rparr>"

definition price_usage ::
  "PricingManager option \<Rightarrow> ('p, 'r) chat_lib \<Rightarrow> string \<Rightarrow> UsageInfo \<Rightarrow> UsageInfo" where
  "price_usage pricing lib modelName u =
     (case pricing of
        None \<Rightarrow> u
      | Some pm \<Rightarrow> u\<lparr>us_estimated_cost := Calculate (li_float lib) pm (li_order1 lib) (li_order2 lib) modelName
                      (us_input_tokens u) (us_output_tokens u)\<rparr>)"

definition can_cache :: "'p chat_handler \<Rightarrow> ChatRequest \<Rightarrow> bool" where
  "can_cache h req \<longleftrightarrow> hc_cache h \<noteq> None \<and> \<not> opt_stream (req_options req) \<and> \<not> opt_search_grounding (req_options req)"

definition cache_lookup :: "'p chat_handler \<Rightarrow> ('p, 'r) chat_lib \<Rightarrow> ChatRequest \<Rightarrow> ('p, 'r) chat_state \<Rightarrow> ChatResponse option" where
  "cache_lookup h lib req s =
     (if can_cache h req then
        (case cache_get (li_cache lib) (li_redis lib) (w_now (hs_world s)) req (hs_redis s) of
           Inr (Some cached) \<Rightarrow> Some cached
         | _ \<Rightarrow> None)
      else None)"

definition save_answer ::
  "'p chat_handler \<Rightarrow> ('p, 'r) chat_lib \<Rightarrow> ChatRequest \<Rightarrow> ChatResponse \<Rightarrow> ('p, 'r) chat_state \<Rightarrow> ('p, 'r) chat_state" where
  "save_answer h lib req resp s =
     (case hc_cache h of
        None \<Rightarrow> s
      | Some c \<Rightarrow>
          if can_cache h req
          then s\<lparr>hs_redis := snd (cache_set (li_cache lib) (li_redis lib) c (w_now (hs_world s)) req resp (hs_redis s))\<rparr>
          else s)"

text \<open>
  The call itself: through the router, or directly when there is none.  \<open>Inl\<close> ends the request at once.
\<close>

definition run_chat ::
  "'p chat_handler \<Rightarrow> ('p, 'r) chat_lib \<Rightarrow> ChatRequest \<Rightarrow> 'p world \<Rightarrow> ((http_response + exec_result) \<times> 'p world) option" where
  "run_chat h lib req w =
     (if hc_router h then map_option (\<lambda>(x, w'). (Inr x, w')) (Execute (li_env lib) (li_sched lib) (li_ctx lib) req w)
      else
        (case Registry_Get (hc_registry h) (req_provider req) of
           Inl err \<Rightarrow> Some (Inl (error_response 400 err), w)
         | Inr p \<Rightarrow> map_option (\<lambda>(r, w'). (Inr (r, []), w')) (env_chat (li_env lib) p (li_ctx lib) req w)))"

definition logged ::
  "RequestLog option \<Rightarrow> (('p, 'r) chat_state \<Rightarrow> http_response \<times> ('p, 'r) chat_state) \<Rightarrow> ('p, 'r) chat_state
   \<Rightarrow> http_response outcome \<times> ('p, 'r) chat_state" where
  "logged l k s = (case write_log l s of None \<Rightarrow> (Panicked False, s) | Some s' \<Rightarrow> (case k s' of (r, s'') \<Rightarrow> (Done r, s'')))"

definition bad_gateway :: "string \<Rightarrow> string \<Rightarrow> http_response" where
  "bad_gateway e traceID = json_response 502 [(''error'', JStr e), (''trace_id'', JStr traceID)]"

definition answer_chat ::
  "'p chat_handler \<Rightarrow> ('p, 'r) chat_lib \<Rightarrow> gin \<Rightarrow> ChatRequest \<Rightarrow> ('p, 'r) chat_state
   \<Rightarrow> (http_response outcome \<times> ('p, 'r) chat_state) option" where
  "answer_chat h lib c req s =
     (let traceID = GetTraceID c; clientID = GetClientID c; start = w_now (hs_world s) in
      case run_chat h lib req (hs_world s) of
        None \<Rightarrow> None
      | Some (Inl resp, w) \<Rightarrow> Some (Done resp, s\<lparr>hs_world := w\<rparr>)
      | Some (Inr (Inl err, attempts), w) \<Rightarrow>
          Some (logged (chat_log h lib traceID clientID (gn_client_ip c) req None attempts (Milliseconds (w_now w - start)) (Some err))
                  (\<lambda>s. (bad_gateway (bytes [237, 148, 132, 235, 161, 156, 235, 176, 148, 236, 157, 180, 235, 141, 148, 32, 236, 154, 148, 236, 178, 173, 32, 236, 139, 164, 237, 140, 168]) traceID, s)) (s\<lparr>hs_world := w\<rparr>))
      | Some (Inr (Inr r, attempts), w) \<Rightarrow>
          (let totalLatency = Milliseconds (w_now w - start);
               resp = (stamp traceID totalLatency r)\<lparr>resp_usage := price_usage (hc_pricing h) lib (resp_model r) (resp_usage r)\<rparr>
           in Some (logged (chat_log h lib traceID clientID (gn_client_ip c) req (Some resp) attempts totalLatency None)
                      (\<lambda>s. (\<lparr>rs_status = 200, rs_body = chat_response_json resp\<rparr>, save_answer h lib req resp s))
                      (s\<lparr>hs_world := w\<rparr>))))"

definition prepare ::
  "string \<Rightarrow> ('p, 'r) chat_lib \<Rightarrow> ChatRequest \<Rightarrow> ('p, 'r) chat_state \<Rightarrow> ChatRequest \<times> ('p, 'r) chat_state" where
  "prepare configDir lib req s =
     (case with_prompt (li_prompt lib) req (hs_prompts s) of
        (req', pm) \<Rightarrow>
          (with_project_fallback (li_read lib) (li_project_yaml lib) configDir req', s\<lparr>hs_prompts := pm\<rparr>))"

definition check_chat :: "error_text \<Rightarrow> error_text + ChatRequest \<Rightarrow> http_response + ChatRequest" where
  "check_chat invalid decoded =
     (case bind_chat invalid decoded of
        Inl e \<Rightarrow> Inl (error_response 400 ((bytes [236, 158, 152, 235, 170, 187, 235, 144, 156, 32, 236, 154, 148, 236, 178, 173, 32, 237, 152, 149, 236, 139, 157, 58, 32]) @ e))
      | Inr req \<Rightarrow>
          (case ValidateOptions req of
             Some e \<Rightarrow> Inl (error_response 400 e)
           | None \<Rightarrow> Inr req))"

definition Chat ::
  "'p chat_handler \<Rightarrow> ('p, 'r) chat_lib \<Rightarrow> error_text \<Rightarrow> error_text + ChatRequest \<Rightarrow> gin \<Rightarrow> ('p, 'r) chat_state
   \<Rightarrow> (http_response outcome \<times> ('p, 'r) chat_state) option" where
  "Chat h lib invalid decoded c s =
     (case check_chat invalid decoded of
        Inl resp \<Rightarrow> Some (Done resp, s)
      | Inr req0 \<Rightarrow>
          if opt_stream (req_options req0)
          then Some (Done (error_response 400 (bytes [236, 138, 164, 237, 138, 184, 235, 166, 172, 235, 176, 141, 236, 157, 128, 32, 80, 79, 83, 84, 32, 47, 99, 104, 97, 116, 47, 115, 116, 114, 101, 97, 109, 32, 236, 151, 148, 235, 147, 156, 237, 143, 172, 236, 157, 184, 237, 138, 184, 235, 165, 188, 32, 236, 130, 172, 236, 154, 169, 237, 149, 152, 236, 132, 184, 236, 154, 148])), s)
          else
            (case prepare (hc_config_dir h) lib req0 s of
               (req, s1) \<Rightarrow>
                 (case cache_lookup h lib req s1 of
                    Some cached0 \<Rightarrow>
                      (let cached = stamp (GetTraceID c) 0 cached0
                       in Some (logged (chat_log h lib (GetTraceID c) (GetClientID c) (gn_client_ip c) req (Some cached) [] 0 None)
                                  (\<lambda>s. (\<lparr>rs_status = 200, rs_body = chat_response_json cached\<rparr>, s)) s1))
                  | None \<Rightarrow> answer_chat h lib c req s1)))"

subsection \<open>Every answer is logged once\<close>

lemma base_log_ids:
  "base_log lc sha oj t ci ip req as ms = Some l \<Longrightarrow> lg_trace_id l = t \<and> lg_client_id l = ci"
  by (auto simp: base_log_def)

lemma chat_log_ids:
  "chat_log h lib t ci ip req ro as ms er = Some l \<Longrightarrow> lg_trace_id l = t \<and> lg_client_id l = ci"
  by (auto simp: chat_log_def Let_def dest!: base_log_ids split: option.splits)

lemma chat_log_success:
  "chat_log h lib t ci ip req (Some r) as ms None = Some l \<Longrightarrow>
   lg_status l = ''success'' \<and> lg_actual_provider l = resp_provider r \<and>
   lg_input_tokens l = us_input_tokens (resp_usage r) \<and> lg_output_tokens l = us_output_tokens (resp_usage r) \<and>
   lg_cost_usd l = us_estimated_cost (resp_usage r)"
  by (auto simp: chat_log_def Let_def split: option.splits)

lemma chat_log_error: "chat_log h lib t ci ip req ro as ms (Some e) = Some l \<Longrightarrow> lg_status l = ''error''"
  by (auto simp: chat_log_def Let_def split: option.splits)

lemma logged_Done:
  assumes "logged l k s = (Done resp, s')" and "hs_writer s = Some w" and "\<And>s. hs_writer (snd (k s)) = hs_writer s"
  shows "\<exists>e w' s1. l = Some e \<and> log_write e w = Some w' \<and> hs_writer s' = Some w' \<and> k s1 = (resp, s')"
proof -
  obtain s1 where s1: "write_log l s = Some s1" "k s1 = (resp, s')"
    using assms(1) by (auto simp: logged_def split: option.splits prod.splits)
  then obtain e w' where "l = Some e" "log_write e w = Some w'" "hs_writer s1 = Some w'"
    using assms(2) by (auto simp: write_log_def write_entry_def split: option.splits)
  then show ?thesis using s1 assms(3) [of s1] by auto
qed

lemma save_answer_writer [simp]: "hs_writer (save_answer h lib req r s) = hs_writer s"
  by (simp add: save_answer_def split: option.split)

definition logged_answer :: "gin \<Rightarrow> RequestLogWriter \<Rightarrow> http_response \<Rightarrow> ('p, 'r) chat_state \<Rightarrow> bool" where
  "logged_answer c w resp s' \<longleftrightarrow> rs_status resp \<in> {200, 502} \<and>
     (\<exists>l w'. log_write l w = Some w' \<and> hs_writer s' = Some w' \<and> lg_trace_id l = GetTraceID c \<and> lg_client_id l = GetClientID c \<and>
       (rs_status resp = 502 \<longrightarrow> lg_status l = ''error'') \<and>
       (rs_status resp = 200 \<longrightarrow> lg_status l = ''success'' \<and>
         (\<exists>r. rs_body resp = chat_response_json r \<and> resp_id r = GetTraceID c \<and> lg_actual_provider l = resp_provider r \<and>
            lg_input_tokens l = us_input_tokens (resp_usage r) \<and> lg_output_tokens l = us_output_tokens (resp_usage r) \<and>
            lg_cost_usd l = us_estimated_cost (resp_usage r))))"

lemma logged_success:
  assumes "logged (chat_log h lib (GetTraceID c) (GetClientID c) ip req (Some r) as ms None)
      (\<lambda>s. (\<lparr>rs_status = 200, rs_body = chat_response_json r\<rparr>, f s)) s = (Done resp, s')"
    and "hs_writer s = Some w" and "\<And>s. hs_writer (f s) = hs_writer s" and "resp_id r = GetTraceID c"
  shows "logged_answer c w resp s'"
proof -
  obtain e w' where e: "chat_log h lib (GetTraceID c) (GetClientID c) ip req (Some r) as ms None = Some e"
    "log_write e w = Some w'" "hs_writer s' = Some w'" "resp = \<lparr>rs_status = 200, rs_body = chat_response_json r\<rparr>"
    using logged_Done [OF assms(1,2)] assms(3) by auto
  then show ?thesis
    using chat_log_ids [OF e(1)] chat_log_success [OF e(1)] assms(4)
    unfolding logged_answer_def by (intro conjI exI [of _ e] exI [of _ w']) auto
qed

lemma logged_failure:
  assumes "logged (chat_log h lib (GetTraceID c) (GetClientID c) ip req None as ms (Some e))
      (\<lambda>s. (bad_gateway x t, s)) s = (Done resp, s')" and "hs_writer s = Some w"
  shows "logged_answer c w resp s'"
proof -
  obtain l w' where l: "chat_log h lib (GetTraceID c) (GetClientID c) ip req None as ms (Some e) = Some l"
    "log_write l w = Some w'" "hs_writer s' = Some w'" "resp = bad_gateway x t"
    using logged_Done [OF assms] by auto
  then show ?thesis
    using chat_log_ids [OF l(1)] chat_log_error [OF l(1)]
    unfolding logged_answer_def
    by (intro conjI exI [of _ l] exI [of _ w']) (auto simp: bad_gateway_def json_response_def)
qed

lemma stamp_id [simp]: "resp_id (stamp t n r) = t" "resp_id ((stamp t n r)\<lparr>resp_usage := u\<rparr>) = t"
  by (simp_all add: stamp_def)

lemma answer_chat_logged:
  assumes "answer_chat h lib c req s = Some (Done resp, s')" and "hs_writer s = Some w"
  shows "(rs_status resp = 400 \<and> hs_writer s' = hs_writer s) \<or> logged_answer c w resp s'"
proof -
  obtain x w1 where run: "run_chat h lib req (hs_world s) = Some (x, w1)"
    using assms(1) by (auto simp: answer_chat_def Let_def split: option.splits)
  show ?thesis
  proof (cases x)
    case (Inl r)
    then have "rs_status r = 400"
      using run by (auto simp: run_chat_def error_response_def split: if_splits sum.splits)
    then show ?thesis using assms(1) run Inl by (auto simp: answer_chat_def Let_def)
  next
    case x: (Inr y)
    obtain res attempts where y: "y = (res, attempts)" by (cases y)
    show ?thesis
    proof (cases res)
      case (Inl err)
      note step = assms(1) [unfolded answer_chat_def Let_def run x y Inl, simplified]
      show ?thesis by (rule disjI2, rule logged_failure) (rule step, simp add: assms(2))
    next
      case (Inr r)
      note step = assms(1) [unfolded answer_chat_def Let_def run x y Inr, simplified]
      show ?thesis
        by (rule disjI2, rule logged_success) (rule step, simp_all add: assms(2))
    qed
  qed
qed

lemma chat_logged:
  assumes "Chat h lib invalid decoded c s = Some (Done resp, s')" and "hs_writer s = Some w"
  shows "(rs_status resp = 400 \<and> hs_writer s' = hs_writer s) \<or> logged_answer c w resp s'"
proof -
  have refused: "check_chat invalid decoded = Inl r \<Longrightarrow> rs_status r = 400" for r
    by (auto simp: check_chat_def error_response_def split: sum.splits option.splits)
  show ?thesis
  proof (cases "check_chat invalid decoded")
    case (Inl r)
    then show ?thesis using assms(1) refused by (auto simp: Chat_def)
  next
    case (Inr req0)
    obtain req s1 where p: "prepare (hc_config_dir h) lib req0 s = (req, s1)" by (metis surj_pair)
    then have s1: "hs_writer s1 = Some w"
      using assms(2) by (auto simp: prepare_def split: prod.splits)
    show ?thesis
    proof (cases "opt_stream (req_options req0)")
      case True
      then show ?thesis using assms(1) Inr by (auto simp: Chat_def error_response_def)
    next
      case False
      note step = assms(1) [unfolded Chat_def Inr, simplified, simplified False p, simplified]
      show ?thesis
      proof (cases "cache_lookup h lib req s1")
        case None
        then show ?thesis using step answer_chat_logged [OF _ s1] assms(2) s1 by auto
      next
        case (Some r)
        note hit = step [unfolded Some Let_def, simplified]
        show ?thesis
          by (rule disjI2, rule logged_success [where f = "\<lambda>s. s"]) (rule hit, simp_all add: s1)
      qed
    qed
  qed
qed

text \<open>
  C17. Every answer is logged.  A chat request that ends with an answer other than 400 has handed exactly
  one log to the writer (which drops it when its buffer is full), under its trace id and client: with status
  200 a success that names the provider, tokens and cost of the answer sent, with 502 an error; requests
  refused with 400 write none.
\<close>

theorem chat_answers_are_logged:
  assumes "Chat h lib invalid decoded c s = Some (Done resp, s')" and "hs_writer s = Some w"
  shows "(rs_status resp = 400 \<and> hs_writer s' = hs_writer s) \<or>
    (rs_status resp \<in> {200, 502} \<and>
     (\<exists>l w'. log_write l w = Some w' \<and> hs_writer s' = Some w' \<and> lg_trace_id l = GetTraceID c \<and> lg_client_id l = GetClientID c \<and>
       (rs_status resp = 502 \<longrightarrow> lg_status l = ''error'') \<and>
       (rs_status resp = 200 \<longrightarrow> lg_status l = ''success'' \<and>
         (\<exists>r. rs_body resp = chat_response_json r \<and> resp_id r = GetTraceID c \<and> lg_actual_provider l = resp_provider r \<and>
            lg_input_tokens l = us_input_tokens (resp_usage r) \<and> lg_output_tokens l = us_output_tokens (resp_usage r) \<and>
            lg_cost_usd l = us_estimated_cost (resp_usage r)))))"
  using chat_logged [OF assms] unfolding logged_answer_def by blast

subsection \<open>Answers from the cache\<close>

definition cached_response :: "gin \<Rightarrow> ChatResponse \<Rightarrow> http_response" where
  "cached_response c r = \<lparr>rs_status = 200, rs_body = chat_response_json (stamp (GetTraceID c) 0 r)\<rparr>"

text \<open>
  A log can be written when the writer is open (or there is none) and no preview length is negative, which
  the loaded configuration guarantees.
\<close>

definition previews_ok :: "LoggingPolicy option \<Rightarrow> bool" where
  "previews_ok lc \<longleftrightarrow> 0 \<le> fst (loggingPreviewLengths lc) \<and> 0 \<le> snd (loggingPreviewLengths lc)"

lemma previews_ok_None [simp]: "previews_ok None"
  by (simp add: previews_ok_def loggingPreviewLengths_def)

lemma previews_ok_loaded [simp]: "previews_ok (Some (LoadLoggingConfig readf unmarshal dir))"
  by (auto simp: previews_ok_def loggingPreviewLengths_def LoadLoggingConfig_def applyLoggingDefaults_def
      defaultLoggingConfig_def preview_length_def Let_def split: sum.split)

lemma truncate_text_Some: "0 \<le> n \<Longrightarrow> truncate_text t n \<noteq> None"
  by (simp add: truncate_text_def)

lemma chat_log_Some:
  assumes "previews_ok (hc_logging h)"
  shows "chat_log h lib t ci ip req (Some r) as ms None \<noteq> None"
proof -
  have "previewText (req_messages req) (fst (loggingPreviewLengths (hc_logging h))) \<noteq> None"
    using assms truncate_text_Some by (auto simp: previews_ok_def previewText_def split: option.split)
  moreover have "truncate_text (resp_content r) (snd (loggingPreviewLengths (hc_logging h))) \<noteq> None"
    using assms truncate_text_Some by (simp add: previews_ok_def)
  ultimately show ?thesis by (auto simp: chat_log_def base_log_def Let_def)
qed

lemma logged_done:
  assumes "l \<noteq> None" and "\<And>w. hs_writer s = Some w \<Longrightarrow> \<not> lw_closed w"
  shows "\<exists>s'. logged l (\<lambda>s. (resp, s)) s = (Done resp, s') \<and> hs_world s' = hs_world s \<and> hs_redis s' = hs_redis s"
proof -
  have "write_entry l (hs_writer s) \<noteq> None"
    using assms by (auto simp: write_entry_def log_write_def split: option.split)
  then show ?thesis by (auto simp: logged_def write_log_def)
qed

text \<open>
  C18. A stored answer stands in for the providers.  Once an answer is saved, a later request with the same
  key, before the expiry and while Redis answers, is answered with that answer, its own trace id and latency
  0; no provider, breaker or semaphore is touched and the cache stays as it is.  The log writer, when there
  is one, has to be open: a request served after the shutdown closed it panics (see theory \<open>Server\<close>).
\<close>

theorem cached_answer_is_replayed:
  assumes "redis_ok (li_redis lib) view" and "hc_cache h = Some ca" and "can_cache h req"
    and "cl_marshal (li_cache lib) r = Inr data" and "cl_unmarshal (li_cache lib) data = Inr r"
    and "cache_set (li_cache lib) (li_redis lib) ca (w_now (hs_world s)) req r (hs_redis s) = (None, rd)"
    and "s' = save_answer h lib req r s"
    and "check_chat invalid decoded = Inr req0" and "\<not> opt_stream (req_options req0)"
    and "prepare (hc_config_dir h) lib req0 s2 = (req2, s3)" and "can_cache h req2"
    and "buildKey (li_cache lib) req2 = buildKey (li_cache lib) req"
    and "w_now (hs_world s2) < w_now (hs_world s) + ca_ttl ca"
    and "view (hs_redis s2) (w_now (hs_world s2)) (buildKey (li_cache lib) req)
       = view (hs_redis s') (w_now (hs_world s2)) (buildKey (li_cache lib) req)"
    and "\<And>e. rd_get (li_redis lib) (w_now (hs_world s2)) (hs_redis s2) (buildKey (li_cache lib) req) \<noteq> RedisErr e"
    and "previews_ok (hc_logging h)" and "\<And>w. hs_writer s2 = Some w \<Longrightarrow> \<not> lw_closed w"
  shows "\<exists>s4. Chat h lib invalid decoded c s2 = Some (Done (cached_response c r), s4) \<and>
    hs_world s4 = hs_world s2 \<and> hs_redis s4 = hs_redis s2"
proof -
  have keep: "hs_world s3 = hs_world s2" "hs_redis s3 = hs_redis s2" "hs_writer s3 = hs_writer s2"
    using assms(10) by (auto simp: prepare_def split: prod.splits)
  have "hs_redis s' = rd" using assms(2,3,6,7) by (simp add: save_answer_def)
  then have "cache_get (li_cache lib) (li_redis lib) (w_now (hs_world s2)) req2 (hs_redis s2) = Inr (Some r)"
    by (intro cache_get_after_set [OF assms(1,4,5,6) _ assms(13,15,12)]) (simp add: assms(14))
  then have hit: "cache_lookup h lib req2 s3 = Some r"
    using assms(11) keep by (simp add: cache_lookup_def)
  let ?l = "chat_log h lib (GetTraceID c) (GetClientID c) (gn_client_ip c) req2 (Some (stamp (GetTraceID c) 0 r)) [] 0 None"
  obtain s4 where "logged ?l (\<lambda>s. (cached_response c r, s)) s3 = (Done (cached_response c r), s4)"
    "hs_world s4 = hs_world s3" "hs_redis s4 = hs_redis s3"
    using logged_done [OF chat_log_Some [OF assms(16)], of s3] assms(17) keep(3) by metis
  then show ?thesis
    using assms(8,9,10) hit keep by (simp add: Chat_def cached_response_def Let_def)
qed

definition chat_gin :: gin where
  "chat_gin = \<lparr>gn_client_ip = ''9.9.9.9'', gn_header = (\<lambda>_. []), gn_get_query = (\<lambda>_. None), gn_param = (\<lambda>_. []),
     gn_client_id = Some ''app'', gn_service_name = Some ''mobile'', gn_trusted = None, gn_trace_id = Some ''t1'',
     gn_out_headers = []\<rparr>"

definition sample_chat :: "string chat_handler" where
  "sample_chat = \<lparr>hc_registry = r_registry sample_router, hc_router = False, hc_pricing = None, hc_logging = None,
     hc_cache = Some (NewCache 0), hc_config_dir = []\<rparr>"

definition sample_chat_lib :: "(string, mem_redis) chat_lib" where
  "sample_chat_lib = \<lparr>li_env = sample_env, li_sched = [], li_ctx = Background, li_prompt = sample_prompt_env,
     li_read = (\<lambda>_. Inl ''absent''), li_project_yaml = (\<lambda>_. Inl ''bad''), li_float = id, li_order1 = [], li_order2 = [],
     li_cache = sample_digest, li_redis = mem_redis, li_options_json = (\<lambda>_. Inr ''{}'')\<rparr>"

definition sample_chat_state :: "(string, mem_redis) chat_state" where
  "sample_chat_state = \<lparr>hs_world = sample_world, hs_prompts = None, hs_redis = [],
     hs_writer = Some (NewRequestLogWriter 2 empty_logs)\<rparr>"

lemma short_request_checked: "check_chat ''bad'' (Inr (short_request ''gpt'' ''m'')) = Inr (short_request ''gpt'' ''m'')"
  by (simp add: check_chat_def bind_chat_def ValidateOptions_def short_request_def Let_def)

lemma short_request_prepared:
  "prepare (hc_config_dir sample_chat) sample_chat_lib (short_request ''gpt'' ''m'') sample_chat_state = (short_request ''gpt'' ''m'', sample_chat_state)"
  by (simp add: prepare_def with_prompt_def with_project_fallback_def short_request_def sample_chat_state_def)

lemma short_request_cachable: "can_cache sample_chat (short_request ''gpt'' ''m'')"
  by (simp add: can_cache_def sample_chat_def short_request_def)

theorem cached_answer_is_replayed_witness:
  defines "s \<equiv> sample_chat_state" and "req \<equiv> short_request ''gpt'' ''m''" and "r \<equiv> sample_response ''gpt''"
  shows "\<exists>s4. Chat sample_chat sample_chat_lib ''bad'' (Inr req) chat_gin (save_answer sample_chat sample_chat_lib req r s)
      = Some (Done (cached_response chat_gin r), s4) \<and>
    hs_world s4 = hs_world (save_answer sample_chat sample_chat_lib req r s) \<and>
    hs_redis s4 = hs_redis (save_answer sample_chat sample_chat_lib req r s)"
proof -
  let ?s = "save_answer sample_chat sample_chat_lib req r s"
  have lib: "li_redis sample_chat_lib = mem_redis" "li_cache sample_chat_lib = sample_digest" "hc_cache sample_chat = Some (NewCache 0)"
    "hs_world ?s = hs_world s" "hs_prompts ?s = hs_prompts s"
    by (simp_all add: sample_chat_lib_def sample_chat_def save_answer_def)
  have json: "cl_marshal sample_digest r = Inr ''hi''" "cl_unmarshal sample_digest ''hi'' = Inr r"
    by (simp_all add: sample_digest_def r_def sample_response_def)
  have prep: "prepare (hc_config_dir sample_chat) sample_chat_lib req ?s = (req, ?s)"
    by (simp add: prepare_def with_prompt_def with_project_fallback_def req_def short_request_def s_def sample_chat_state_def
        save_answer_def split: option.split)
  have open_writer: "\<And>w. hs_writer ?s = Some w \<Longrightarrow> \<not> lw_closed w" "previews_ok (hc_logging sample_chat)"
    by (auto simp: s_def sample_chat_state_def save_answer_def NewRequestLogWriter_def sample_chat_def
        split: option.splits if_splits)
  show ?thesis
    by (rule cached_answer_is_replayed [where view = mem_view and ca = "NewCache 0" and data = "''hi''" and req = req and s = s
          and rd = "hs_redis ?s" and ?req0.0 = req and ?req2.0 = req and ?s3.0 = ?s])
      (use short_request_checked short_request_cachable open_writer in \<open>simp_all add: lib json prep mem_redis_ok req_def [symmetric],
        simp_all add: req_def save_answer_def lib cache_set_def json mem_redis_def NewCache_def defaultTTL_def second_def
          short_request_def split: option.split\<close>)
qed

lemma sample_chat_runs:
  "cache_lookup sample_chat sample_chat_lib (short_request ''gpt'' ''m'') (sample_chat_state\<lparr>hs_writer := w\<rparr>) = None"
  "run_chat sample_chat sample_chat_lib (short_request ''gpt'' ''m'') sample_world
     = Some (Inr (Inr (sample_response ''gpt''), []), sample_world\<lparr>w_now := second\<rparr>)"
  by (simp_all add: cache_lookup_def cache_get_def sample_chat_state_def mem_redis_def mem_view_def
      run_chat_def sample_chat_def sample_chat_lib_def sample_router_def NewRouter_def Registry_Get_def
      Register_def sample_env_def short_request_def sample_world_def)

lemma sample_chat_returns:
  "\<exists>out s'. Chat sample_chat sample_chat_lib ''bad'' (Inr (short_request ''gpt'' ''m'')) chat_gin (sample_chat_state\<lparr>hs_writer := w\<rparr>)
    = Some (out, s')"
proof -
  have "prepare (hc_config_dir sample_chat) sample_chat_lib (short_request ''gpt'' ''m'') (sample_chat_state\<lparr>hs_writer := w\<rparr>)
      = (short_request ''gpt'' ''m'', sample_chat_state\<lparr>hs_writer := w\<rparr>)"
    by (simp add: prepare_def with_prompt_def with_project_fallback_def short_request_def sample_chat_state_def)
  then show ?thesis
    using short_request_checked sample_chat_runs
    by (simp add: Chat_def answer_chat_def Let_def sample_chat_state_def split: option.split)
qed

lemma sample_first_answer:
  "\<exists>resp s'. Chat sample_chat sample_chat_lib ''bad'' (Inr (short_request ''gpt'' ''m'')) chat_gin sample_chat_state
    = Some (Done resp, s') \<and> rs_status resp = 200"
proof -
  have miss: "cache_lookup sample_chat sample_chat_lib (short_request ''gpt'' ''m'') sample_chat_state = None"
    using sample_chat_runs(1) [of "hs_writer sample_chat_state"] by simp
  have "truncate_text ''hello'' 200 = Some ''hello''" "truncate_text ''hi'' 200 = Some ''hi''"
    by (simp_all add: truncate_text_def runes.simps utf8_first_def)
  then show ?thesis
    using short_request_checked short_request_prepared miss sample_chat_runs(2)
    by (simp add: Chat_def answer_chat_def Let_def logged_def write_log_def write_entry_def chat_log_def base_log_def
        previewText_def short_request_def sample_chat_def sample_chat_state_def loggingPreviewLengths_def stamp_def
        sample_response_def log_write_def NewRequestLogWriter_def split: option.split)
qed

theorem chat_answers_are_logged_witness:
  "\<exists>resp s' w. Chat sample_chat sample_chat_lib ''bad'' (Inr (short_request ''gpt'' ''m'')) chat_gin sample_chat_state
      = Some (Done resp, s') \<and> rs_status resp = 200 \<and> hs_writer s' = Some w"
proof -
  obtain resp s' where a: "Chat sample_chat sample_chat_lib ''bad'' (Inr (short_request ''gpt'' ''m'')) chat_gin sample_chat_state
      = Some (Done resp, s')" "rs_status resp = 200"
    using sample_first_answer by blast
  have "hs_writer sample_chat_state = Some (NewRequestLogWriter 2 empty_logs)" by (simp add: sample_chat_state_def)
  then show ?thesis using chat_answers_are_logged [OF a(1)] a by auto
qed

end
