(* ===== verification/Streaming.thy ===== *)
theory Streaming
  imports Chat
begin

text \<open>
  \<^verbatim>\<open>internal/handler/stream.go\<close>: a streamed chat from its body to the last server-sent event.  A provider's
  channel is the list of chunks it will deliver and whether it is closed after them; while the handler waits
  for a chunk other goroutines may change the world.  \<^verbatim>\<open>SetWriteDeadline\<close> has no effect here: a connection
  that times out is one whose client is gone.
\<close>

subsection \<open>Server-sent events\<close>

text \<open>\<open>data: \<dots>\<close>, \<open>event: error\<close> and \<open>data: [DONE]\<close>.\<close>

datatype sse_event = SseData json | SseError json | SseDone

record stream_source =
  so_chunks :: "StreamChunk list"
  so_closed :: bool

record pump_state =
  pu_events :: "sse_event list"
  pu_error :: string
  pu_usage :: "UsageInfo option"
  pu_content :: string

definition text_event :: "string \<Rightarrow> json" where
  "text_event s = JObj [(''content'', JStr s), (''done'', JBool False)]"

definition final_event :: "UsageInfo option \<Rightarrow> json" where
  "final_event u = JObj ([(''content'', JStr []), (''done'', JBool True)] @
     (case u of None \<Rightarrow> [] | Some x \<Rightarrow> [(''usage'', usage_info_json x)]))"

definition send_events :: "sse_event list \<Rightarrow> pump_state \<Rightarrow> pump_state" where
  "send_events es p = p\<lparr>pu_events := pu_events p @ es\<rparr>"

text \<open>The function given to \<^verbatim>\<open>gin.Context.Stream\<close>: its argument is what the channel gives, \<^const>\<open>None\<close> when closed.\<close>

definition stream_step :: "StreamChunk option \<Rightarrow> pump_state \<Rightarrow> pump_state \<times> bool" where
  "stream_step received p =
     (case received of
        None \<Rightarrow> (send_events [SseDone] p, False)
      | Some chunk \<Rightarrow>
          (case ch_error chunk of
             Some e \<Rightarrow> (send_events [SseError (JObj [(''error'', JStr e)])] (p\<lparr>pu_error := e\<rparr>), False)
           | None \<Rightarrow>
               if ch_done chunk
               then (send_events [SseData (final_event (ch_usage chunk)), SseDone]
                       (case ch_usage chunk of None \<Rightarrow> p | Some u \<Rightarrow> p\<lparr>pu_usage := Some u\<rparr>), False)
               else (send_events [SseData (text_event (ch_content chunk))]
                       (p\<lparr>pu_content := pu_content p @ ch_content chunk\<rparr>), True)))"

text \<open>
  \<^verbatim>\<open>gin.Context.Stream\<close>: before each step it looks whether the client is gone.  \<open>gone k\<close> and \<open>recv k\<close> are what
  happens at step \<open>k\<close>; a channel that is neither fed nor closed makes the handler wait for ever.
\<close>

fun pump ::
  "(nat \<Rightarrow> bool) \<Rightarrow> (nat \<Rightarrow> 'p world \<Rightarrow> 'p world) \<Rightarrow> nat \<Rightarrow> StreamChunk list \<Rightarrow> bool \<Rightarrow> pump_state \<Rightarrow> 'p world
   \<Rightarrow> (pump_state \<times> 'p world) option" where
  "pump gone recv k [] shut p w =
     (if gone k then Some (p, w) else if shut then Some (fst (stream_step None p), recv k w) else None)"
| "pump gone recv k (chunk # chunks) shut p w =
     (if gone k then Some (p, w)
      else (case stream_step (Some chunk) p of
              (p', again) \<Rightarrow> if again then pump gone recv (Suc k) chunks shut p' (recv k w) else Some (p', recv k w)))"

definition pump_start :: pump_state where
  "pump_start = \<lparr>pu_events = [], pu_error = [], pu_usage = None, pu_content = []\<rparr>"

subsection \<open>Finding a provider that starts to stream\<close>

record 'p stream_handler =
  sh_registry :: "'p Registry"
  sh_router :: bool
  sh_pricing :: "PricingManager option"
  sh_logging :: "LoggingPolicy option"
  sh_config_dir :: string

record 'p stream_env =
  sv_connect :: "'p \<Rightarrow> context_err \<Rightarrow> ChatRequest \<Rightarrow> 'p world \<Rightarrow> ((error_text + stream_source) \<times> 'p world) option"
  sv_gone :: "nat \<Rightarrow> bool"
  sv_recv :: "nat \<Rightarrow> 'p world \<Rightarrow> 'p world"

type_synonym stream_try = "(error_text + stream_source) \<times> FallbackAttempt"

definition connect_stream ::
  "'p stream_env \<Rightarrow> context_err \<Rightarrow> ChatRequest \<Rightarrow> FallbackTarget \<Rightarrow> 'p \<Rightarrow> FallbackAttempt \<Rightarrow> 'p world
   \<Rightarrow> (stream_try \<times> 'p world) option" where
  "connect_stream sv ctx req t p attempt w =
     (case sv_connect sv p ctx (provider_request req t) w of
        None \<Rightarrow> None
      | Some (r, w1) \<Rightarrow>
          (let attempt = attempt\<lparr>fa_latency_ms := Milliseconds (w_now w1 - w_now w)\<rparr>
           in case r of
                Inl err \<Rightarrow>
                  (case ReleaseSemaphore (ft_provider t) w1 of
                     None \<Rightarrow> None
                   | Some w2 \<Rightarrow>
                       Some ((Inl err, attempt\<lparr>fa_status := ''error'', fa_error := err\<rparr>),
                             RouterRecordFailure (ft_provider t) w2))
              | Inr src \<Rightarrow> Some ((Inr src, attempt\<lparr>fa_status := ''success''\<rparr>), w1)))"

text \<open>One turn of the loop over the targets.  A success keeps the slot.\<close>

definition try_stream ::
  "'p Registry \<Rightarrow> 'p env \<Rightarrow> 'p stream_env \<Rightarrow> context_err \<Rightarrow> ChatRequest \<Rightarrow> FallbackTarget \<Rightarrow> int \<Rightarrow> 'p world
   \<Rightarrow> (stream_try \<times> 'p world) option" where
  "try_stream registry env sv ctx req t order w =
     (let name = ft_provider t; attempt = new_attempt order t in
      case CheckCircuitBreaker name w of
        (Some err, w1) \<Rightarrow> Some ((Inl err, attempt\<lparr>fa_status := ''circuit_open'', fa_error := err\<rparr>), w1)
      | (None, w1) \<Rightarrow>
          (case acquire_waiting env ctx name w1 of
             None \<Rightarrow> None
           | Some (Some err, w2) \<Rightarrow> Some ((Inl err, attempt\<lparr>fa_status := ''timeout'', fa_error := semaphore_timeout\<rparr>), w2)
           | Some (None, w2) \<Rightarrow>
               (case Registry_Get registry name of
                  Inl err \<Rightarrow>
                    (case ReleaseSemaphore name w2 of
                       None \<Rightarrow> None
                     | Some w3 \<Rightarrow> Some ((Inl err, attempt\<lparr>fa_status := ''provider_not_found'', fa_error := err\<rparr>), w3))
                | Inr p \<Rightarrow> connect_stream sv ctx req t p attempt w2)))"

record stream_start =
  ss_found :: "(stream_source \<times> FallbackTarget) option"
  ss_attempts :: "FallbackAttempt list"
  ss_last_err :: "error_text option"
  ss_fallback_reason :: "string option"

fun find_stream ::
  "'p Registry \<Rightarrow> 'p env \<Rightarrow> 'p stream_env \<Rightarrow> context_err \<Rightarrow> ChatRequest \<Rightarrow> int \<Rightarrow> FallbackAttempt list \<Rightarrow> error_text option
   \<Rightarrow> FallbackTarget list \<Rightarrow> 'p world \<Rightarrow> (stream_start \<times> 'p world) option" where
  "find_stream registry env sv ctx req i attempts lastErr [] w =
     Some (\<lparr>ss_found = None, ss_attempts = attempts, ss_last_err = lastErr,
            ss_fallback_reason = (if length attempts > 1 then Some ''fallback:stream:all_failed'' else None)\<rparr>, w)"
| "find_stream registry env sv ctx req i attempts lastErr (t # ts) w =
     (case try_stream registry env sv ctx req t (i + 1) w of
        None \<Rightarrow> None
      | Some ((Inl err, attempt), w') \<Rightarrow>
          find_stream registry env sv ctx req (i + 1) (attempts @ [attempt]) (Some err) ts w'
      | Some ((Inr src, attempt), w') \<Rightarrow>
          Some (\<lparr>ss_found = Some (src, t), ss_attempts = attempts @ [attempt], ss_last_err = lastErr,
                 ss_fallback_reason = (case lastErr of
                     Some e \<Rightarrow> if i > 0 then Some (''fallback:stream - '' @ e) else None
                   | None \<Rightarrow> None)\<rparr>, w'))"

subsection \<open>The handler\<close>

definition stream_log ::
  "'p stream_handler \<Rightarrow> ('p, 'r) chat_lib \<Rightarrow> gin \<Rightarrow> ChatRequest \<Rightarrow> string \<Rightarrow> string \<Rightarrow> UsageInfo option \<Rightarrow> string
   \<Rightarrow> FallbackAttempt list \<Rightarrow> string option \<Rightarrow> int \<Rightarrow> error_text option \<Rightarrow> RequestLog option" where
  "stream_log h lib c req actualProvider actualModel usage outputContent attempts reason totalLatencyMs reqErr =
     (case base_log (sh_logging h) (cl_sha256 (li_cache lib)) (li_options_json lib) (GetTraceID c) (GetClientID c)
             (gn_client_ip c) req attempts totalLatencyMs of
        None \<Rightarrow> None
      | Some l0 \<Rightarrow>
          (let l = l0\<lparr>lg_actual_provider := actualProvider, lg_actual_model := actualModel,
                      lg_fallback_used := (reason \<noteq> None),
                      lg_routing_reason := (case reason of Some x \<Rightarrow> x | None \<Rightarrow> []),
                      lg_api_key_id := (if actualProvider \<noteq> [] then api_key_id (sh_registry h) actualProvider else 0)\<rparr>
           in case reqErr of
                Some e \<Rightarrow> Some (l\<lparr>lg_status := ''error'', lg_error_message := e\<rparr>)
              | None \<Rightarrow>
                  map_option (\<lambda>preview.
                    (case usage of
                       None \<Rightarrow> l
                     | Some u \<Rightarrow> l\<lparr>lg_input_tokens := us_input_tokens u, lg_output_tokens := us_output_tokens u,
                                   lg_cost_usd := us_estimated_cost u\<rparr>)
                      \<lparr>lg_status := ''success'', lg_output_preview := preview, lg_provider_latency_ms := totalLatencyMs\<rparr>)
                    (truncate_text outputContent (snd (loggingPreviewLengths (sh_logging h))))))"

datatype stream_response = Plain http_response | Sse "(string \<times> string) list" "sse_event list"

definition sse_headers :: "string \<Rightarrow> (string \<times> string) list" where
  "sse_headers traceID = [(''Content-Type'', ''text/event-stream''), (''Cache-Control'', ''no-cache''),
     (''Connection'', ''keep-alive''), (''X-Trace-ID'', traceID)]"

definition stream_error_text :: "string \<Rightarrow> error_text option" where
  "stream_error_text msg = (if msg \<noteq> [] then Some ((bytes [236, 138, 164, 237, 138, 184, 235, 166, 188, 32, 236, 151, 144, 235, 159, 172, 58, 32]) @ msg) else None)"

text \<open>After the channel is open: events, outcome, price and log.  The deferred release of the slot follows.\<close>

definition finish_stream ::
  "'p stream_handler \<Rightarrow> ('p, 'r) chat_lib \<Rightarrow> 'p stream_env \<Rightarrow> gin \<Rightarrow> ChatRequest \<Rightarrow> go_time \<Rightarrow> stream_source
   \<Rightarrow> FallbackTarget \<Rightarrow> FallbackAttempt list \<Rightarrow> string option \<Rightarrow> ('p, 'r) chat_state
   \<Rightarrow> (stream_response outcome \<times> ('p, 'r) chat_state) option" where
  "finish_stream h lib sv c req start src actual attempts reason s =
     (case pump (sv_gone sv) (sv_recv sv) 0 (so_chunks src) (so_closed src) pump_start (hs_world s) of
        None \<Rightarrow> None
      | Some (p, w1) \<Rightarrow>
          (let totalLatency = Milliseconds (w_now w1 - start);
               w2 = (if sh_router h \<and> ft_provider actual \<noteq> []
                     then (if pu_error p \<noteq> [] then RouterRecordFailure (ft_provider actual) w1
                           else RouterRecordSuccess (ft_provider actual) w1)
                     else w1);
               usage = map_option (price_usage (sh_pricing h) lib (ft_model actual)) (pu_usage p);
               s2 = s\<lparr>hs_world := w2\<rparr>
           in Some (case write_log (stream_log h lib c req (ft_provider actual) (ft_model actual) usage (pu_content p)
                             attempts reason totalLatency (stream_error_text (pu_error p))) s2 of
                None \<Rightarrow> (Panicked True, s2)
              | Some s3 \<Rightarrow> (Done (Sse (sse_headers (GetTraceID c)) (pu_events p)), s3))))"

definition release_at_end ::
  "string \<Rightarrow> (stream_response outcome \<times> ('p, 'r) chat_state) option
   \<Rightarrow> (stream_response outcome \<times> ('p, 'r) chat_state) option" where
  "release_at_end name r =
     (case r of
        None \<Rightarrow> None
      | Some (out, s) \<Rightarrow>
          (case ReleaseSemaphore name (hs_world s) of None \<Rightarrow> None | Some w \<Rightarrow> Some (out, s\<lparr>hs_world := w\<rparr>)))"

definition stream_routed ::
  "'p stream_handler \<Rightarrow> ('p, 'r) chat_lib \<Rightarrow> 'p stream_env \<Rightarrow> gin \<Rightarrow> ChatRequest \<Rightarrow> go_time \<Rightarrow> ('p, 'r) chat_state
   \<Rightarrow> (stream_response outcome \<times> ('p, 'r) chat_state) option" where
  "stream_routed h lib sv c req start s =
     (let targets = buildTargets req in
      if targets = [] then Some (Done (Plain (error_response 400 (bytes [236, 130, 172, 236, 154, 169, 32, 234, 176, 128, 235, 138, 165, 237, 149, 156, 32, 237, 148, 132, 235, 161, 156, 235, 176, 148, 236, 157, 180, 235, 141, 148, 234, 176, 128, 32, 236, 151, 134, 236, 138, 181, 235, 139, 136, 235, 139, 164]))), s)
      else
        (case find_stream (sh_registry h) (li_env lib) sv (li_ctx lib) req 0 [] None targets (hs_world s) of
           None \<Rightarrow> None
         | Some (st, w) \<Rightarrow>
             (case ss_found st of
                Some (src, actual) \<Rightarrow>
                  release_at_end (ft_provider actual)
                    (finish_stream h lib sv c req start src actual (ss_attempts st) (ss_fallback_reason st) (s\<lparr>hs_world := w\<rparr>))
              | None \<Rightarrow>
                  (let s1 = s\<lparr>hs_world := w\<rparr> in
                   Some (case write_log (stream_log h lib c req [] [] None [] (ss_attempts st) (ss_fallback_reason st)
                                (Milliseconds (w_now w - start)) (ss_last_err st)) s1 of
                     None \<Rightarrow> (Panicked False, s1)
                   | Some s2 \<Rightarrow>
                       (Done (Plain (bad_gateway (bytes [235, 170, 168, 235, 147, 160, 32, 237, 148, 132, 235, 161, 156, 235, 176, 148, 236, 157, 180, 235, 141, 148, 32, 236, 138, 164, 237, 138, 184, 235, 166, 172, 235, 176, 141, 32, 236, 139, 164, 237, 140, 168]) (GetTraceID c))), s2))))))"

definition stream_direct ::
  "'p stream_handler \<Rightarrow> ('p, 'r) chat_lib \<Rightarrow> 'p stream_env \<Rightarrow> gin \<Rightarrow> ChatRequest \<Rightarrow> go_time \<Rightarrow> ('p, 'r) chat_state
   \<Rightarrow> (stream_response outcome \<times> ('p, 'r) chat_state) option" where
  "stream_direct h lib sv c req start s =
     (case Registry_Get (sh_registry h) (req_provider req) of
        Inl err \<Rightarrow> Some (Done (Plain (error_response 400 err)), s)
      | Inr p \<Rightarrow>
          (case sv_connect sv p (li_ctx lib) req (hs_world s) of
             None \<Rightarrow> None
           | Some (Inl err, w) \<Rightarrow>
               Some (Done (Plain (bad_gateway (bytes [236, 138, 164, 237, 138, 184, 235, 166, 172, 235, 176, 141, 32, 236, 139, 156, 236, 158, 145, 32, 236, 139, 164, 237, 140, 168]) (GetTraceID c))), s\<lparr>hs_world := w\<rparr>)
           | Some (Inr src, w) \<Rightarrow>
               finish_stream h lib sv c req start src \<lparr>ft_provider = req_provider req, ft_model = req_model req\<rparr> [] None
                 (s\<lparr>hs_world := w\<rparr>)))"

definition Stream ::
  "'p stream_handler \<Rightarrow> ('p, 'r) chat_lib \<Rightarrow> 'p stream_env \<Rightarrow> error_text \<Rightarrow> error_text + ChatRequest \<Rightarrow> gin
   \<Rightarrow> ('p, 'r) chat_state \<Rightarrow> (stream_response outcome \<times> ('p, 'r) chat_state) option" where
  "Stream h lib sv invalid decoded c s =
     (case check_chat invalid decoded of
        Inl resp \<Rightarrow> Some (Done (Plain resp), s)
      | Inr req0 \<Rightarrow>
          (case prepare (sh_config_dir h) lib req0 s of
             (req, s1) \<Rightarrow>
               if sh_router h then stream_routed h lib sv c req (w_now (hs_world s)) s1
               else stream_direct h lib sv c req (w_now (hs_world s)) s1))"

subsection \<open>The events tell what the provider sent\<close>

text \<open>The chunks up to and including the first that ends the stream.\<close>

definition ends_stream :: "StreamChunk \<Rightarrow> bool" where
  "ends_stream ch \<longleftrightarrow> ch_error ch \<noteq> None \<or> ch_done ch"

definition texts_before :: "StreamChunk list \<Rightarrow> StreamChunk list" where
  "texts_before chunks = takeWhile (\<lambda>ch. \<not> ends_stream ch) chunks"

definition text_events :: "StreamChunk list \<Rightarrow> sse_event list" where
  "text_events chunks = map (\<lambda>ch. SseData (text_event (ch_content ch))) chunks"

definition closing_events :: "StreamChunk option \<Rightarrow> sse_event list" where
  "closing_events received =
     (case received of
        None \<Rightarrow> [SseDone]
      | Some ch \<Rightarrow>
          (case ch_error ch of
             Some e \<Rightarrow> [SseError (JObj [(''error'', JStr e)])]
           | None \<Rightarrow> [SseData (final_event (ch_usage ch)), SseDone]))"

definition first_end :: "StreamChunk list \<Rightarrow> StreamChunk option" where
  "first_end chunks = find ends_stream chunks"

lemma send_events_simps [simp]:
  "pu_events (send_events es p) = pu_events p @ es" "pu_error (send_events es p) = pu_error p"
  "pu_content (send_events es p) = pu_content p" "pu_usage (send_events es p) = pu_usage p"
  by (simp_all add: send_events_def)

lemma stream_step_text:
  "\<not> ends_stream ch \<Longrightarrow> stream_step (Some ch) p =
     (send_events (text_events [ch]) (p\<lparr>pu_content := pu_content p @ ch_content ch\<rparr>), True)"
  by (auto simp: stream_step_def ends_stream_def text_events_def split: option.split)

lemma stream_step_end:
  "ends_stream ch \<Longrightarrow> \<exists>p'. stream_step (Some ch) p = (p', False) \<and> pu_events p' = pu_events p @ closing_events (Some ch) \<and>
     pu_content p' = pu_content p \<and>
     pu_error p' = (case ch_error ch of Some e \<Rightarrow> e | None \<Rightarrow> pu_error p) \<and>
     pu_usage p' = (case ch_error ch of Some e \<Rightarrow> pu_usage p
        | None \<Rightarrow> (case ch_usage ch of Some u \<Rightarrow> Some u | None \<Rightarrow> pu_usage p))"
  by (auto simp: stream_step_def ends_stream_def closing_events_def send_events_def split: option.split)

lemma texts_before_simps [simp]:
  "texts_before [] = []"
  "texts_before (ch # chs) = (if ends_stream ch then [] else ch # texts_before chs)"
  "first_end [] = None"
  "first_end (ch # chs) = (if ends_stream ch then Some ch else first_end chs)"
  by (simp_all add: texts_before_def first_end_def)

text \<open>A run that the client does not leave, and one that it leaves before step \<open>n\<close>.\<close>

lemma pump_to_end:
  assumes "\<And>j. j \<le> k + length (texts_before chunks) \<Longrightarrow> \<not> gone j" and "first_end chunks \<noteq> None \<or> shut"
  shows "\<exists>p' w'. pump gone recv k chunks shut p w = Some (p', w') \<and>
    pu_events p' = pu_events p @ text_events (texts_before chunks) @ closing_events (first_end chunks) \<and>
    pu_content p' = pu_content p @ concat (map ch_content (texts_before chunks)) \<and>
    pu_error p' = (case first_end chunks of None \<Rightarrow> pu_error p
       | Some ch \<Rightarrow> (case ch_error ch of Some e \<Rightarrow> e | None \<Rightarrow> pu_error p))"
  using assms
proof (induction chunks arbitrary: k p w)
  case Nil
  then show ?case by (simp add: stream_step_def send_events_def text_events_def closing_events_def)
next
  case (Cons ch chs)
  let ?p = "send_events (text_events [ch]) (p\<lparr>pu_content := pu_content p @ ch_content ch\<rparr>)"
  have here: "\<not> gone k" using Cons.prems(1) by simp
  show ?case
  proof (cases "ends_stream ch")
    case True
    then show ?thesis using stream_step_end [OF True, of p] here by (auto simp: text_events_def)
  next
    case False
    then have "\<not> gone j" if "j \<le> Suc k + length (texts_before chs)" for j
      using that by (intro Cons.prems(1)) simp
    moreover have "first_end chs \<noteq> None \<or> shut" using Cons.prems(2) False by simp
    ultimately obtain p' w' where "pump gone recv (Suc k) chs shut ?p (recv k w) = Some (p', w')"
      and "pu_events p' = pu_events ?p @ text_events (texts_before chs) @ closing_events (first_end chs)"
      and "pu_content p' = pu_content ?p @ concat (map ch_content (texts_before chs))"
      and "pu_error p' = (case first_end chs of None \<Rightarrow> pu_error ?p | Some ch \<Rightarrow> (case ch_error ch of Some e \<Rightarrow> e | None \<Rightarrow> pu_error ?p))"
      using Cons.IH [where k = "Suc k" and p = ?p and w = "recv k w"] by blast
    then show ?thesis using here False stream_step_text [OF False, of p] by (simp add: text_events_def cong: option.case_cong)
  qed
qed

lemma pump_cut_off:
  assumes "n \<le> length (texts_before chunks)" and "gone (k + n)" and "\<And>j. j < k + n \<Longrightarrow> \<not> gone j"
  shows "\<exists>p' w'. pump gone recv k chunks shut p w = Some (p', w') \<and>
    pu_events p' = pu_events p @ text_events (take n chunks) \<and> pu_error p' = pu_error p"
  using assms
proof (induction chunks arbitrary: k n p w)
  case Nil
  then show ?case by (simp add: text_events_def)
next
  case (Cons ch chs)
  show ?case
  proof (cases n)
    case 0
    then show ?thesis using Cons.prems(2) by (simp add: text_events_def)
  next
    case (Suc m)
    then have f: "\<not> ends_stream ch" "\<not> gone k" using Cons.prems by (auto split: if_splits)
    have "gone (Suc k + m)" "\<And>j. j < Suc k + m \<Longrightarrow> \<not> gone j" "m \<le> length (texts_before chs)"
      using Cons.prems Suc f by auto
    from Cons.IH [OF this(3,1,2), where p = "send_events (text_events [ch]) (p\<lparr>pu_content := pu_content p @ ch_content ch\<rparr>)" and w = "recv k w"]
    show ?thesis using f Suc stream_step_text [OF f(1), of p] by (simp add: send_events_def text_events_def)
  qed
qed

text \<open>
  C11. A stream is well formed and complete.  When the client stays and the provider ends its stream or
  closes its channel, the events are the texts in order, each once, followed by exactly one ending: the
  usage and \<^verbatim>\<open>[DONE]\<close>, an error event, or \<^verbatim>\<open>[DONE]\<close> for a closed channel; nothing that comes after the ending
  is sent, and the text that is logged is the concatenation of the texts.  When the client leaves, what it
  got is a prefix of that.
\<close>

theorem stream_events_are_complete:
  assumes "first_end chunks \<noteq> None \<or> shut"
  shows "\<exists>p w'. pump gone recv 0 chunks shut pump_start w = Some (p, w') \<and>
    (if \<exists>j \<le> length (texts_before chunks). gone j
     then pu_events p = text_events (take (LEAST j. gone j) (texts_before chunks)) \<and> pu_error p = []
     else pu_events p = text_events (texts_before chunks) @ closing_events (first_end chunks) \<and>
       pu_content p = concat (map ch_content (texts_before chunks)))"
proof (cases "\<exists>j \<le> length (texts_before chunks). gone j")
  case True
  then obtain j where j: "j \<le> length (texts_before chunks)" "gone j" by blast
  let ?n = "LEAST j. gone j"
  have "gone ?n" by (rule LeastI [of gone, OF j(2)])
  moreover have "?n \<le> length (texts_before chunks)" using Least_le [of gone, OF j(2)] j(1) by (rule le_trans)
  moreover have "\<not> gone j" if "j < ?n" for j using that by (rule not_less_Least)
  ultimately have n: "gone (0 + ?n)" "?n \<le> length (texts_before chunks)" "\<And>j. j < 0 + ?n \<Longrightarrow> \<not> gone j"
    unfolding add_0 by blast+
  have "take ?n chunks = take ?n (texts_before chunks)"
    using n(2) unfolding texts_before_def by (metis min.absorb1 take_take takeWhile_eq_take)
  moreover obtain p w' where "pump gone recv 0 chunks shut pump_start w = Some (p, w')"
    "pu_events p = pu_events pump_start @ text_events (take ?n chunks)" "pu_error p = pu_error pump_start"
    using pump_cut_off [OF n(2), where gone = gone and k = 0, OF n(1,3)] by blast
  ultimately show ?thesis using True by (simp add: pump_start_def)
next
  case False
  then show ?thesis
    using pump_to_end [of 0 chunks gone shut recv pump_start w] assms by (fastforce simp: pump_start_def)
qed

theorem stream_events_are_complete_witness:
  "\<exists>p w'. pump (\<lambda>_. False) (\<lambda>_ w. w) 0 [text_chunk ''a'', done_chunk None, text_chunk ''b''] False pump_start sample_world = Some (p, w') \<and>
     pu_events p = [SseData (text_event ''a''), SseData (final_event None), SseDone]"
  using stream_events_are_complete [of "[text_chunk ''a'', done_chunk None, text_chunk ''b'']" False "\<lambda>_. False" "\<lambda>_ w. w" sample_world]
  by (simp add: ends_stream_def text_chunk_def done_chunk_def text_events_def closing_events_def del: pump.simps) fast

subsection \<open>The slot of a stream is given back\<close>

text \<open>
  Connections answer in the end, an open channel is ended or closed, and other goroutines leave the slots as
  they found them.
\<close>

definition quiet_stream :: "'p stream_env \<Rightarrow> bool" where
  "quiet_stream sv \<longleftrightarrow>
     (\<forall>p ctx req w. \<exists>r w1. sv_connect sv p ctx req w = Some (r, w1) \<and>
        r_semaphores (w_router w1) = r_semaphores (w_router w) \<and>
        (\<forall>src. r = Inr src \<longrightarrow> first_end (so_chunks src) \<noteq> None \<or> so_closed src)) \<and>
     (\<forall>k w. r_semaphores (w_router (sv_recv sv k w)) = r_semaphores (w_router w))"

lemma pump_keeps_slots:
  assumes "\<And>k w. r_semaphores (w_router (recv k w)) = r_semaphores (w_router w)"
    and "pump gone recv k chunks shut p w = Some (p', w')"
  shows "r_semaphores (w_router w') = r_semaphores (w_router w)"
  using assms(2)
proof (induction chunks arbitrary: k p w)
  case (Cons ch chs)
  then show ?case
    by (cases "stream_step (Some ch) p") (auto simp: assms(1) split: if_splits)
qed (auto simp: assms(1) split: if_splits)

lemma pump_returns:
  assumes "first_end chunks \<noteq> None \<or> shut"
  shows "\<exists>p' w'. pump gone recv k chunks shut p w = Some (p', w')"
  using assms
proof (induction chunks arbitrary: k p w)
  case (Cons ch chs)
  show ?case
  proof (cases "ends_stream ch")
    case True
    then show ?thesis using stream_step_end [OF True, of p] by auto
  next
    case False
    then show ?thesis using Cons by (simp add: stream_step_text)
  qed
qed simp

lemma try_stream_slots:
  assumes "quiet_stream sv" and "slots_free w"
  shows "\<exists>r a w'. try_stream registry env sv ctx req t n w = Some ((r, a), w') \<and>
    (case r of Inl e \<Rightarrow> r_semaphores (w_router w') = r_semaphores (w_router w)
     | Inr src \<Rightarrow> holds_slot (ft_provider t) w w' \<and> (first_end (so_chunks src) \<noteq> None \<or> so_closed src))"
proof -
  let ?n = "ft_provider t"
  obtain e w1 where c: "CheckCircuitBreaker ?n w = (e, w1)" by (metis surj_pair)
  have s1: "r_semaphores (w_router w1) = r_semaphores (w_router w)"
    using breaker_ops_keep(1) [of ?n w] c by simp
  have same: "holds_slot ?n w1 w2 \<longleftrightarrow> holds_slot ?n w w2" for w2
    using s1 by (simp add: holds_slot_def split: option.split)
  have free: "slots_free w1" using assms(2) s1 by (simp add: slots_free_def)
  have connect: "\<exists>r a w'. connect_stream sv ctx req t p att w2 = Some ((r, a), w') \<and>
      (case r of Inl e \<Rightarrow> r_semaphores (w_router w') = r_semaphores (w_router w)
       | Inr src \<Rightarrow> holds_slot ?n w w' \<and> (first_end (so_chunks src) \<noteq> None \<or> so_closed src))"
    if h: "holds_slot ?n w1 w2" for p att w2
  proof -
    obtain r w3 where r: "sv_connect sv p ctx (provider_request req t) w2 = Some (r, w3)"
      "r_semaphores (w_router w3) = r_semaphores (w_router w2)"
      "\<And>src. r = Inr src \<Longrightarrow> first_end (so_chunks src) \<noteq> None \<or> so_closed src"
      using assms(1) unfolding quiet_stream_def by blast
    have "holds_slot ?n w1 w3" using holds_slot_cong [OF h r(2)] .
    then show ?thesis
      using r(1,3) release_held [of ?n w1 w3] s1 same
      by (cases r) (auto simp: connect_stream_def Let_def)
  qed
  show ?thesis
  proof (cases e)
    case (Some err)
    then show ?thesis using c s1 by (simp add: try_stream_def Let_def)
  next
    case None
    from acquire_free [OF free, of env ctx ?n] show ?thesis
    proof
      assume "\<exists>w2. acquire_waiting env ctx ?n w1 = Some (None, w2) \<and> holds_slot ?n w1 w2"
      then obtain w2 where w2: "acquire_waiting env ctx ?n w1 = Some (None, w2)" "holds_slot ?n w1 w2" by blast
      then show ?thesis
        using c None connect [OF w2(2)] release_held [OF w2(2)] s1
        by (cases "Registry_Get registry ?n") (auto simp: try_stream_def Let_def)
    next
      assume "\<exists>e w2. acquire_waiting env ctx ?n w1 = Some (Some e, w2) \<and>
        r_semaphores (w_router w2) = r_semaphores (w_router w1)"
      then show ?thesis using c None s1 by (auto simp: try_stream_def Let_def)
    qed
  qed
qed

definition stream_ready :: "stream_start \<Rightarrow> 'p world \<Rightarrow> 'p world \<Rightarrow> bool" where
  "stream_ready st w w' \<longleftrightarrow>
     (case ss_found st of None \<Rightarrow> r_semaphores (w_router w') = r_semaphores (w_router w)
      | Some (src, t) \<Rightarrow> holds_slot (ft_provider t) w w' \<and> (first_end (so_chunks src) \<noteq> None \<or> so_closed src))"

lemma stream_ready_cong:
  "stream_ready st w1 w' \<Longrightarrow> r_semaphores (w_router w1) = r_semaphores (w_router w) \<Longrightarrow> stream_ready st w w'"
  by (auto simp: stream_ready_def holds_slot_def split: option.splits)

lemma find_stream_slots:
  assumes "quiet_stream sv" and "slots_free w"
  shows "\<exists>st w'. find_stream registry env sv ctx req i attempts lastErr ts w = Some (st, w') \<and>
    stream_ready st w w'"
  using assms(2)
proof (induction ts arbitrary: i attempts lastErr w)
  case (Cons t ts)
  obtain r a w1 where t: "try_stream registry env sv ctx req t (i + 1) w = Some ((r, a), w1)"
    "case r of Inl e \<Rightarrow> r_semaphores (w_router w1) = r_semaphores (w_router w)
     | Inr src \<Rightarrow> holds_slot (ft_provider t) w w1 \<and> (first_end (so_chunks src) \<noteq> None \<or> so_closed src)"
    using try_stream_slots [OF assms(1) Cons.prems] by blast
  show ?case
  proof (cases r)
    case (Inr src)
    then show ?thesis using t by (simp add: stream_ready_def)
  next
    case (Inl e)
    then have same: "r_semaphores (w_router w1) = r_semaphores (w_router w)" using t(2) by simp
    then have "slots_free w1" using Cons.prems by (simp add: slots_free_def)
    from Cons.IH [OF this, of "i + 1" "attempts @ [a]" "Some e"] show ?thesis
      using t(1) Inl stream_ready_cong [OF _ same] by auto
  qed
qed (simp add: stream_ready_def)

lemma finish_stream_slots:
  assumes "quiet_stream sv" and "first_end (so_chunks src) \<noteq> None \<or> so_closed src"
  shows "\<exists>out s'. finish_stream h lib sv c req start src t as reason s = Some (out, s') \<and>
    r_semaphores (w_router (hs_world s')) = r_semaphores (w_router (hs_world s))"
proof -
  obtain p w1 where pump: "pump (sv_gone sv) (sv_recv sv) 0 (so_chunks src) (so_closed src) pump_start (hs_world s) = Some (p, w1)"
    using pump_returns [OF assms(2)] by blast
  have "r_semaphores (w_router w1) = r_semaphores (w_router (hs_world s))"
    using assms(1) pump_keeps_slots [OF _ pump] by (simp add: quiet_stream_def)
  moreover have "write_log l x = Some y \<Longrightarrow> hs_world y = hs_world x" for l and x y :: "('a, 'b) chat_state"
    by (auto simp: write_log_def)
  ultimately show ?thesis
    using pump by (auto simp: finish_stream_def Let_def dest!: split: option.split)
qed

lemma stream_returns:
  assumes "quiet_stream sv" and "slots_free (hs_world s)"
  shows "\<exists>out s'. Stream h lib sv invalid decoded c s = Some (out, s') \<and>
    r_semaphores (w_router (hs_world s')) = r_semaphores (w_router (hs_world s))"
proof -
  have log: "write_log l x = Some y \<Longrightarrow> hs_world y = hs_world x" for l and x y :: "('a, 'b) chat_state"
    by (auto simp: write_log_def)
  have routed: "\<exists>out s'. stream_routed h lib sv c req start s1 = Some (out, s') \<and>
      r_semaphores (w_router (hs_world s')) = r_semaphores (w_router (hs_world s1))"
    if free: "slots_free (hs_world s1)" for req start s1
  proof -
    obtain st w where st: "find_stream (sh_registry h) (li_env lib) sv (li_ctx lib) req 0 [] None (buildTargets req) (hs_world s1) = Some (st, w)"
      "stream_ready st (hs_world s1) w"
      using find_stream_slots [OF assms(1) free] by blast
    show ?thesis
    proof (cases "ss_found st")
      case None
      then show ?thesis using st by (auto simp: stream_ready_def stream_routed_def Let_def buildTargets_def dest: log split: option.split)
    next
      case (Some x)
      obtain src t where x: "x = (src, t)" by (cases x)
      have h: "holds_slot (ft_provider t) (hs_world s1) w" "first_end (so_chunks src) \<noteq> None \<or> so_closed src"
        using st(2) Some x by (simp_all add: stream_ready_def)
      obtain out s2 where f: "finish_stream h lib sv c req start src t (ss_attempts st) (ss_fallback_reason st)
          (s1\<lparr>hs_world := w\<rparr>) = Some (out, s2)"
        "r_semaphores (w_router (hs_world s2)) = r_semaphores (w_router w)"
        using finish_stream_slots [OF assms(1) h(2), of h lib c req start t "ss_attempts st" "ss_fallback_reason st" "s1\<lparr>hs_world := w\<rparr>"]
        by auto
      obtain w2 where "ReleaseSemaphore (ft_provider t) (hs_world s2) = Some w2"
        "r_semaphores (w_router w2) = r_semaphores (w_router (hs_world s1))"
        using release_held [OF holds_slot_cong [OF h(1) f(2)]] by blast
      then show ?thesis using st(1) Some x f(1) by (auto simp: stream_routed_def release_at_end_def Let_def buildTargets_def)
    qed
  qed
  have direct: "\<exists>out s'. stream_direct h lib sv c req start s1 = Some (out, s') \<and>
      r_semaphores (w_router (hs_world s')) = r_semaphores (w_router (hs_world s1))" for req start s1
  proof (cases "Registry_Get (sh_registry h) (req_provider req)")
    case (Inr p)
    obtain r w1 where r: "sv_connect sv p (li_ctx lib) req (hs_world s1) = Some (r, w1)"
      "r_semaphores (w_router w1) = r_semaphores (w_router (hs_world s1))"
      "\<And>src. r = Inr src \<Longrightarrow> first_end (so_chunks src) \<noteq> None \<or> so_closed src"
      using assms(1) unfolding quiet_stream_def by blast
    show ?thesis
      using Inr r(1,2) finish_stream_slots [OF assms(1) r(3), where s = "s1\<lparr>hs_world := w1\<rparr>"]
      by (cases r) (fastforce simp: stream_direct_def)+
  qed (simp add: stream_direct_def)
  show ?thesis
  proof (cases "check_chat invalid decoded")
    case (Inr req0)
    obtain req s1 where p: "prepare (sh_config_dir h) lib req0 s = (req, s1)" by (metis surj_pair)
    then have w: "hs_world s1 = hs_world s" by (auto simp: prepare_def split: prod.splits)
    then show ?thesis
      using routed [of s1 req "w_now (hs_world s)"] direct [of req "w_now (hs_world s)" s1] assms(2) Inr p
      by (simp add: Stream_def)
  qed (simp add: Stream_def)
qed

text \<open>
  C10. A stream gives its slot back.  When connections answer, open channels are ended or closed, and slots
  are free, a streaming request returns, and every semaphore is as before it, whatever happened: refused or
  failing providers, an error in mid-stream, a client that left, a panic in the log.
\<close>

theorem stream_gives_slots_back:
  assumes "quiet_stream sv" and "slots_free (hs_world s)"
  shows "\<exists>out s'. Stream h lib sv invalid decoded c s = Some (out, s') \<and>
    r_semaphores (w_router (hs_world s')) = r_semaphores (w_router (hs_world s))"
  by (rule stream_returns [OF assms])

subsection \<open>What the log says of a stream\<close>

definition stream_attempt_ok :: "FallbackTarget \<Rightarrow> int \<Rightarrow> error_text + stream_source \<Rightarrow> FallbackAttempt \<Rightarrow> bool" where
  "stream_attempt_ok t order r a \<longleftrightarrow> fa_provider a = ft_provider t \<and> fa_model a = ft_model t \<and> fa_order a = order \<and>
     (fa_status a = ''success'' \<longleftrightarrow> (\<exists>src. r = Inr src))"

lemma try_stream_attempt:
  "try_stream registry env sv ctx req t order w = Some ((r, a), w') \<Longrightarrow> stream_attempt_ok t order r a"
  by (auto simp: try_stream_def connect_stream_def Let_def stream_attempt_ok_def new_attempt_def
      split: option.splits sum.splits prod.splits)

text \<open>The trace of the target loop: who was tried, and that only the last one can have started to stream.\<close>

definition stream_trace :: "FallbackTarget list \<Rightarrow> int \<Rightarrow> stream_start \<Rightarrow> FallbackAttempt list \<Rightarrow> bool" where
  "stream_trace ts i st as \<longleftrightarrow> attempts_follow as ts i \<and> (\<forall>a \<in> set (butlast as). fa_status a \<noteq> ''success'') \<and>
     (case ss_found st of
        None \<Rightarrow> length as = length ts \<and> (\<forall>a \<in> set as. fa_status a \<noteq> ''success'') \<and> (ts \<noteq> [] \<longrightarrow> ss_last_err st \<noteq> None)
      | Some (src, t) \<Rightarrow> as \<noteq> [] \<and> fa_status (last as) = ''success'' \<and> t = ts ! (length as - 1))"

lemma find_stream_trace:
  "find_stream registry env sv ctx req i attempts lastErr ts w = Some (st, w') \<Longrightarrow> length attempts = nat i \<Longrightarrow> 0 \<le> i \<Longrightarrow>
   (lastErr = None \<longleftrightarrow> i = 0) \<Longrightarrow>
   \<exists>as. ss_attempts st = attempts @ as \<and> stream_trace ts i st as \<and>
     (ss_fallback_reason st \<noteq> None \<longleftrightarrow> length (attempts @ as) > 1)"
proof (induction ts arbitrary: i attempts lastErr w)
  case Nil
  have "st = \<lparr>ss_found = None, ss_attempts = attempts, ss_last_err = lastErr,
      ss_fallback_reason = (if length attempts > 1 then Some ''fallback:stream:all_failed'' else None)\<rparr>"
    using Nil.prems(1) by simp
  then show ?case by (intro exI [of _ "[]"]) (simp add: stream_trace_def attempts_follow_def)
next
  case (Cons t ts)
  obtain r a w1 where t: "try_stream registry env sv ctx req t (i + 1) w = Some ((r, a), w1)"
    using Cons.prems(1) by (auto split: option.splits)
  note ok = try_stream_attempt [OF t]
  show ?case
  proof (cases r)
    case (Inr src)
    have st: "st = \<lparr>ss_found = Some (src, t), ss_attempts = attempts @ [a], ss_last_err = lastErr,
        ss_fallback_reason = (case lastErr of Some e \<Rightarrow> if i > 0 then Some (''fallback:stream - '' @ e) else None | None \<Rightarrow> None)\<rparr>"
      using Cons.prems(1) t Inr by auto
    have "stream_trace (t # ts) i st [a]"
      using ok Inr by (auto simp: st stream_trace_def attempts_follow_def stream_attempt_ok_def)
    moreover have "ss_fallback_reason st \<noteq> None \<longleftrightarrow> length (attempts @ [a]) > 1"
      using Cons.prems(2,3,4) by (auto simp: st split: option.split)
    ultimately show ?thesis by (auto simp: st)
  next
    case (Inl e)
    have "find_stream registry env sv ctx req (i + 1) (attempts @ [a]) (Some e) ts w1 = Some (st, w')"
      using Cons.prems(1) t Inl by simp
    then obtain as where as: "ss_attempts st = (attempts @ [a]) @ as" "stream_trace ts (i + 1) st as"
      "ss_fallback_reason st \<noteq> None \<longleftrightarrow> length ((attempts @ [a]) @ as) > 1"
      using Cons.IH [of "i + 1" "attempts @ [a]" "Some e" w1] Cons.prems(2,3) by (auto simp: nat_add_distrib)
    have err: "ts = [] \<Longrightarrow> ss_found st = None \<Longrightarrow> ss_last_err st = Some e"
      using Cons.prems(1) t Inl by auto
    have "stream_trace (t # ts) i st (a # as)"
    proof (cases "ss_found st")
      case None
      then show ?thesis
        using as(2) ok Inl err by (cases "ts = []") (auto simp: stream_trace_def attempts_follow_Cons stream_attempt_ok_def)
    next
      case (Some x)
      obtain src t' where x: "x = (src, t')" by (cases x)
      have "as \<noteq> []" "t' = ts ! (length as - 1)" using as(2) Some x by (simp_all add: stream_trace_def)
      then have "t' = (t # ts) ! (length (a # as) - 1)" by (cases as) simp_all
      then show ?thesis
        using as(2) ok Inl Some x \<open>as \<noteq> []\<close> by (simp add: stream_trace_def attempts_follow_Cons stream_attempt_ok_def)
    qed
    then show ?thesis using as(1,3) by (intro exI [of _ "a # as"]) simp
  qed
qed

text \<open>The client sees an error event exactly when the log gets an error.\<close>

definition error_event :: "string \<Rightarrow> sse_event" where
  "error_event e = SseError (JObj [(''error'', JStr e)])"

definition errors_shown :: "pump_state \<Rightarrow> bool" where
  "errors_shown p \<longleftrightarrow> (pu_error p \<noteq> [] \<longrightarrow> error_event (pu_error p) \<in> set (pu_events p)) \<and>
     (\<forall>x. SseError x \<in> set (pu_events p) \<longrightarrow> SseError x = error_event (pu_error p))"

lemma pump_errors:
  assumes "pump gone recv k chunks shut p w = Some (p', w')" and "pu_error p = []" and "\<And>x. SseError x \<notin> set (pu_events p)"
  shows "errors_shown p'"
  using assms
proof (induction chunks arbitrary: k p w)
  case Nil
  then show ?case by (auto simp: errors_shown_def stream_step_def split: if_splits)
next
  case (Cons ch chs)
  show ?case
  proof (cases "gone k \<or> ends_stream ch")
    case True
    then show ?thesis
      using Cons.prems by (auto simp: errors_shown_def stream_step_def error_event_def ends_stream_def split: if_splits option.splits)
  next
    case False
    let ?p = "send_events (text_events [ch]) (p\<lparr>pu_content := pu_content p @ ch_content ch\<rparr>)"
    have "pump gone recv (Suc k) chs shut ?p (recv k w) = Some (p', w')"
      using Cons.prems(1) False by (simp add: stream_step_text)
    moreover have "pu_error ?p = []" "\<And>x. SseError x \<notin> set (pu_events ?p)"
      using Cons.prems(2,3) by (auto simp: text_events_def)
    ultimately show ?thesis by (rule Cons.IH)
  qed
qed

lemma stream_log_fields:
  assumes "stream_log h lib c req p m usage text as reason ms err = Some l"
  shows "lg_trace_id l = GetTraceID c" "lg_client_id l = GetClientID c" "lg_fallback_chain l = map attempt_log as"
    "lg_actual_provider l = p" "lg_actual_model l = m" "lg_fallback_used l \<longleftrightarrow> reason \<noteq> None"
    "lg_status l = (if err = None then ''success'' else ''error'')"
  using assms by (auto simp: stream_log_def base_log_def Let_def split: option.splits)

lemma write_log_Some:
  "write_log l s = Some s' \<Longrightarrow> hs_writer s = Some w \<Longrightarrow>
   \<exists>e w'. l = Some e \<and> log_write e w = Some w' \<and> hs_writer s' = Some w'"
  by (auto simp: write_log_def write_entry_def split: option.splits)

definition stream_logged ::
  "gin \<Rightarrow> RequestLogWriter \<Rightarrow> FallbackTarget list \<Rightarrow> stream_response \<Rightarrow> RequestLogWriter option \<Rightarrow> bool" where
  "stream_logged c w targets resp writer \<longleftrightarrow>
     (\<exists>l w' as. log_write l w = Some w' \<and> writer = Some w' \<and> lg_trace_id l = GetTraceID c \<and> lg_client_id l = GetClientID c \<and>
        lg_fallback_chain l = map attempt_log as \<and> attempts_follow as targets 0 \<and> (lg_fallback_used l \<longleftrightarrow> length as > 1) \<and>
        (\<forall>a \<in> set (butlast as). fa_status a \<noteq> ''success'') \<and>
        (case resp of
           Plain r \<Rightarrow> rs_status r = 502 \<and> lg_status l = ''error'' \<and> length as = length targets \<and> fa_status (last as) \<noteq> ''success''
         | Sse headers events \<Rightarrow> fa_status (last as) = ''success'' \<and>
             lg_actual_provider l = fa_provider (last as) \<and> lg_actual_model l = fa_model (last as) \<and>
             (lg_status l = ''error'' \<longleftrightarrow> (\<exists>e. e \<noteq> [] \<and> error_event e \<in> set events)) \<and>
             (lg_status l = ''success'' \<longleftrightarrow> lg_status l \<noteq> ''error'')))"

lemma finish_stream_logged:
  assumes "finish_stream h lib sv c req start src t as reason s = Some (Done resp, s')" and "hs_writer s = Some w"
  shows "\<exists>p l w'. resp = Sse (sse_headers (GetTraceID c)) (pu_events p) \<and> errors_shown p \<and> log_write l w = Some w' \<and>
    hs_writer s' = Some w' \<and> lg_trace_id l = GetTraceID c \<and> lg_client_id l = GetClientID c \<and>
    lg_fallback_chain l = map attempt_log as \<and> lg_actual_provider l = ft_provider t \<and> lg_actual_model l = ft_model t \<and>
    (lg_fallback_used l \<longleftrightarrow> reason \<noteq> None) \<and> lg_status l = (if pu_error p = [] then ''success'' else ''error'')"
proof -
  obtain p w1 where pump: "pump (sv_gone sv) (sv_recv sv) 0 (so_chunks src) (so_closed src) pump_start (hs_world s) = Some (p, w1)"
    using assms(1) by (auto simp: finish_stream_def split: option.splits)
  note step = assms(1) [unfolded finish_stream_def pump option.case prod.case Let_def option.inject]
  obtain l s2 where l: "write_log l s2 = Some s'" "hs_writer s2 = hs_writer s" "resp = Sse (sse_headers (GetTraceID c)) (pu_events p)"
    "\<exists>u ms. l = stream_log h lib c req (ft_provider t) (ft_model t) u (pu_content p) as reason ms (stream_error_text (pu_error p))"
    using step by (fastforce split: option.splits)
  then obtain e w' where e: "l = Some e" "log_write e w = Some w'" "hs_writer s' = Some w'"
    using write_log_Some [of l s2 s' w] assms(2) by auto
  have "errors_shown p" by (rule pump_errors [OF pump]) (simp_all add: pump_start_def)
  moreover obtain u ms where "stream_log h lib c req (ft_provider t) (ft_model t) u (pu_content p) as reason ms
      (stream_error_text (pu_error p)) = Some e"
    using l(4) e(1) by auto
  ultimately show ?thesis
    using e(2,3) l(3) stream_log_fields [of h lib c req "ft_provider t" "ft_model t" u "pu_content p" as reason ms]
    by (intro exI [of _ p] exI [of _ e] exI [of _ w']) (auto simp: stream_error_text_def)
qed

lemma errors_shown_iff: "errors_shown p \<Longrightarrow> (\<exists>e. e \<noteq> [] \<and> error_event e \<in> set (pu_events p)) \<longleftrightarrow> pu_error p \<noteq> []"
  by (auto simp: errors_shown_def error_event_def)

lemma attempts_follow_last:
  "attempts_follow as ts 0 \<Longrightarrow> as \<noteq> [] \<Longrightarrow> fa_provider (last as) = ft_provider (ts ! (length as - 1)) \<and>
   fa_model (last as) = ft_model (ts ! (length as - 1))"
  by (simp add: attempts_follow_def last_conv_nth)

lemma stream_routed_logged:
  assumes "stream_routed h lib sv c req start s = Some (Done resp, s')" and "hs_writer s = Some w"
  shows "stream_logged c w (buildTargets req) resp (hs_writer s')"
proof -
  have ne: "buildTargets req \<noteq> []" by (simp add: buildTargets_def)
  obtain st w1 where st: "find_stream (sh_registry h) (li_env lib) sv (li_ctx lib) req 0 [] None (buildTargets req) (hs_world s) = Some (st, w1)"
    using assms(1) ne by (auto simp: stream_routed_def Let_def split: option.splits)
  obtain as where as: "ss_attempts st = as" "stream_trace (buildTargets req) 0 st as" "ss_fallback_reason st \<noteq> None \<longleftrightarrow> length as > 1"
    using find_stream_trace [OF st] by auto
  note step = assms(1) [unfolded stream_routed_def Let_def if_not_P [OF ne] st option.case prod.case]
  show ?thesis
  proof (cases "ss_found st")
    case None
    have tr: "attempts_follow as (buildTargets req) 0" "length as = length (buildTargets req)"
      "\<forall>a \<in> set as. fa_status a \<noteq> ''success''" "ss_last_err st \<noteq> None"
      using as(2) None ne by (auto simp: stream_trace_def)
    obtain l where l: "write_log l (s\<lparr>hs_world := w1\<rparr>) = Some s'" "\<exists>x. resp = Plain (bad_gateway x (GetTraceID c))"
      "\<exists>ms. l = stream_log h lib c req [] [] None [] as (ss_fallback_reason st) ms (ss_last_err st)"
      using step None as(1) by (auto split: option.splits)
    then obtain e w' where e: "l = Some e" "log_write e w = Some w'" "hs_writer s' = Some w'"
      using write_log_Some [OF l(1), of w] assms(2) by auto
    then obtain ms where "stream_log h lib c req [] [] None [] as (ss_fallback_reason st) ms (ss_last_err st) = Some e"
      using l(3) by auto
    note f = stream_log_fields [OF this]
    have "as \<noteq> []" using tr(2) ne by auto
    then show ?thesis
      unfolding stream_logged_def using l(2) e(2,3) f tr as(3)
      by (intro exI [of _ e] exI [of _ w'] exI [of _ as]) (auto simp: bad_gateway_def json_response_def dest: in_set_butlastD)
  next
    case (Some x)
    obtain src t where x: "x = (src, t)" by (cases x)
    have tr: "attempts_follow as (buildTargets req) 0" "as \<noteq> []" "fa_status (last as) = ''success''"
      "\<forall>a \<in> set (butlast as). fa_status a \<noteq> ''success''" "t = buildTargets req ! (length as - 1)"
      using as(2) Some x by (auto simp: stream_trace_def)
    obtain s2 where f: "finish_stream h lib sv c req start src t as (ss_fallback_reason st) (s\<lparr>hs_world := w1\<rparr>) = Some (Done resp, s2)"
      "hs_writer s' = hs_writer s2"
      using step Some x as(1) by (auto simp: release_at_end_def split: option.splits prod.splits)
    obtain p l w' where l: "resp = Sse (sse_headers (GetTraceID c)) (pu_events p)" "errors_shown p" "log_write l w = Some w'"
      "hs_writer s2 = Some w'" "lg_trace_id l = GetTraceID c" "lg_client_id l = GetClientID c"
      "lg_fallback_chain l = map attempt_log as" "lg_actual_provider l = ft_provider t" "lg_actual_model l = ft_model t"
      "lg_fallback_used l \<longleftrightarrow> ss_fallback_reason st \<noteq> None" "lg_status l = (if pu_error p = [] then ''success'' else ''error'')"
      using finish_stream_logged [OF f(1), of w] assms(2) by auto
    show ?thesis
      unfolding stream_logged_def
      using l f(2) tr as(3) attempts_follow_last [OF tr(1,2)] errors_shown_iff [OF l(2)]
      by (intro exI [of _ l] exI [of _ w'] exI [of _ as]) simp
  qed
qed

text \<open>
  C16. What the log says of a stream.  A streaming request through the router either is refused with 400 and
  logs nothing, or, once accepted and completed with its prompt and project fallback, writes one log under
  its trace id, whose chain lists the targets tried, primary first and numbered without gaps, with the
  providers and models of that request's own target list.  If events were sent, the last attempt is the
  only success and names the provider and model of the log, and the log is an error exactly when the client
  got an error event with a message; if all failed, the answer is 502, the log an error and its chain
  covers every target of the request.
\<close>

theorem streams_are_logged:
  assumes "Stream h lib sv invalid decoded c s = Some (Done resp, s')" and "hs_writer s = Some w" and "sh_router h"
  shows "case check_chat invalid decoded of
      Inl r \<Rightarrow> resp = Plain r \<and> rs_status r = 400 \<and> hs_writer s' = hs_writer s
    | Inr req \<Rightarrow> stream_logged c w (buildTargets (fst (prepare (sh_config_dir h) lib req s))) resp (hs_writer s')"
proof (cases "check_chat invalid decoded")
  case (Inl r)
  then have "rs_status r = 400"
    by (auto simp: check_chat_def error_response_def split: sum.splits option.splits)
  then show ?thesis using assms(1) Inl by (auto simp: Stream_def)
next
  case (Inr req0)
  obtain req s1 where p: "prepare (sh_config_dir h) lib req0 s = (req, s1)" by (metis surj_pair)
  then have "hs_writer s1 = Some w" using assms(2) by (auto simp: prepare_def split: prod.splits)
  moreover have "stream_routed h lib sv c req (w_now (hs_world s)) s1 = Some (Done resp, s')"
    using assms(1,3) Inr p by (simp add: Stream_def)
  ultimately show ?thesis using stream_routed_logged Inr p by auto
qed

subsection \<open>An instance\<close>

definition sample_stream :: "string stream_handler" where
  "sample_stream = \<lparr>sh_registry = r_registry sample_router, sh_router = True, sh_pricing = None, sh_logging = None,
     sh_config_dir = []\<rparr>"

text \<open>The first provider refuses with a status 503; the second sends one text and ends.\<close>

definition sample_chunks :: "StreamChunk list" where
  "sample_chunks = [text_chunk ''hi'', done_chunk (Some zero_usage)]"

definition sample_stream_env :: "string stream_env" where
  "sample_stream_env = \<lparr>sv_connect = (\<lambda>p ctx req w. Some (if p = ''claude'' then Inl ''status: 503''
       else Inr \<lparr>so_chunks = sample_chunks, so_closed = False\<rparr>, w)),
     sv_gone = (\<lambda>_. False), sv_recv = (\<lambda>_ w. w)\<rparr>"

definition stream_request :: ChatRequest where
  "stream_request = (short_request ''claude'' ''m'')\<lparr>req_fallback := [\<lparr>ft_provider = ''gpt'', ft_model = ''n''\<rparr>]\<rparr>"

lemma sample_stream_quiet: "quiet_stream sample_stream_env"
  by (simp add: quiet_stream_def sample_stream_env_def sample_chunks_def text_chunk_def done_chunk_def ends_stream_def)

lemma sample_state_slots: "slots_free (hs_world sample_chat_state)"
  using sample_slots by (simp add: sample_chat_state_def)

theorem stream_gives_slots_back_witness:
  "\<exists>out s'. Stream sample_stream sample_chat_lib sample_stream_env ''bad'' (Inr stream_request) chat_gin sample_chat_state
     = Some (out, s') \<and>
   r_semaphores (w_router (hs_world s')) = r_semaphores (w_router (hs_world sample_chat_state))"
  by (rule stream_gives_slots_back [OF sample_stream_quiet sample_state_slots])

lemma sample_stream_found:
  "\<exists>as w. find_stream (sh_registry sample_stream) sample_env sample_stream_env Background stream_request 0 [] None
     (buildTargets stream_request) sample_world =
     Some (\<lparr>ss_found = Some (\<lparr>so_chunks = sample_chunks, so_closed = False\<rparr>, \<lparr>ft_provider = ''gpt'', ft_model = ''n''\<rparr>),
       ss_attempts = as, ss_last_err = Some ''status: 503'', ss_fallback_reason = Some ''fallback:stream - status: 503''\<rparr>, w)"
  by (simp add: buildTargets_def stream_request_def short_request_def try_stream_def connect_stream_def CheckCircuitBreaker_def
      sample_world_def sample_router_def NewRouter_def sample_fallback_config_def NewRegistry_def Register_def
      Registry_Get_def Allow_def set_breaker_def acquire_waiting_def AcquireSemaphore_def Acquire_def sample_stream_def
      NewSemaphore_def set_semaphore_def sample_env_def sample_stream_env_def Background_def
      ReleaseSemaphore_def Release_def RouterRecordFailure_def RecordFailure_def Let_def)

definition all_sent :: "pump_state" where
  "all_sent = \<lparr>pu_events = [SseData (text_event ''hi''), SseData (final_event (Some zero_usage)), SseDone], pu_error = [],
     pu_usage = Some zero_usage, pu_content = ''hi''\<rparr>"

lemma sample_pump: "pump (\<lambda>_. False) (\<lambda>_ w. w) 0 sample_chunks False pump_start w = Some (all_sent, w)"
  by (simp add: sample_chunks_def text_chunk_def done_chunk_def stream_step_def pump_start_def send_events_def all_sent_def)

lemma sample_finish:
  "\<exists>s'. finish_stream sample_stream sample_chat_lib sample_stream_env chat_gin stream_request 0
     \<lparr>so_chunks = sample_chunks, so_closed = False\<rparr> t as reason (sample_chat_state\<lparr>hs_world := w\<rparr>) =
     Some (Done (Sse (sse_headers (GetTraceID chat_gin)) (pu_events all_sent)), s')"
proof -
  have "truncate_text ''hello'' 200 = Some ''hello''" "truncate_text ''hi'' 200 = Some ''hi''"
    by (simp_all add: truncate_text_def runes.simps utf8_first_def)
  then show ?thesis
    by (simp add: finish_stream_def sample_stream_env_def sample_pump Let_def write_log_def write_entry_def stream_log_def
        base_log_def previewText_def stream_request_def short_request_def sample_stream_def sample_chat_state_def all_sent_def
        loggingPreviewLengths_def stream_error_text_def log_write_def NewRequestLogWriter_def split: option.split)
qed

lemma stream_request_checked: "check_chat ''bad'' (Inr stream_request) = Inr stream_request"
  by (simp add: check_chat_def bind_chat_def ValidateOptions_def stream_request_def short_request_def Let_def)

lemma stream_request_prepared:
  "prepare (sh_config_dir sample_stream) sample_chat_lib stream_request sample_chat_state = (stream_request, sample_chat_state)"
  by (simp add: prepare_def with_prompt_def with_project_fallback_def stream_request_def short_request_def sample_chat_state_def)

lemma sample_stream_run:
  "\<exists>s'. Stream sample_stream sample_chat_lib sample_stream_env ''bad'' (Inr stream_request) chat_gin sample_chat_state =
     Some (Done (Sse (sse_headers (GetTraceID chat_gin)) (pu_events all_sent)), s')"
proof -
  note check = stream_request_checked and prep = stream_request_prepared
  obtain as w where found: "find_stream (sh_registry sample_stream) sample_env sample_stream_env Background stream_request 0 [] None
     (buildTargets stream_request) sample_world =
     Some (\<lparr>ss_found = Some (\<lparr>so_chunks = sample_chunks, so_closed = False\<rparr>, \<lparr>ft_provider = ''gpt'', ft_model = ''n''\<rparr>),
       ss_attempts = as, ss_last_err = Some ''status: 503'', ss_fallback_reason = Some ''fallback:stream - status: 503''\<rparr>, w)"
    using sample_stream_found by blast
  obtain s1 where fin: "finish_stream sample_stream sample_chat_lib sample_stream_env chat_gin stream_request 0
     \<lparr>so_chunks = sample_chunks, so_closed = False\<rparr> \<lparr>ft_provider = ''gpt'', ft_model = ''n''\<rparr> as
     (Some ''fallback:stream - status: 503'') (sample_chat_state\<lparr>hs_world := w\<rparr>) =
     Some (Done (Sse (sse_headers (GetTraceID chat_gin)) (pu_events all_sent)), s1)"
    using sample_finish by blast
  have lib: "li_env sample_chat_lib = sample_env" "li_ctx sample_chat_lib = Background" "hs_world sample_chat_state = sample_world"
    "w_now sample_world = 0" "sh_router sample_stream" "buildTargets stream_request \<noteq> []"
    by (simp_all add: sample_chat_lib_def sample_chat_state_def sample_world_def sample_stream_def buildTargets_def)
  have "Stream sample_stream sample_chat_lib sample_stream_env ''bad'' (Inr stream_request) chat_gin sample_chat_state =
      release_at_end ''gpt'' (Some (Done (Sse (sse_headers (GetTraceID chat_gin)) (pu_events all_sent)), s1))"
    by (simp add: Stream_def check prep lib stream_routed_def found fin)
  moreover have "\<exists>out s'. Stream sample_stream sample_chat_lib sample_stream_env ''bad'' (Inr stream_request) chat_gin
      sample_chat_state = Some (out, s')"
    using stream_returns [OF sample_stream_quiet sample_state_slots] by blast
  ultimately show ?thesis by (auto simp: release_at_end_def split: option.splits)
qed

theorem streams_are_logged_witness:
  "\<exists>resp s' w. Stream sample_stream sample_chat_lib sample_stream_env ''bad'' (Inr stream_request) chat_gin sample_chat_state =
     Some (Done resp, s') \<and> resp = Sse (sse_headers (GetTraceID chat_gin)) (pu_events all_sent) \<and>
     stream_logged chat_gin w (buildTargets stream_request) resp (hs_writer s')"
proof -
  obtain s' where run: "Stream sample_stream sample_chat_lib sample_stream_env ''bad'' (Inr stream_request) chat_gin sample_chat_state =
     Some (Done (Sse (sse_headers (GetTraceID chat_gin)) (pu_events all_sent)), s')"
    using sample_stream_run by blast
  have "hs_writer sample_chat_state = Some (NewRequestLogWriter 2 empty_logs)" "sh_router sample_stream"
    by (simp_all add: sample_chat_state_def sample_stream_def)
  then show ?thesis
    using streams_are_logged [OF run] run by (auto simp: stream_request_checked stream_request_prepared)
qed

end
