(* ===== verification/JobStore.thy ===== *)
theory JobStore
  imports Http Services Requests "HOL-Library.List_Lexorder" "HOL-Library.Char_ord" "HOL-Library.Product_Lexorder"
begin

text \<open>
  \<^verbatim>\<open>internal/queue/job.go\<close> and \<^verbatim>\<open>internal/queue/producer.go\<close>: batch jobs in Redis, a hash for each job, a list
  as the queue and a sorted set of the jobs in work.  A pipeline or command can break, with an error and after
  any number of its commands (\<open>Broken e n\<close>); a command whose context has ended does nothing.  JSON and the
  time format are arguments.
\<close>

subsection \<open>Redis\<close>

datatype fate = Fine | Broken error_text nat

definition run_cmds :: "fate \<Rightarrow> ('r \<Rightarrow> 'r) list \<Rightarrow> 'r \<Rightarrow> error_text option \<times> 'r" where
  "run_cmds f cmds r =
     (case f of
        Fine \<Rightarrow> (None, fold (\<lambda>c. c) cmds r)
      | Broken e n \<Rightarrow> (Some e, fold (\<lambda>c. c) (take n cmds) r))"

definition under_ctx :: "context_err \<Rightarrow> go_time \<Rightarrow> fate \<Rightarrow> fate" where
  "under_ctx ctx now f = (case ctx now of Some e \<Rightarrow> Broken e 0 | None \<Rightarrow> f)"

type_synonym job_hash = "string \<rightharpoonup> string"

record job_redis =
  jr_hashes :: "string \<rightharpoonup> job_hash \<times> go_time option"
  jr_queue :: "string list"
  jr_processing :: "(string \<times> int) list"

definition live :: "go_time \<Rightarrow> go_time option \<Rightarrow> bool" where
  "live now expiry = (case expiry of None \<Rightarrow> True | Some e \<Rightarrow> now < e)"

definition hash_at :: "go_time \<Rightarrow> string \<Rightarrow> job_redis \<Rightarrow> (job_hash \<times> go_time option) option" where
  "hash_at now key r =
     (case jr_hashes r key of None \<Rightarrow> None | Some (h, e) \<Rightarrow> if live now e then Some (h, e) else None)"

definition hset :: "go_time \<Rightarrow> string \<Rightarrow> (string \<times> string) list \<Rightarrow> job_redis \<Rightarrow> job_redis" where
  "hset now key fs r =
     (let (h, e) = (case hash_at now key r of Some x \<Rightarrow> x | None \<Rightarrow> (Map.empty, None))
      in r\<lparr>jr_hashes := (jr_hashes r)(key \<mapsto> (h ++ map_of fs, e))\<rparr>)"

definition expire :: "go_time \<Rightarrow> string \<Rightarrow> duration \<Rightarrow> job_redis \<Rightarrow> job_redis" where
  "expire now key ttl r =
     (case hash_at now key r of
        None \<Rightarrow> r
      | Some (h, e) \<Rightarrow> r\<lparr>jr_hashes := (jr_hashes r)(key \<mapsto> (h, Some (now + ttl)))\<rparr>)"

definition hgetall :: "go_time \<Rightarrow> string \<Rightarrow> job_redis \<Rightarrow> job_hash" where
  "hgetall now key r = (case hash_at now key r of Some (h, e) \<Rightarrow> h | None \<Rightarrow> Map.empty)"

definition zadd :: "int \<Rightarrow> string \<Rightarrow> job_redis \<Rightarrow> job_redis" where
  "zadd score m r = r\<lparr>jr_processing := (m, score) # filter (\<lambda>x. fst x \<noteq> m) (jr_processing r)\<rparr>"

definition zrem :: "string \<Rightarrow> job_redis \<Rightarrow> job_redis" where
  "zrem m r = r\<lparr>jr_processing := filter (\<lambda>x. fst x \<noteq> m) (jr_processing r)\<rparr>"

text \<open>\<^verbatim>\<open>ZRANGEBYSCORE -inf max\<close>: by score, then by member.\<close>

definition zrange_upto :: "int \<Rightarrow> job_redis \<Rightarrow> string list" where
  "zrange_upto max_score r =
     map fst (sort_key (\<lambda>(m, s). (s, m)) (filter (\<lambda>x. snd x \<le> max_score) (jr_processing r)))"

definition lpush :: "string \<Rightarrow> job_redis \<Rightarrow> job_redis" where
  "lpush x r = r\<lparr>jr_queue := x # jr_queue r\<rparr>"

definition brpop :: "job_redis \<Rightarrow> (string \<times> job_redis) option" where
  "brpop r = (if jr_queue r = [] then None else Some (last (jr_queue r), r\<lparr>jr_queue := butlast (jr_queue r)\<rparr>))"

subsection \<open>The job store\<close>

definition jobKeyPrefix :: string where
  "jobKeyPrefix = ''ezai:batch:job:''"

definition jobTTL :: duration where
  "jobTTL = 24 * 3600 * second"

definition job_key :: "string \<Rightarrow> string" where
  "job_key jobID = jobKeyPrefix @ jobID"

record queue_json =
  qj_request :: "ChatRequest \<Rightarrow> error_text + string"
  qj_read_request :: "string \<Rightarrow> error_text + ChatRequest"
  qj_response :: "ChatResponse \<Rightarrow> error_text + string"
  qj_read_response :: "string \<Rightarrow> error_text + ChatResponse"
  qj_item :: "string \<Rightarrow> string \<Rightarrow> string"
  qj_read_item :: "string \<Rightarrow> error_text + (string \<times> string)"

text \<open>\<^verbatim>\<open>json.Marshal\<close> of a pointer, with its error ignored.\<close>

definition marshal_ptr :: "('a \<Rightarrow> error_text + string) \<Rightarrow> 'a option \<Rightarrow> string" where
  "marshal_ptr f v = (case v of None \<Rightarrow> ''null'' | Some x \<Rightarrow> (case f x of Inr s \<Rightarrow> s | Inl _ \<Rightarrow> []))"

definition job_fields :: "queue_json \<Rightarrow> time_format \<Rightarrow> BatchJob \<Rightarrow> (string \<times> string) list" where
  "job_fields qj tf job =
     [(''job_id'', job_id job), (''client_id'', job_client_id job), (''status'', job_status job),
      (''request'', marshal_ptr (qj_request qj) (job_request job)),
      (''response'', marshal_ptr (qj_response qj) (job_response job)),
      (''error'', case job_error job of None \<Rightarrow> [] | Some e \<Rightarrow> e),
      (''created_at'', tf_format tf (job_created_at job)), (''updated_at'', tf_format tf (job_updated_at job))]"

definition JobStore_Save :: "queue_json \<Rightarrow> time_format \<Rightarrow> fate \<Rightarrow> go_time \<Rightarrow> BatchJob \<Rightarrow> job_redis \<Rightarrow> error_text option \<times> job_redis" where
  "JobStore_Save qj tf f now job r =
     run_cmds f [hset now (job_key (job_id job)) (job_fields qj tf job), expire now (job_key (job_id job)) jobTTL] r"

datatype job_lookup_error = JobNotFound string | JobLookupFailed error_text

definition ErrJobNotFound :: error_text where
  "ErrJobNotFound = (bytes [74, 111, 98, 236, 157, 132, 32, 236, 176, 190, 236, 157, 132, 32, 236, 136, 152, 32, 236, 151, 134, 236, 138, 181, 235, 139, 136, 235, 139, 164])"

definition lookup_error_text :: "job_lookup_error \<Rightarrow> error_text" where
  "lookup_error_text e =
     (case e of JobNotFound jobID \<Rightarrow> ErrJobNotFound @ '': '' @ jobID
      | JobLookupFailed err \<Rightarrow> (bytes [74, 111, 98, 32, 236, 161, 176, 237, 154, 140, 32, 236, 139, 164, 237, 140, 168, 58, 32]) @ err)"

definition field :: "job_hash \<Rightarrow> string \<Rightarrow> string" where
  "field vals k = (case vals k of Some v \<Rightarrow> v | None \<Rightarrow> [])"

definition read_ptr :: "(string \<Rightarrow> error_text + 'a) \<Rightarrow> string \<Rightarrow> 'a option" where
  "read_ptr f s = (if s \<noteq> [] \<and> s \<noteq> ''null'' then (case f s of Inr x \<Rightarrow> Some x | Inl _ \<Rightarrow> None) else None)"

text \<open>The zero \<^verbatim>\<open>time.Time\<close>: the first second of the year 1.\<close>

definition zero_time :: go_time where
  "zero_time = - 62135596800 * second"

definition read_time :: "time_format \<Rightarrow> string \<Rightarrow> go_time" where
  "read_time tf s = (case tf_parse tf s of Inr t \<Rightarrow> t | Inl _ \<Rightarrow> zero_time)"

definition job_of_hash :: "queue_json \<Rightarrow> time_format \<Rightarrow> job_hash \<Rightarrow> BatchJob" where
  "job_of_hash qj tf vals =
     \<lparr>job_id = field vals ''job_id'', job_client_id = field vals ''client_id'', job_status = field vals ''status'',
      job_request = read_ptr (qj_read_request qj) (field vals ''request''),
      job_response = read_ptr (qj_read_response qj) (field vals ''response''),
      job_error = (if field vals ''error'' \<noteq> [] then Some (field vals ''error'') else None),
      job_created_at = read_time tf (field vals ''created_at''), job_updated_at = read_time tf (field vals ''updated_at'')\<rparr>"

definition JobStore_Get ::
  "queue_json \<Rightarrow> time_format \<Rightarrow> error_text option \<Rightarrow> go_time \<Rightarrow> string \<Rightarrow> job_redis \<Rightarrow> job_lookup_error + BatchJob" where
  "JobStore_Get qj tf fail now jobID r =
     (case fail of
        Some e \<Rightarrow> Inl (JobLookupFailed e)
      | None \<Rightarrow>
          (let vals = hgetall now (job_key jobID) r
           in if dom vals = {} then Inl (JobNotFound jobID) else Inr (job_of_hash qj tf vals)))"

definition UpdateStatus ::
  "time_format \<Rightarrow> fate \<Rightarrow> go_time \<Rightarrow> string \<Rightarrow> JobStatus \<Rightarrow> job_redis \<Rightarrow> error_text option \<times> job_redis" where
  "UpdateStatus tf f now jobID status r =
     run_cmds f [hset now (job_key jobID) [(''status'', job_status_string status), (''updated_at'', tf_format tf now)]] r"

text \<open>\<^verbatim>\<open>Time.Unix\<close>: whole seconds.\<close>

definition unix_seconds :: "go_time \<Rightarrow> int" where
  "unix_seconds t = t div second"

definition MarkProcessing ::
  "time_format \<Rightarrow> fate \<Rightarrow> fate \<Rightarrow> go_time \<Rightarrow> string \<Rightarrow> job_redis \<Rightarrow> error_text option \<times> job_redis" where
  "MarkProcessing tf f1 f2 now jobID r =
     (case UpdateStatus tf f1 now jobID JobProcessing r of
        (Some e, r1) \<Rightarrow> (Some e, r1)
      | (None, r1) \<Rightarrow> run_cmds f2 [zadd (unix_seconds now) jobID] r1)"

definition ClearProcessing :: "fate \<Rightarrow> string \<Rightarrow> job_redis \<Rightarrow> job_redis" where
  "ClearProcessing f jobID r = snd (run_cmds f [zrem jobID] r)"

definition StaleProcessingJobs ::
  "error_text option \<Rightarrow> go_time \<Rightarrow> duration \<Rightarrow> job_redis \<Rightarrow> error_text + string list" where
  "StaleProcessingJobs fail now threshold r =
     (case fail of Some e \<Rightarrow> Inl e | None \<Rightarrow> Inr (zrange_upto (unix_seconds (now - threshold)) r))"

subsection \<open>The producer\<close>

text \<open>\<open>clock i\<close> is the \<open>i\<close>-th reading of the clock, \<open>compact\<close> the format \<^verbatim>\<open>20060102_150405\<close>, \<open>uuid\<close> a random UUID.\<close>

record enqueue_env =
  ee_clock :: "nat \<Rightarrow> go_time"
  ee_compact :: "go_time \<Rightarrow> string"
  ee_uuid :: string
  ee_save :: fate
  ee_push :: fate

definition new_job_id :: "enqueue_env \<Rightarrow> string" where
  "new_job_id ee = ''job_'' @ ee_compact ee (ee_clock ee 0) @ ''_'' @ take 8 (ee_uuid ee)"

definition pending_job :: "string \<Rightarrow> string \<Rightarrow> ChatRequest \<Rightarrow> go_time \<Rightarrow> go_time \<Rightarrow> BatchJob" where
  "pending_job jobID clientID req created updated =
     \<lparr>job_id = jobID, job_client_id = clientID, job_status = job_status_string JobPending, job_request = Some req,
      job_response = None, job_error = None, job_created_at = created, job_updated_at = updated\<rparr>"

definition Enqueue ::
  "queue_json \<Rightarrow> time_format \<Rightarrow> enqueue_env \<Rightarrow> ChatRequest \<Rightarrow> string \<Rightarrow> job_redis \<Rightarrow> (error_text + string) \<times> job_redis" where
  "Enqueue qj tf ee req clientID r =
     (let jobID = new_job_id ee; job = pending_job jobID clientID req (ee_clock ee 1) (ee_clock ee 2) in
      case JobStore_Save qj tf (ee_save ee) (ee_clock ee 3) job r of
        (Some e, r1) \<Rightarrow> (Inl ((bytes [74, 111, 98, 32, 236, 160, 128, 236, 158, 165, 32, 236, 139, 164, 237, 140, 168, 58, 32]) @ e), r1)
      | (None, r1) \<Rightarrow>
          (case qj_request qj req of
             Inl e \<Rightarrow> (Inl ((bytes [236, 154, 148, 236, 178, 173, 32, 236, 167, 129, 235, 160, 172, 237, 153, 148, 32, 236, 139, 164, 237, 140, 168, 58, 32]) @ e), r1)
           | Inr reqJSON \<Rightarrow>
               (case run_cmds (ee_push ee) [lpush (qj_item qj jobID reqJSON)] r1 of
                  (Some e, r2) \<Rightarrow> (Inl ((bytes [237, 129, 144, 32, 235, 147, 177, 235, 161, 157, 32, 236, 139, 164, 237, 140, 168, 58, 32]) @ e), r2)
                | (None, r2) \<Rightarrow> (Inr jobID, r2))))"

subsection \<open>Facts\<close>

lemma run_cmds_Fine [simp]: "run_cmds Fine cmds r = (None, fold (\<lambda>c. c) cmds r)"
  by (simp add: run_cmds_def)

lemma run_cmds_None: "run_cmds f cmds r = (None, r') \<longleftrightarrow> f = Fine \<and> r' = fold (\<lambda>c. c) cmds r"
  by (auto simp: run_cmds_def split: fate.splits)

lemma run_cmds_invariant:
  assumes "\<And>c r. c \<in> set cmds \<Longrightarrow> g (c r) = g r"
  shows "g (snd (run_cmds f cmds r)) = g r"
proof -
  have "g (fold (\<lambda>c. c) cs r) = g r" if "set cs \<subseteq> set cmds" for cs r
    using that by (induction cs arbitrary: r) (auto simp: assms)
  then show ?thesis using set_take_subset [of _ cmds] by (auto simp: run_cmds_def split: fate.split)
qed

lemma hash_cmds_keep [simp]:
  "jr_queue (hset now k fs r) = jr_queue r" "jr_processing (hset now k fs r) = jr_processing r"
  "jr_queue (expire now k t r) = jr_queue r" "jr_processing (expire now k t r) = jr_processing r"
  "jr_queue (zadd s m r) = jr_queue r" "jr_hashes (zadd s m r) = jr_hashes r"
  "jr_queue (zrem m r) = jr_queue r" "jr_hashes (zrem m r) = jr_hashes r"
  "jr_hashes (lpush x r) = jr_hashes r" "jr_processing (lpush x r) = jr_processing r"
  by (auto simp: hset_def expire_def zadd_def zrem_def lpush_def split: option.split prod.split)

lemma Save_keeps [simp]:
  "jr_queue (snd (JobStore_Save qj tf f now job r)) = jr_queue r"
  "jr_processing (snd (JobStore_Save qj tf f now job r)) = jr_processing r"
  unfolding JobStore_Save_def by (rule run_cmds_invariant, auto)+

lemma UpdateStatus_keeps [simp]:
  "jr_queue (snd (UpdateStatus tf f now jobID st r)) = jr_queue r"
  "jr_processing (snd (UpdateStatus tf f now jobID st r)) = jr_processing r"
  unfolding UpdateStatus_def by (rule run_cmds_invariant, auto)+

lemma MarkProcessing_queue [simp]: "jr_queue (snd (MarkProcessing tf f1 f2 now jobID r)) = jr_queue r"
proof -
  obtain e r1 where u: "UpdateStatus tf f1 now jobID JobProcessing r = (e, r1)" by (metis surj_pair)
  then have "jr_queue r1 = jr_queue r" using UpdateStatus_keeps(1) [of tf f1 now jobID JobProcessing r] by simp
  then show ?thesis
    using u run_cmds_invariant [of "[zadd (unix_seconds now) jobID]" jr_queue f2 r1]
    by (auto simp: MarkProcessing_def split: option.split)
qed

lemma ClearProcessing_keeps [simp]:
  "jr_queue (ClearProcessing f jobID r) = jr_queue r" "jr_hashes (ClearProcessing f jobID r) = jr_hashes r"
  unfolding ClearProcessing_def by (rule run_cmds_invariant, auto)+

lemma hash_at_hset [simp]:
  "hash_at now k (hset now k fs r) =
     (case hash_at now k r of Some (h, e) \<Rightarrow> Some (h ++ map_of fs, e) | None \<Rightarrow> Some (map_of fs, None))"
  by (auto simp: hset_def hash_at_def live_def split: option.split prod.split)

lemma jobTTL_pos: "0 < jobTTL"
  by (simp add: jobTTL_def second_def)

lemma saved_hash:
  assumes "JobStore_Save qj tf f t job r = (None, r')" and "t \<le> u" and "u < t + jobTTL"
  shows "\<exists>h. hash_at u (job_key (job_id job)) r' = Some (h ++ map_of (job_fields qj tf job), Some (t + jobTTL))"
proof -
  let ?k = "job_key (job_id job)"
  have r': "r' = expire t ?k jobTTL (hset t ?k (job_fields qj tf job) r)"
    using assms(1) by (simp add: JobStore_Save_def run_cmds_None)
  obtain h e where "hash_at t ?k (hset t ?k (job_fields qj tf job) r) = Some (h ++ map_of (job_fields qj tf job), e)"
  proof (cases "hash_at t ?k r")
    case None
    then show ?thesis using that [of Map.empty None] by simp
  qed (use that in auto)
  then show ?thesis
    using assms(3) by (auto simp: r' expire_def hash_at_def live_def)
qed

lemma field_of_saved:
  "field (h ++ map_of (job_fields qj tf job)) ''job_id'' = job_id job"
  "field (h ++ map_of (job_fields qj tf job)) ''client_id'' = job_client_id job"
  "field (h ++ map_of (job_fields qj tf job)) ''status'' = job_status job"
  "field (h ++ map_of (job_fields qj tf job)) ''request'' = marshal_ptr (qj_request qj) (job_request job)"
  "field (h ++ map_of (job_fields qj tf job)) ''response'' = marshal_ptr (qj_response qj) (job_response job)"
  "field (h ++ map_of (job_fields qj tf job)) ''error'' = (case job_error job of None \<Rightarrow> [] | Some e \<Rightarrow> e)"
  "field (h ++ map_of (job_fields qj tf job)) ''created_at'' = tf_format tf (job_created_at job)"
  "field (h ++ map_of (job_fields qj tf job)) ''updated_at'' = tf_format tf (job_updated_at job)"
  by (simp_all add: field_def job_fields_def map_add_def)

text \<open>JSON gives back what it was given.\<close>

definition reads_back :: "('a \<Rightarrow> error_text + string) \<Rightarrow> (string \<Rightarrow> error_text + 'a) \<Rightarrow> 'a option \<Rightarrow> bool" where
  "reads_back write parse v \<longleftrightarrow>
     (case v of None \<Rightarrow> True | Some x \<Rightarrow> (\<exists>s. write x = Inr s \<and> s \<noteq> [] \<and> s \<noteq> ''null'' \<and> parse s = Inr x))"

lemma read_marshal_ptr: "reads_back write parse v \<Longrightarrow> read_ptr parse (marshal_ptr write v) = v"
  by (auto simp: reads_back_def read_ptr_def marshal_ptr_def split: option.splits)

lemma read_format_time: "time_format_ok tf \<Longrightarrow> read_time tf (tf_format tf t) = whole_seconds t"
  by (simp add: read_time_def time_format_ok_def)

definition in_seconds :: "BatchJob \<Rightarrow> BatchJob" where
  "in_seconds job = job\<lparr>job_created_at := whole_seconds (job_created_at job), job_updated_at := whole_seconds (job_updated_at job)\<rparr>"

text \<open>What a reader gets of a saved job, whatever JSON does.\<close>

definition stored_view :: "queue_json \<Rightarrow> BatchJob \<Rightarrow> BatchJob" where
  "stored_view qj job = in_seconds (job
     \<lparr>job_request := read_ptr (qj_read_request qj) (marshal_ptr (qj_request qj) (job_request job)),
      job_response := read_ptr (qj_read_response qj) (marshal_ptr (qj_response qj) (job_response job)),
      job_error := (if job_error job = Some [] then None else job_error job)\<rparr>)"

lemma stored_view_simps [simp]:
  "job_id (stored_view qj job) = job_id job" "job_client_id (stored_view qj job) = job_client_id job"
  "job_status (stored_view qj job) = job_status job"
  "job_response (stored_view qj job) = read_ptr (qj_read_response qj) (marshal_ptr (qj_response qj) (job_response job))"
  "job_error (stored_view qj job) = (if job_error job = Some [] then None else job_error job)"
  "job_created_at (stored_view qj job) = whole_seconds (job_created_at job)"
  by (simp_all add: stored_view_def in_seconds_def)

lemma saved_view:
  assumes "time_format_ok tf" and "JobStore_Save qj tf f t job r = (None, r')" and "t \<le> u" and "u < t + jobTTL"
  shows "JobStore_Get qj tf None u (job_id job) r' = Inr (stored_view qj job)"
proof -
  obtain h where h: "hash_at u (job_key (job_id job)) r' = Some (h ++ map_of (job_fields qj tf job), Some (t + jobTTL))"
    using saved_hash [OF assms(2-4)] by blast
  have "dom (h ++ map_of (job_fields qj tf job)) \<noteq> {}" by (simp add: job_fields_def)
  then show ?thesis
    using h assms(1)
    by (auto simp: JobStore_Get_def hgetall_def job_of_hash_def field_of_saved read_format_time stored_view_def in_seconds_def
        split: option.split)
qed

lemma saved_job:
  assumes "time_format_ok tf" and "reads_back (qj_request qj) (qj_read_request qj) (job_request job)"
    and "reads_back (qj_response qj) (qj_read_response qj) (job_response job)" and "job_error job \<noteq> Some []"
    and "JobStore_Save qj tf f t job r = (None, r')" and "t \<le> u" and "u < t + jobTTL"
  shows "JobStore_Get qj tf None u (job_id job) r' = Inr (in_seconds job)"
  using saved_view [OF assms(1,5,6,7)] assms(2,3,4) by (simp add: stored_view_def read_marshal_ptr)

text \<open>
  C5. A saved job reads back.  After a save that succeeded, and until its retention of 24 hours is over,
  the job is found under its id exactly as it was saved, with its times cut to whole seconds, whatever was
  stored under the id before.
\<close>

theorem saved_job_reads_back:
  assumes "time_format_ok tf" and "reads_back (qj_request qj) (qj_read_request qj) (job_request job)"
    and "reads_back (qj_response qj) (qj_read_response qj) (job_response job)" and "job_error job \<noteq> Some []"
    and "JobStore_Save qj tf f t job r = (None, r')" and "t \<le> u" and "u < t + jobTTL"
  shows "JobStore_Get qj tf None u (job_id job) r' = Inr (in_seconds job)"
  by (rule saved_job [OF assms])

text \<open>A concrete JSON that knows one request and one response.\<close>

definition batch_request :: ChatRequest where
  "batch_request = \<lparr>req_provider = ''gpt'', req_model = ''m'', req_messages = [\<lparr>msg_role = ''user'', msg_content = ''hello''\<rparr>],
     req_options = \<lparr>opt_temperature = None, opt_max_tokens = None, opt_top_p = None, opt_stream = False,
       opt_search_grounding = False\<rparr>,
     req_fallback = [], req_fallback_policy = [], req_project = [], req_task = [], req_prompt_vars = [],
     req_metadata = \<lparr>rm_client_id = [], rm_request_id = []\<rparr>\<rparr>"

definition batch_response :: ChatResponse where
  "batch_response = \<lparr>resp_id = ''1'', resp_provider = ''gpt'', resp_model = ''m'', resp_content = ''hi'',
     resp_usage = zero_usage, resp_metadata = zero_metadata\<rparr>"

definition sample_queue_json :: queue_json where
  "sample_queue_json =
     \<lparr>qj_request = (\<lambda>r. if r = batch_request then Inr ''{q}'' else Inl ''unknown''),
      qj_read_request = (\<lambda>s. if s = ''{q}'' then Inr batch_request else Inl ''bad''),
      qj_response = (\<lambda>r. if r = batch_response then Inr ''{a}'' else Inl ''unknown''),
      qj_read_response = (\<lambda>s. if s = ''{a}'' then Inr batch_response else Inl ''bad''),
      qj_item = (\<lambda>j q. j @ CHR '' '' # q),
      qj_read_item = (\<lambda>s. Inr (takeWhile (\<lambda>c. c \<noteq> CHR '' '') s, tl (dropWhile (\<lambda>c. c \<noteq> CHR '' '') s)))\<rparr>"

definition empty_jobs :: job_redis where
  "empty_jobs = \<lparr>jr_hashes = Map.empty, jr_queue = [], jr_processing = []\<rparr>"

lemma sample_reads_back:
  "reads_back (qj_request sample_queue_json) (qj_read_request sample_queue_json) (Some batch_request)"
  "reads_back (qj_response sample_queue_json) (qj_read_response sample_queue_json) (Some batch_response)"
  by (simp_all add: reads_back_def sample_queue_json_def)

lemma reads_back_None [simp]: "reads_back f g None"
  by (simp add: reads_back_def)

theorem saved_job_reads_back_witness:
  defines "job \<equiv> pending_job ''j1'' ''app'' batch_request (5 * second + 7) (6 * second)"
  shows "JobStore_Get sample_queue_json sample_time None (9 * second) ''j1''
     (snd (JobStore_Save sample_queue_json sample_time Fine (7 * second) job empty_jobs))
    = Inr (job\<lparr>job_created_at := 5 * second\<rparr>)"
proof -
  obtain r' where save: "JobStore_Save sample_queue_json sample_time Fine (7 * second) job empty_jobs = (None, r')"
    by (simp add: JobStore_Save_def)
  have "JobStore_Get sample_queue_json sample_time None (9 * second) (job_id job) r' = Inr (in_seconds job)"
    by (rule saved_job_reads_back [OF sample_time_ok _ _ _ save])
      (simp_all add: job_def pending_job_def sample_reads_back jobTTL_def second_def)
  then show ?thesis using save by (simp add: job_def pending_job_def in_seconds_def whole_seconds_def second_def)
qed

subsection \<open>The queue\<close>

text \<open>
  What producers and workers rely on: a queue whose contents only pushing and popping change.  Under its laws
  every item is handed out at most once, and in the order of arrival.
\<close>

locale work_queue =
  fixes push :: "'i \<Rightarrow> 's \<Rightarrow> 's"
    and pop :: "'s \<Rightarrow> ('i \<times> 's) option"
    and waiting :: "'s \<Rightarrow> 'i list"
  assumes waiting_push: "waiting (push x s) = waiting s @ [x]"
    and pop_None: "pop s = None \<longleftrightarrow> waiting s = []"
    and pop_Some: "pop s = Some (x, s') \<Longrightarrow> waiting s = x # waiting s'"
begin

inductive queue_run :: "'s \<Rightarrow> 'i list \<Rightarrow> 'i list \<Rightarrow> 's \<Rightarrow> bool" for s0 where
  start: "queue_run s0 [] [] s0"
| pushed: "queue_run s0 ins outs s \<Longrightarrow> queue_run s0 (ins @ [x]) outs (push x s)"
| popped: "queue_run s0 ins outs s \<Longrightarrow> pop s = Some (x, s') \<Longrightarrow> queue_run s0 ins (outs @ [x]) s'"
| other: "queue_run s0 ins outs s \<Longrightarrow> waiting s' = waiting s \<Longrightarrow> queue_run s0 ins outs s'"

lemma queue_run_fifo: "queue_run s0 ins outs s \<Longrightarrow> waiting s0 @ ins = outs @ waiting s"
proof (induction rule: queue_run.induct)
  case (popped ins outs s x s')
  then show ?case using pop_Some [of s x s'] by simp
qed (simp_all add: waiting_push)

lemma next_item: "queue_run s0 ins outs s \<Longrightarrow> length outs < length (waiting s0 @ ins) \<Longrightarrow>
  \<exists>s'. pop s = Some ((waiting s0 @ ins) ! length outs, s')"
proof -
  assume run: "queue_run s0 ins outs s" and more: "length outs < length (waiting s0 @ ins)"
  have eq: "waiting s0 @ ins = outs @ waiting s" using queue_run_fifo [OF run] .
  then have "waiting s \<noteq> []" using more by auto
  then obtain x s' where p: "pop s = Some (x, s')" using pop_None [of s] by (cases "pop s") auto
  then have "(waiting s0 @ ins) ! length outs = x" using eq pop_Some [OF p] by simp
  then show "\<exists>s'. pop s = Some ((waiting s0 @ ins) ! length outs, s')" using p by blast
qed

end

definition queued :: "job_redis \<Rightarrow> string list" where
  "queued r = rev (jr_queue r)"

interpretation jobq: work_queue lpush brpop queued
proof unfold_locales
  fix s s' :: job_redis and x
  assume "brpop s = Some (x, s')"
  then have "jr_queue s = jr_queue s' @ [x]" by (auto simp: brpop_def split: if_splits)
  then show "queued s = x # queued s'" by (simp add: queued_def)
qed (simp_all add: lpush_def brpop_def queued_def)

end
