(* ===== verification/JobQueue.thy ===== *)
theory JobQueue
  imports JobStore Fastest
begin

text \<open>
  \<^verbatim>\<open>internal/queue/consumer.go\<close>: a worker's handling of a batch item with its retries, the loop around it, and
  the reaper of jobs that stay in work too long.  Handling is cut in three where other goroutines can come
  between: up to marking the job as in work, the executions, and the final save.  The clock is the one of the
  router's world; it moves while a request is executed and while a worker waits.
\<close>

subsection \<open>Retries\<close>

definition maxRetries :: nat where
  "maxRetries = 3"

definition isRetryableError :: "error_text \<Rightarrow> bool" where
  "isRetryableError err =
     (list_ex (contains (to_lower err))
        [''timeout'', ''deadline exceeded'', ''connection refused'', ''connection reset'', ''network is unreachable'',
         ''eof'', ''internal server error'', ''bad gateway'', ''service unavailable'', ''gateway timeout'',
         ''rate limit'', ''too many requests''] \<or>
      list_ex (contains err) [''status: 429'', ''status:429'', ''status code: 429'', ''429 ''])"

record 'p Consumer =
  co_registry :: "'p Registry"
  co_router :: bool
  co_workers :: int

definition NewConsumer :: "'p Registry \<Rightarrow> bool \<Rightarrow> int \<Rightarrow> 'p Consumer" where
  "NewConsumer registry has_router workers =
     \<lparr>co_registry = registry, co_router = has_router, co_workers = (if workers \<le> 0 then 3 else workers)\<rparr>"

text \<open>
  \<open>ce_cancel\<close>: when \<^verbatim>\<open>Stop\<close> cancels the context, if it does; \<open>ce_pick\<close>: whether a wait that ends at that very
  moment sees the cancellation.
\<close>

record work_env =
  ce_json :: queue_json
  ce_time :: time_format
  ce_cancel :: "go_time option"
  ce_fail_get :: "error_text option"
  ce_mark1 :: fate
  ce_mark2 :: fate
  ce_save :: fate
  ce_clear :: fate

record 'p consume_env = work_env +
  ce_env :: "'p env"
  ce_sched :: "nat \<Rightarrow> label list"
  ce_pick :: "nat \<Rightarrow> bool"

definition consumer_ctx :: "'z work_env_scheme \<Rightarrow> context_err" where
  "consumer_ctx ce = WithCancel Background (ce_cancel ce)"

definition backoff :: "nat \<Rightarrow> duration" where
  "backoff attempt = 2 ^ (attempt - 1) * second"

text \<open>The wait before a retry: \<^const>\<open>True\<close> when the context ends it.\<close>

definition wait_backoff :: "('p, 'z) consume_env_scheme \<Rightarrow> nat \<Rightarrow> 'p world \<Rightarrow> bool \<times> 'p world" where
  "wait_backoff ce attempt w =
     (let over = w_now w + backoff attempt in
      case ce_cancel ce of
        None \<Rightarrow> (False, w\<lparr>w_now := over\<rparr>)
      | Some m \<Rightarrow>
          if m < over \<or> (m = over \<and> ce_pick ce attempt) then (True, w\<lparr>w_now := max (w_now w) m\<rparr>)
          else (False, w\<lparr>w_now := over\<rparr>))"

text \<open>One execution; \<open>Inl\<close>: there is no such provider and no router.\<close>

definition exec_job ::
  "'p Consumer \<Rightarrow> ('p, 'z) consume_env_scheme \<Rightarrow> nat \<Rightarrow> ChatRequest \<Rightarrow> 'p world
   \<Rightarrow> ((error_text + (error_text + ChatResponse)) \<times> 'p world) option" where
  "exec_job co ce attempt req w =
     (if co_router co
      then map_option (\<lambda>((r, attempts), w'). (Inr r, w')) (Execute (ce_env ce) (ce_sched ce attempt) (consumer_ctx ce) req w)
      else (case Registry_Get (co_registry co) (req_provider req) of
              Inl err \<Rightarrow> Some (Inl err, w)
            | Inr p \<Rightarrow> map_option (\<lambda>(r, w'). (Inr r, w')) (env_chat (ce_env ce) p (consumer_ctx ce) req w)))"

text \<open>
  The loop: \<open>rest\<close> counts the turns that remain.  Its result is the response, or the error the job fails with.
\<close>

fun run_attempts ::
  "'p Consumer \<Rightarrow> ('p, 'z) consume_env_scheme \<Rightarrow> ChatRequest \<Rightarrow> nat \<Rightarrow> nat \<Rightarrow> error_text \<Rightarrow> 'p world
   \<Rightarrow> ((error_text + ChatResponse) \<times> 'p world) option" where
  "run_attempts co ce req attempt 0 lastErr w = Some (Inl lastErr, w)"
| "run_attempts co ce req attempt (Suc rest) lastErr w =
     (case (if attempt > 0 then wait_backoff ce attempt w else (False, w)) of
        (True, w1) \<Rightarrow> Some (Inl lastErr, w1)
      | (False, w1) \<Rightarrow>
          (case exec_job co ce attempt req w1 of
             None \<Rightarrow> None
           | Some (Inl err, w2) \<Rightarrow> Some (Inl err, w2)
           | Some (Inr (Inr resp), w2) \<Rightarrow> Some (Inr resp, w2)
           | Some (Inr (Inl err), w2) \<Rightarrow>
               if isRetryableError err then run_attempts co ce req (Suc attempt) rest err w2
               else Some (Inl err, w2)))"

subsection \<open>One item\<close>

definition failed_job :: "string \<Rightarrow> string \<Rightarrow> go_time \<Rightarrow> error_text \<Rightarrow> go_time \<Rightarrow> BatchJob" where
  "failed_job jobID clientID created err now =
     \<lparr>job_id = jobID, job_client_id = clientID, job_status = job_status_string JobFailed, job_request = None,
      job_response = None, job_error = Some err, job_created_at = created, job_updated_at = now\<rparr>"

definition completed_job :: "string \<Rightarrow> string \<Rightarrow> ChatRequest \<Rightarrow> ChatResponse \<Rightarrow> go_time \<Rightarrow> go_time \<Rightarrow> BatchJob" where
  "completed_job jobID clientID req resp created now =
     \<lparr>job_id = jobID, job_client_id = clientID, job_status = job_status_string JobCompleted, job_request = Some req,
      job_response = Some resp, job_error = None, job_created_at = created, job_updated_at = now\<rparr>"

definition failJob ::
  "'z work_env_scheme \<Rightarrow> string \<Rightarrow> string \<Rightarrow> go_time \<Rightarrow> error_text \<Rightarrow> go_time \<Rightarrow> job_redis \<Rightarrow> job_redis" where
  "failJob ce jobID clientID created err now r =
     ClearProcessing (under_ctx (consumer_ctx ce) now (ce_clear ce)) jobID
       (snd (JobStore_Save (ce_json ce) (ce_time ce) (under_ctx (consumer_ctx ce) now (ce_save ce)) now
               (failed_job jobID clientID created err now) r))"

datatype begun = ItemDropped | ItemUnreadable string error_text | ItemSkipped | ItemReady string ChatRequest string go_time

definition final_status :: "string \<Rightarrow> bool" where
  "final_status s \<longleftrightarrow> s = job_status_string JobCompleted \<or> s = job_status_string JobFailed"

definition fail_under :: "context_err \<Rightarrow> go_time \<Rightarrow> error_text option \<Rightarrow> error_text option" where
  "fail_under ctx now f = (case ctx now of Some e \<Rightarrow> Some e | None \<Rightarrow> f)"

definition begin_item :: "'z work_env_scheme \<Rightarrow> string \<Rightarrow> go_time \<Rightarrow> job_redis \<Rightarrow> begun \<times> job_redis" where
  "begin_item ce itemJSON now r =
     (case qj_read_item (ce_json ce) itemJSON of
        Inl _ \<Rightarrow> (ItemDropped, r)
      | Inr (jobID, request) \<Rightarrow>
          (case qj_read_request (ce_json ce) request of
             Inl err \<Rightarrow> (ItemUnreadable jobID err, r)
           | Inr req \<Rightarrow>
               (let ctx = consumer_ctx ce;
                    marked = snd (MarkProcessing (ce_time ce) (under_ctx ctx now (ce_mark1 ce)) (under_ctx ctx now (ce_mark2 ce)) now jobID r)
                in case JobStore_Get (ce_json ce) (ce_time ce) (fail_under ctx now (ce_fail_get ce)) now jobID r of
                     Inr existing \<Rightarrow>
                       if final_status (job_status existing) then (ItemSkipped, r)
                       else (ItemReady jobID req (job_client_id existing) (job_created_at existing), marked)
                   | Inl _ \<Rightarrow> (ItemReady jobID req [] now, marked))))"

definition end_item ::
  "'z work_env_scheme \<Rightarrow> string \<Rightarrow> ChatRequest \<Rightarrow> string \<Rightarrow> go_time \<Rightarrow> error_text + ChatResponse \<Rightarrow> go_time
   \<Rightarrow> job_redis \<Rightarrow> job_redis" where
  "end_item ce jobID req clientID created result now r =
     (case result of
        Inl err \<Rightarrow> failJob ce jobID clientID created err now r
      | Inr resp \<Rightarrow>
          (case JobStore_Save (ce_json ce) (ce_time ce) (under_ctx (consumer_ctx ce) now (ce_save ce)) now
                  (completed_job jobID clientID req resp created now) r of
             (Some e, r1) \<Rightarrow> r1
           | (None, r1) \<Rightarrow> ClearProcessing (under_ctx (consumer_ctx ce) now (ce_clear ce)) jobID r1))"

definition processItem ::
  "'p Consumer \<Rightarrow> ('p, 'z) consume_env_scheme \<Rightarrow> string \<Rightarrow> 'p world \<Rightarrow> job_redis \<Rightarrow> ('p world \<times> job_redis) option" where
  "processItem co ce itemJSON w r =
     (case begin_item ce itemJSON (w_now w) r of
        (ItemDropped, r1) \<Rightarrow> Some (w, r1)
      | (ItemSkipped, r1) \<Rightarrow> Some (w, r1)
      | (ItemUnreadable jobID err, r1) \<Rightarrow> Some (w, failJob ce jobID [] (w_now w) err (w_now w) r1)
      | (ItemReady jobID req clientID created, r1) \<Rightarrow>
          (case run_attempts co ce req 0 (Suc maxRetries) [] w of
             None \<Rightarrow> None
           | Some (result, w1) \<Rightarrow> Some (w1, end_item ce jobID req clientID created result (w_now w1) r1)))"

text \<open>
  One turn of a worker's loop; \<^const>\<open>False\<close>: the worker ends.  \<^verbatim>\<open>BRPOP\<close> waits for five seconds; when it breaks,
  the item may have been taken all the same.
\<close>

definition worker_turn ::
  "'p Consumer \<Rightarrow> ('p, 'z) consume_env_scheme \<Rightarrow> fate \<Rightarrow> 'p world \<Rightarrow> job_redis \<Rightarrow> (bool \<times> 'p world \<times> job_redis) option" where
  "worker_turn co ce f w r =
     (if consumer_ctx ce (w_now w) \<noteq> None then Some (False, w, r)
      else (case f of
              Broken e n \<Rightarrow>
                Some (True, w\<lparr>w_now := w_now w + second\<rparr>,
                      (case brpop r of Some (item, r1) \<Rightarrow> if n > 0 then r1 else r | None \<Rightarrow> r))
            | Fine \<Rightarrow>
                (case brpop r of
                   None \<Rightarrow> Some (True, w\<lparr>w_now := w_now w + 5 * second\<rparr>, r)
                 | Some (item, r1) \<Rightarrow> map_option (\<lambda>(w', r'). (True, w', r')) (processItem co ce item w r1))))"

subsection \<open>The reaper\<close>

definition staleThreshold :: duration where
  "staleThreshold = 10 * 60 * second"

definition reaped_error :: error_text where
  "reaped_error = (bytes [112, 114, 111, 99, 101, 115, 115, 105, 110, 103, 32, 237, 131, 128, 236, 158, 132, 236, 149, 132, 236, 155, 131, 32, 40, 49, 48, 109, 48, 115, 32, 236, 180, 136, 234, 179, 188, 41])"

definition reap_job :: "'z work_env_scheme \<Rightarrow> go_time \<Rightarrow> string \<Rightarrow> job_redis \<Rightarrow> job_redis" where
  "reap_job ce now jobID r =
     (case JobStore_Get (ce_json ce) (ce_time ce) (fail_under (consumer_ctx ce) now (ce_fail_get ce)) now jobID r of
        Inr existing \<Rightarrow> failJob ce jobID (job_client_id existing) (job_created_at existing) reaped_error now r
      | Inl _ \<Rightarrow> failJob ce jobID [] zero_time reaped_error now r)"

definition reaper_turn :: "'z work_env_scheme \<Rightarrow> error_text option \<Rightarrow> go_time \<Rightarrow> job_redis \<Rightarrow> job_redis" where
  "reaper_turn ce fail now r =
     (case StaleProcessingJobs (fail_under (consumer_ctx ce) now fail) now staleThreshold r of
        Inl _ \<Rightarrow> r
      | Inr staleIDs \<Rightarrow> fold (reap_job ce now) staleIDs r)"

subsection \<open>When Redis works and nobody stops the consumer\<close>

definition healthy :: "'z work_env_scheme \<Rightarrow> bool" where
  "healthy ce \<longleftrightarrow> ce_cancel ce = None \<and> ce_fail_get ce = None \<and> ce_mark1 ce = Fine \<and> ce_mark2 ce = Fine \<and>
     ce_save ce = Fine \<and> ce_clear ce = Fine \<and> time_format_ok (ce_time ce)"

lemma healthy_simps:
  assumes "healthy ce"
  shows "consumer_ctx ce now = None" "under_ctx (consumer_ctx ce) now Fine = Fine" "fail_under (consumer_ctx ce) now None = None"
  using assms by (simp_all add: healthy_def consumer_ctx_def WithCancel_def Background_def under_ctx_def fail_under_def)

lemma final_status_simps [simp]:
  "final_status (job_status_string JobCompleted)" "final_status (job_status_string JobFailed)"
  by (simp_all add: final_status_def)

lemma ClearProcessing_Fine: "jr_processing (ClearProcessing Fine j r) = filter (\<lambda>x. fst x \<noteq> j) (jr_processing r)"
  by (simp add: ClearProcessing_def zrem_def)

lemma Get_ClearProcessing [simp]:
  "JobStore_Get qj tf f u j (ClearProcessing g k r) = JobStore_Get qj tf f u j r"
proof -
  have "hgetall u (job_key j) (ClearProcessing g k r) = hgetall u (job_key j) r" by (simp add: hgetall_def hash_at_def)
  then show ?thesis by (cases f) (simp_all add: JobStore_Get_def)
qed

definition final_job :: "string \<Rightarrow> ChatRequest \<Rightarrow> string \<Rightarrow> go_time \<Rightarrow> error_text + ChatResponse \<Rightarrow> go_time \<Rightarrow> BatchJob" where
  "final_job j req owner created result now =
     (case result of Inl err \<Rightarrow> failed_job j owner created err now | Inr resp \<Rightarrow> completed_job j owner req resp created now)"

lemma final_job_simps [simp]:
  "job_id (final_job j req owner created result now) = j"
  "job_client_id (final_job j req owner created result now) = owner"
  "job_created_at (final_job j req owner created result now) = created"
  "job_status (final_job j req owner created result now) =
     job_status_string (case result of Inl e \<Rightarrow> JobFailed | Inr r \<Rightarrow> JobCompleted)"
  "job_response (final_job j req owner created result now) = (case result of Inl e \<Rightarrow> None | Inr r \<Rightarrow> Some r)"
  "job_error (final_job j req owner created result now) = (case result of Inl e \<Rightarrow> Some e | Inr r \<Rightarrow> None)"
  by (simp_all add: final_job_def failed_job_def completed_job_def split: sum.split)

lemma end_item_saved:
  assumes "healthy ce" and "now \<le> u" and "u < now + jobTTL" and def_r': "r' = end_item ce j req owner created result now r"
  shows "JobStore_Get (ce_json ce) (ce_time ce) None u j r' = Inr (stored_view (ce_json ce) (final_job j req owner created result now))"
    and "j \<notin> fst ` set (jr_processing r')"
proof -
  have fates: "ce_save ce = Fine" "ce_clear ce = Fine" "time_format_ok (ce_time ce)" using assms(1) by (simp_all add: healthy_def)
  obtain r1 where save: "JobStore_Save (ce_json ce) (ce_time ce) Fine now (final_job j req owner created result now) r = (None, r1)"
    by (simp add: JobStore_Save_def)
  have r': "r' = ClearProcessing Fine j r1"
    using save fates healthy_simps [OF assms(1)]
    by (auto simp: def_r' end_item_def failJob_def final_job_def split: sum.split)
  show "JobStore_Get (ce_json ce) (ce_time ce) None u j r' = Inr (stored_view (ce_json ce) (final_job j req owner created result now))"
    using saved_view [OF fates(3) save assms(2,3)] by (simp add: r')
  show "j \<notin> fst ` set (jr_processing r')" by (auto simp: r' ClearProcessing_Fine)
qed

text \<open>
  C2. A batch item is carried to its end, once.  When Redis works and the executions return, handling the
  item of a job that is pending or in work leaves the job completed with the response, or failed with the
  error, of its last execution; the job keeps its owner and its time of creation, is no longer in work, and
  handling the same item again within the retention time changes nothing and calls no provider.
\<close>

theorem item_reaches_final_state:
  assumes "healthy ce" and "qj_read_item (ce_json ce) item = Inr (j, request)" and "qj_read_request (ce_json ce) request = Inr req"
    and "JobStore_Get (ce_json ce) (ce_time ce) None (w_now w) j r = Inr job" and "\<not> final_status (job_status job)"
    and "run_attempts co ce req 0 (Suc maxRetries) [] w = Some (result, w1)"
    and "w_now w1 \<le> u" and "u < w_now w1 + jobTTL"
  shows "\<exists>r' job'. processItem co ce item w r = Some (w1, r') \<and>
    JobStore_Get (ce_json ce) (ce_time ce) None u j r' = Inr job' \<and>
    job_client_id job' = job_client_id job \<and> job_created_at job' = whole_seconds (job_created_at job) \<and>
    (case result of
       Inr resp \<Rightarrow> job_status job' = job_status_string JobCompleted \<and> job_error job' = None \<and>
         job_response job' = read_ptr (qj_read_response (ce_json ce)) (marshal_ptr (qj_response (ce_json ce)) (Some resp))
     | Inl err \<Rightarrow> job_status job' = job_status_string JobFailed \<and> job_response job' = None \<and>
         job_error job' = (if err = [] then None else Some err)) \<and>
    j \<notin> fst ` set (jr_processing r') \<and>
    processItem co ce item (w1\<lparr>w_now := u\<rparr>) r' = Some (w1\<lparr>w_now := u\<rparr>, r')"
proof -
  let ?marked = "snd (MarkProcessing (ce_time ce) (under_ctx (consumer_ctx ce) (w_now w) (ce_mark1 ce))
      (under_ctx (consumer_ctx ce) (w_now w) (ce_mark2 ce)) (w_now w) j r)"
  let ?owner = "job_client_id job" and ?created = "job_created_at job"
  let ?r' = "end_item ce j req ?owner ?created result (w_now w1) ?marked"
  have fg: "ce_fail_get ce = None" using assms(1) by (simp add: healthy_def)
  have "begin_item ce item (w_now w) r = (ItemReady j req ?owner ?created, ?marked)"
    using assms(2-5) fg healthy_simps(3) [OF assms(1)] by (simp add: begin_item_def Let_def)
  then have run: "processItem co ce item w r = Some (w1, ?r')"
    using assms(6) by (simp add: processItem_def)
  note saved = end_item_saved [OF assms(1,7,8) refl, of j req ?owner ?created result ?marked]
  have again: "processItem co ce item (w1\<lparr>w_now := u\<rparr>) ?r' = Some (w1\<lparr>w_now := u\<rparr>, ?r')"
    using saved(1) assms(2,3) fg healthy_simps(3) [OF assms(1)]
    by (cases result) (simp_all add: processItem_def begin_item_def Let_def)
  have none: "read_ptr f (marshal_ptr g None) = None" for f :: "string \<Rightarrow> error_text + ChatResponse" and g
    by (simp add: read_ptr_def marshal_ptr_def)
  show ?thesis
    by (intro exI [of _ ?r'] exI [of _ "stored_view (ce_json ce) (final_job j req ?owner ?created result (w_now w1))"])
      (use run saved again none in \<open>auto split: sum.split\<close>)
qed

subsection \<open>Time\<close>

text \<open>The waits of the turns \<open>attempt\<close>, \<open>attempt + 1\<close>, \<open>\<dots>\<close>.\<close>

fun total_wait :: "nat \<Rightarrow> nat \<Rightarrow> duration" where
  "total_wait attempt 0 = 0"
| "total_wait attempt (Suc rest) = (if attempt > 0 then backoff attempt else 0) + total_wait (Suc attempt) rest"

lemma backoff_pos: "0 < backoff attempt"
  by (simp add: backoff_def second_def)

lemma total_wait_nonneg: "0 \<le> total_wait attempt rest"
  by (induction attempt rest rule: total_wait.induct) (auto simp: add_nonneg_nonneg less_imp_le [OF backoff_pos])

lemma wait_backoff_bound: "wait_backoff ce attempt w = (b, w') \<Longrightarrow> w_now w' \<le> w_now w + backoff attempt"
  using backoff_pos [of attempt] by (auto simp: wait_backoff_def Let_def split: option.splits if_splits)

lemma run_attempts_bound:
  assumes "\<And>attempt w. \<exists>x w'. exec_job co ce attempt req w = Some (x, w') \<and> w_now w' \<le> w_now w + D" and "0 \<le> D"
  shows "\<exists>result w'. run_attempts co ce req attempt rest lastErr w = Some (result, w') \<and>
    w_now w' \<le> w_now w + int rest * D + total_wait attempt rest"
proof (induction rest arbitrary: attempt lastErr w)
  case (Suc rest)
  define turn where "turn = (if attempt > 0 then wait_backoff ce attempt w else (False, w))"
  obtain stop w1 where t: "turn = (stop, w1)" by (cases turn)
  have w1: "w_now w1 \<le> w_now w + (if attempt > 0 then backoff attempt else 0)"
    using t wait_backoff_bound by (auto simp: turn_def split: if_splits)
  have rest0: "0 \<le> int rest * D + total_wait (Suc attempt) rest"
    using assms(2) total_wait_nonneg [of "Suc attempt" rest] by simp
  have sum: "int (Suc rest) * D = D + int rest * D" by (simp add: algebra_simps)
  show ?case
  proof (cases stop)
    case True
    have "w_now w1 \<le> w_now w + int (Suc rest) * D + total_wait attempt (Suc rest)"
      using w1 rest0 assms(2) sum by simp
    then show ?thesis using t True turn_def by simp
  next
    case False
    obtain x w2 where x: "exec_job co ce attempt req w1 = Some (x, w2)" "w_now w2 \<le> w_now w1 + D"
      using assms(1) by blast
    have here: "w_now w2 \<le> w_now w + int (Suc rest) * D + total_wait attempt (Suc rest)"
      using w1 x(2) rest0 sum by simp
    have go: "run_attempts co ce req attempt (Suc rest) lastErr w = (case x of
        Inl err \<Rightarrow> Some (Inl err, w2)
      | Inr (Inr resp) \<Rightarrow> Some (Inr resp, w2)
      | Inr (Inl err) \<Rightarrow> if isRetryableError err then run_attempts co ce req (Suc attempt) rest err w2 else Some (Inl err, w2))"
      using t False x(1) unfolding turn_def by (auto split: sum.split)
    show ?thesis
    proof (cases "\<exists>err. x = Inr (Inl err) \<and> isRetryableError err")
      case True
      then obtain err where e: "x = Inr (Inl err)" "isRetryableError err" by blast
      obtain result w' where "run_attempts co ce req (Suc attempt) rest err w2 = Some (result, w')"
        "w_now w' \<le> w_now w2 + int rest * D + total_wait (Suc attempt) rest"
        using Suc.IH by blast
      then show ?thesis using go e w1 x(2) sum by (intro exI [of _ result] exI [of _ w']) simp
    next
      case False
      then show ?thesis using go here by (auto split: sum.split)
    qed
  qed
qed simp

text \<open>
  C4. A batch job takes bounded time.  If every execution returns within \<open>D\<close>, the handling of a job returns,
  after at most four executions and waits of one, two and four seconds.
\<close>

theorem batch_job_time_bound:
  assumes "\<And>attempt w. \<exists>x w'. exec_job co ce attempt req w = Some (x, w') \<and> w_now w' \<le> w_now w + D" and "0 \<le> D"
  shows "\<exists>result w'. run_attempts co ce req 0 (Suc maxRetries) [] w = Some (result, w') \<and>
    w_now w' \<le> w_now w + 4 * D + 7 * second"
  using run_attempts_bound [OF assms, of 0 "Suc maxRetries" "[]" w]
  by (simp add: maxRetries_def backoff_def eval_nat_numeral)

subsection \<open>The reaper and the workers\<close>

lemma hash_at_other:
  "k' \<noteq> k \<Longrightarrow> hash_at u k' (hset now k fs r) = hash_at u k' r"
  "k' \<noteq> k \<Longrightarrow> hash_at u k' (expire now k t r) = hash_at u k' r"
  by (auto simp: hset_def expire_def hash_at_def split: option.split prod.split)

lemma job_key_inj [simp]: "job_key a = job_key b \<longleftrightarrow> a = b"
  by (simp add: job_key_def)

lemma Get_Save_other:
  assumes "job_id job \<noteq> j"
  shows "JobStore_Get qj tf f u j (snd (JobStore_Save qj tf Fine now job r)) = JobStore_Get qj tf f u j r"
proof -
  have "hgetall u (job_key j) (snd (JobStore_Save qj tf Fine now job r)) = hgetall u (job_key j) r"
    using assms by (simp add: JobStore_Save_def hgetall_def hash_at_other)
  then show ?thesis by (cases f) (simp_all add: JobStore_Get_def)
qed

lemma Get_id_status:
  assumes "healthy ce" and "now \<le> u" and "u < now + jobTTL"
  shows "\<exists>job. JobStore_Get (ce_json ce) (ce_time ce) None u j (failJob ce j owner created err now r) = Inr job \<and>
    job_status job = job_status_string JobFailed"
  using end_item_saved(1) [OF assms refl, of j undefined owner created "Inl err" r]
  by (auto simp: end_item_def)

definition shows_status :: "'z work_env_scheme \<Rightarrow> go_time \<Rightarrow> string \<Rightarrow> JobStatus \<Rightarrow> job_redis \<Rightarrow> bool" where
  "shows_status ce u j st r \<longleftrightarrow>
     (\<exists>job. JobStore_Get (ce_json ce) (ce_time ce) None u j r = Inr job \<and> job_status job = job_status_string st)"

lemma reap_job_other:
  assumes "healthy ce" and "k \<noteq> j"
  shows "shows_status ce u j st (reap_job ce now k r) = shows_status ce u j st r"
proof -
  have f: "ce_save ce = Fine" using assms(1) by (simp add: healthy_def)
  have "JobStore_Get (ce_json ce) (ce_time ce) None u j (failJob ce k owner created err now r)
      = JobStore_Get (ce_json ce) (ce_time ce) None u j r" for owner created err
    using Get_Save_other [of "failed_job k owner created err now" j] assms(2) f healthy_simps [OF assms(1)]
    by (simp add: failJob_def failed_job_def)
  then show ?thesis by (auto simp: reap_job_def shows_status_def split: sum.split)
qed

lemma reap_job_here:
  assumes "healthy ce" and "now \<le> u" and "u < now + jobTTL"
  shows "shows_status ce u j JobFailed (reap_job ce now j r)"
  using Get_id_status [OF assms] by (auto simp: reap_job_def shows_status_def split: sum.split)

lemma reaped:
  assumes "healthy ce" and "now \<le> u" and "u < now + jobTTL"
  shows "j \<in> set ids \<or> shows_status ce u j JobFailed r \<Longrightarrow> shows_status ce u j JobFailed (fold (reap_job ce now) ids r)"
proof (induction ids arbitrary: r)
  case (Cons k ids)
  have "j \<in> set ids \<or> shows_status ce u j JobFailed (reap_job ce now k r)"
  proof (cases "k = j")
    case True
    then show ?thesis using reap_job_here [OF assms] by simp
  next
    case False
    then show ?thesis using Cons.prems reap_job_other [OF assms(1) False] by auto
  qed
  then show ?case using Cons.IH by simp
qed simp

lemma begin_item_marked:
  assumes "healthy ce" and "begin_item ce item t r = (ItemReady j req owner created, r1)"
  shows "(j, unix_seconds t) \<in> set (jr_processing r1)"
proof -
  have "ce_mark1 ce = Fine" "ce_mark2 ce = Fine" using assms(1) by (simp_all add: healthy_def)
  then show ?thesis
    using assms(2) healthy_simps [OF assms(1)]
    by (auto simp: begin_item_def Let_def MarkProcessing_def UpdateStatus_def zadd_def split: sum.splits if_splits)
qed

lemma unix_seconds_mono: "s \<le> t \<Longrightarrow> unix_seconds s \<le> unix_seconds t"
  by (simp add: unix_seconds_def second_def zdiv_mono1)

text \<open>
  C7. A job that runs for ten minutes is failed while it runs, and completes afterwards.  When the reaper
  looks ten minutes after a worker has started on a job, the job is failed, although its worker is alive;
  if the worker then gets its response, the failed job becomes completed.
\<close>

theorem running_job_is_reaped:
  assumes "healthy ce" and "begin_item ce item t0 r0 = (ItemReady j req owner created, r1)"
    and "t0 + staleThreshold \<le> t1" and "t1 \<le> t2" and "t2 < t1 + jobTTL"
  shows "shows_status ce t1 j JobFailed (reaper_turn ce None t1 r1) \<and>
    shows_status ce t2 j JobCompleted (end_item ce j req owner created (Inr resp) t2 (reaper_turn ce None t1 r1))"
proof
  have "unix_seconds t0 \<le> unix_seconds (t1 - staleThreshold)" using assms(3) by (intro unix_seconds_mono) simp
  then have "j \<in> set (zrange_upto (unix_seconds (t1 - staleThreshold)) r1)"
    using begin_item_marked [OF assms(1,2)] by (force simp: zrange_upto_def)
  then show "shows_status ce t1 j JobFailed (reaper_turn ce None t1 r1)"
    using reaped [OF assms(1), of t1 t1 j] jobTTL_pos healthy_simps(3) [OF assms(1)]
    by (simp add: reaper_turn_def StaleProcessingJobs_def)
  show "shows_status ce t2 j JobCompleted (end_item ce j req owner created (Inr resp) t2 (reaper_turn ce None t1 r1))"
    using end_item_saved(1) [OF assms(1) _ _ refl, of t2 t2 j req owner created "Inr resp"] jobTTL_pos
    by (simp add: shows_status_def)
qed

text \<open>
  C8. What a worker finishes after \<^verbatim>\<open>Stop\<close> is lost.  Once the context is cancelled, the end of an item writes
  nothing, whether its result is a response or an error: a job that was marked as in work stays so.
\<close>

theorem stop_loses_running_job:
  assumes "ce_cancel ce = Some m" and "m \<le> now"
  shows "end_item ce j req owner created result now r = r"
proof -
  have "under_ctx (consumer_ctx ce) now f = Broken context_canceled 0" for f
    using assms by (simp add: under_ctx_def consumer_ctx_def WithCancel_def end_context_def Background_def)
  then show ?thesis
    by (simp add: end_item_def failJob_def JobStore_Save_def ClearProcessing_def run_cmds_def split: sum.split)
qed

subsection \<open>Order\<close>

text \<open>
  Any interleaving of submissions, workers that take an item, and every other operation on Redis, with any
  failures.  \<open>pushed\<close> is what submissions have put on the queue, \<open>accepted\<close> the jobs they have reported,
  \<open>taken\<close> what workers got or lost.
\<close>

definition added :: "job_redis \<Rightarrow> job_redis \<Rightarrow> string list" where
  "added r r' = drop (length (queued r)) (queued r')"

inductive batch_run :: "queue_json \<Rightarrow> time_format \<Rightarrow> job_redis \<Rightarrow> string list \<Rightarrow> string list \<Rightarrow> string list \<Rightarrow> bool"
  for qj tf where
  start: "batch_run qj tf empty_jobs [] [] []"
| submitted: "batch_run qj tf r accepted pushed taken \<Longrightarrow> Enqueue qj tf ee req clientID r = (Inr j, r') \<Longrightarrow>
    batch_run qj tf r' (accepted @ [j]) (pushed @ added r r') taken"
| refused: "batch_run qj tf r accepted pushed taken \<Longrightarrow> Enqueue qj tf ee req clientID r = (Inl e, r') \<Longrightarrow>
    batch_run qj tf r' accepted (pushed @ added r r') taken"
| popped: "batch_run qj tf r accepted pushed taken \<Longrightarrow> brpop r = Some (item, r') \<Longrightarrow>
    batch_run qj tf r' accepted pushed (taken @ [item])"
| begun: "batch_run qj tf r accepted pushed taken \<Longrightarrow> begin_item (ce :: work_env) item now r = (x, r') \<Longrightarrow>
    batch_run qj tf r' accepted pushed taken"
| ended: "batch_run qj tf r accepted pushed taken \<Longrightarrow>
    batch_run qj tf (end_item (ce :: work_env) k req owner created result now r) accepted pushed taken"
| reaped: "batch_run qj tf r accepted pushed taken \<Longrightarrow>
    batch_run qj tf (reaper_turn (ce :: work_env) fail now r) accepted pushed taken"

lemma failJob_queue: "jr_queue (failJob ce k owner created err now r) = jr_queue r"
  by (simp add: failJob_def)

lemma Save_queue: "JobStore_Save qj tf f now job r = (e, r1) \<Longrightarrow> jr_queue r1 = jr_queue r"
  using Save_keeps(1) [of qj tf f now job r] by simp

lemma end_item_queue: "jr_queue (end_item ce k req owner created result now r) = jr_queue r"
  by (auto simp: end_item_def failJob_queue dest: Save_queue split: sum.split option.split prod.split)

lemma begin_item_queue: "begin_item ce item now r = (x, r') \<Longrightarrow> jr_queue r' = jr_queue r"
  by (auto simp: begin_item_def Let_def split: sum.splits if_splits)

lemma reaper_turn_queue: "jr_queue (reaper_turn ce fail now r) = jr_queue r"
proof -
  have one: "jr_queue (reap_job ce now k r) = jr_queue r" for k r
    by (simp add: reap_job_def failJob_queue split: sum.split)
  have "jr_queue (fold (reap_job ce now) ks r) = jr_queue r" for ks
    by (induction ks arbitrary: r) (simp_all add: one)
  then show ?thesis by (simp add: reaper_turn_def split: sum.split)
qed

lemma Enqueue_pushes:
  assumes "Enqueue qj tf ee req clientID r = (res, r')"
  shows "\<exists>items. queued r' = queued r @ items \<and>
    (\<forall>j. res = Inr j \<longrightarrow> j = new_job_id ee \<and> (\<exists>q. qj_request qj req = Inr q \<and> items = [qj_item qj j q]))"
proof -
  obtain e r1 where save: "JobStore_Save qj tf (ee_save ee) (ee_clock ee 3)
      (pending_job (new_job_id ee) clientID req (ee_clock ee 1) (ee_clock ee 2)) r = (e, r1)" by (metis surj_pair)
  have q1: "queued r1 = queued r" using Save_queue [OF save] by (simp add: queued_def)
  show ?thesis
  proof (cases "e = None \<and> (\<exists>q. qj_request qj req = Inr q)")
    case False
    then show ?thesis using assms save q1 by (auto simp: Enqueue_def Let_def split: option.splits sum.splits)
  next
    case True
    then obtain q where q: "qj_request qj req = Inr q" "e = None" by blast
    let ?item = "qj_item qj (new_job_id ee) q"
    have push: "queued (lpush x s) = queued s @ [x]" for x s by (rule jobq.waiting_push)
    obtain f r2 where cmds: "run_cmds (ee_push ee) [lpush ?item] r1 = (f, r2)" by (metis surj_pair)
    then have "queued r2 = queued r1 @ [?item] \<or> (f \<noteq> None \<and> r2 = r1)"
      by (auto simp: run_cmds_def push take_Cons' split: fate.splits if_splits)
    then show ?thesis
      using assms save q cmds q1 by (auto simp: Enqueue_def Let_def split: option.splits)
  qed
qed

lemma pushed_run:
  "jobq.queue_run s0 ins outs r \<Longrightarrow> queued r' = queued r @ items \<Longrightarrow> jobq.queue_run s0 (ins @ items) outs r'"
proof (induction items arbitrary: r' rule: rev_induct)
  case Nil
  then show ?case by (auto intro: jobq.queue_run.other)
next
  case (snoc x items)
  let ?r = "r'\<lparr>jr_queue := rev (queued r @ items)\<rparr>"
  have "jobq.queue_run s0 (ins @ items) outs ?r" using snoc by (intro snoc.IH) (simp_all add: queued_def)
  then have "jobq.queue_run s0 ((ins @ items) @ [x]) outs (lpush x ?r)" by (rule jobq.queue_run.pushed)
  moreover have "queued r' = queued (lpush x ?r)" using snoc.prems(2) by (simp add: jobq.waiting_push) (simp add: queued_def)
  ultimately show ?case using jobq.queue_run.other by fastforce
qed

text \<open>The laws of the queue, over the runs of the system.\<close>

lemma batch_run_queue:
  "batch_run qj tf r accepted pushed taken \<Longrightarrow> jobq.queue_run empty_jobs pushed taken r"
proof (induction rule: batch_run.induct)
  case start
  show ?case by (rule jobq.queue_run.start)
next
  case (submitted r accepted pushed taken ee req clientID j r')
  then show ?case using Enqueue_pushes [OF submitted.hyps(2)] pushed_run by (auto simp: added_def)
next
  case (refused r accepted pushed taken ee req clientID e r')
  then show ?case using Enqueue_pushes [OF refused.hyps(2)] pushed_run by (auto simp: added_def)
next
  case (popped r accepted pushed taken item r')
  then show ?case by (intro jobq.queue_run.popped)
next
  case (begun r accepted pushed taken ce item now x r')
  show ?case
    by (rule jobq.queue_run.other [OF begun.IH]) (simp add: queued_def begin_item_queue [OF begun.hyps(2)])
next
  case (ended r accepted pushed taken ce k req owner created result now)
  show ?case by (rule jobq.queue_run.other [OF ended.IH]) (simp add: queued_def end_item_queue)
next
  case (reaped r accepted pushed taken ce fail now)
  show ?case by (rule jobq.queue_run.other [OF reaped.IH]) (simp add: queued_def reaper_turn_queue)
qed

lemma batch_run_accepted:
  "batch_run qj tf r accepted pushed taken \<Longrightarrow> j \<in> set accepted \<Longrightarrow> \<exists>q. qj_item qj j q \<in> set pushed"
proof (induction rule: batch_run.induct)
  case (submitted r accepted pushed taken ee req clientID k r')
  obtain q where "k = new_job_id ee" "added r r' = [qj_item qj k q]"
    using Enqueue_pushes [OF submitted.hyps(2)] by (auto simp: added_def)
  then show ?case using submitted by auto
qed auto

text \<open>
  C3. The queue is fair and hands out each item once.  In every interleaving the items that left the queue
  are the first ones that submissions put on it, in that order, and the rest is still waiting; every job
  that a submission has reported is among them or waiting.
\<close>

theorem batch_items_fifo_once:
  assumes "batch_run qj tf r accepted pushed taken"
  shows "pushed = taken @ queued r \<and> (\<forall>j \<in> set accepted. \<exists>q. qj_item qj j q \<in> set (taken @ queued r))"
proof -
  have "pushed = taken @ queued r"
    using jobq.queue_run_fifo [OF batch_run_queue [OF assms]] by (simp add: queued_def empty_jobs_def)
  then show ?thesis using batch_run_accepted [OF assms] by metis
qed

subsection \<open>An instance\<close>

definition sample_consumer :: "string Consumer" where
  "sample_consumer = NewConsumer (r_registry sample_router) False 0"

definition sample_work :: "string consume_env" where
  "sample_work = \<lparr>ce_json = sample_queue_json, ce_time = sample_time, ce_cancel = None, ce_fail_get = None,
     ce_mark1 = Fine, ce_mark2 = Fine, ce_save = Fine, ce_clear = Fine, ce_env = sample_env, ce_sched = (\<lambda>_. []),
     ce_pick = (\<lambda>_. False)\<rparr>"

definition sample_item :: string where
  "sample_item = ''j1 {q}''"

definition sample_job :: BatchJob where
  "sample_job = pending_job ''j1'' ''app'' batch_request 0 0"

definition sample_jobs :: job_redis where
  "sample_jobs = snd (JobStore_Save sample_queue_json sample_time Fine 0 sample_job empty_jobs)"

lemma sample_work_simps [simp]:
  "ce_json sample_work = sample_queue_json" "ce_time sample_work = sample_time" "ce_env sample_work = sample_env"
  by (simp_all add: sample_work_def)

lemma sample_work_healthy: "healthy sample_work"
  by (simp add: healthy_def sample_work_def sample_time_ok)

lemma sample_item_read:
  "qj_read_item sample_queue_json sample_item = Inr (''j1'', ''{q}'')"
  "qj_read_request sample_queue_json ''{q}'' = Inr batch_request"
  by (simp_all add: sample_queue_json_def sample_item_def)

lemma sample_job_stored:
  "0 \<le> u \<Longrightarrow> u < jobTTL \<Longrightarrow> JobStore_Get sample_queue_json sample_time None u ''j1'' sample_jobs = Inr sample_job"
proof -
  assume u: "0 \<le> u" "u < jobTTL"
  have "JobStore_Save sample_queue_json sample_time Fine 0 sample_job empty_jobs = (None, sample_jobs)"
    by (simp add: sample_jobs_def JobStore_Save_def)
  from saved_job [OF sample_time_ok _ _ _ this, of u] u
  show ?thesis by (simp add: sample_job_def pending_job_def sample_reads_back in_seconds_def whole_seconds_def)
qed

lemma sample_exec:
  "exec_job sample_consumer sample_work k batch_request w = Some (Inr (Inr batch_response), w\<lparr>w_now := w_now w + second\<rparr>)"
  by (simp add: exec_job_def sample_consumer_def NewConsumer_def sample_router_def NewRouter_def Registry_Get_def
      Register_def sample_env_def batch_request_def batch_response_def sample_response_def)

lemma sample_attempts:
  "run_attempts sample_consumer sample_work batch_request 0 (Suc maxRetries) [] sample_world =
     Some (Inr batch_response, sample_world\<lparr>w_now := second\<rparr>)"
  by (simp add: maxRetries_def sample_exec sample_world_def eval_nat_numeral)

theorem item_reaches_final_state_witness:
  "\<exists>r' job'. processItem sample_consumer sample_work sample_item sample_world sample_jobs = Some (sample_world\<lparr>w_now := second\<rparr>, r') \<and>
    JobStore_Get sample_queue_json sample_time None (2 * second) ''j1'' r' = Inr job' \<and>
    job_status job' = job_status_string JobCompleted \<and> job_response job' = Some batch_response \<and> job_client_id job' = ''app''"
proof -
  have "\<exists>r' job'. processItem sample_consumer sample_work sample_item sample_world sample_jobs = Some (sample_world\<lparr>w_now := second\<rparr>, r') \<and>
    JobStore_Get (ce_json sample_work) (ce_time sample_work) None (2 * second) ''j1'' r' = Inr job' \<and>
    job_client_id job' = job_client_id sample_job \<and> job_created_at job' = whole_seconds (job_created_at sample_job) \<and>
    (case Inr batch_response of
       Inr resp \<Rightarrow> job_status job' = job_status_string JobCompleted \<and> job_error job' = None \<and>
         job_response job' = read_ptr (qj_read_response (ce_json sample_work)) (marshal_ptr (qj_response (ce_json sample_work)) (Some resp))
     | Inl err \<Rightarrow> job_status job' = job_status_string JobFailed \<and> job_response job' = None \<and>
         job_error job' = (if err = [] then None else Some err)) \<and>
    ''j1'' \<notin> fst ` set (jr_processing r') \<and>
    processItem sample_consumer sample_work sample_item ((sample_world\<lparr>w_now := second\<rparr>)\<lparr>w_now := 2 * second\<rparr>) r' =
      Some ((sample_world\<lparr>w_now := second\<rparr>)\<lparr>w_now := 2 * second\<rparr>, r')"
    by (rule item_reaches_final_state [where request = "''{q}''", OF sample_work_healthy _ _ _ _ sample_attempts])
      (simp_all add: sample_item_read sample_job_stored sample_job_def pending_job_def sample_world_def jobTTL_def second_def
        final_status_def job_status_string_def)
  then show ?thesis
    using read_marshal_ptr [OF sample_reads_back(2)] by (auto simp: sample_job_def pending_job_def)
qed

theorem batch_job_time_bound_witness:
  "\<exists>result w'. run_attempts sample_consumer sample_work batch_request 0 (Suc maxRetries) [] sample_world = Some (result, w') \<and>
    w_now w' \<le> w_now sample_world + 4 * second + 7 * second"
  by (rule batch_job_time_bound) (simp_all add: sample_exec second_def)

lemma sample_begun: "\<exists>r1. begin_item sample_work sample_item 0 sample_jobs = (ItemReady ''j1'' batch_request ''app'' 0, r1)"
  using sample_job_stored [of 0] healthy_simps [OF sample_work_healthy] jobTTL_pos
  by (simp add: begin_item_def sample_item_read Let_def sample_work_def sample_job_def pending_job_def final_status_def
      job_status_string_def)

theorem running_job_is_reaped_witness:
  "\<exists>r1. begin_item sample_work sample_item 0 sample_jobs = (ItemReady ''j1'' batch_request ''app'' 0, r1) \<and>
    shows_status sample_work (601 * second) ''j1'' JobFailed (reaper_turn sample_work None (601 * second) r1) \<and>
    shows_status sample_work (700 * second) ''j1'' JobCompleted
      (end_item sample_work ''j1'' batch_request ''app'' 0 (Inr batch_response) (700 * second)
        (reaper_turn sample_work None (601 * second) r1))"
proof -
  obtain r1 where b: "begin_item sample_work sample_item 0 sample_jobs = (ItemReady ''j1'' batch_request ''app'' 0, r1)"
    using sample_begun by blast
  show ?thesis
    using b running_job_is_reaped [OF sample_work_healthy b, of "601 * second" "700 * second" batch_response]
    by (simp add: staleThreshold_def jobTTL_def second_def)
qed

text \<open>The job of the instance is in work when the context ends, and is shown so an hour later.\<close>

lemma marked_shown:
  assumes "JobStore_Get qj tf None u j r = Inr job" and "t \<le> u"
  shows "\<exists>job'. JobStore_Get qj tf None u j (snd (MarkProcessing tf Fine Fine t j r)) = Inr job' \<and>
    job_status job' = job_status_string JobProcessing"
proof -
  obtain h e where h: "hash_at u (job_key j) r = Some (h, e)"
    using assms(1) by (cases "hash_at u (job_key j) r") (auto simp: JobStore_Get_def hgetall_def)
  then have "hash_at t (job_key j) r = Some (h, e)"
    using assms(2) by (auto simp: hash_at_def live_def split: option.splits if_splits)
  then show ?thesis
    using h by (auto simp: JobStore_Get_def hgetall_def MarkProcessing_def UpdateStatus_def run_cmds_def hset_def zadd_def
        job_of_hash_def hash_at_def field_def Let_def split: option.splits if_splits)
qed

lemma sample_in_work:
  assumes "begin_item sample_work sample_item 0 sample_jobs = (ItemReady ''j1'' batch_request ''app'' 0, r1)"
  shows "shows_status sample_work (3600 * second) ''j1'' JobProcessing r1"
proof -
  have "r1 = snd (MarkProcessing sample_time Fine Fine 0 ''j1'' sample_jobs)"
    using assms sample_job_stored [of 0] healthy_simps [OF sample_work_healthy] jobTTL_pos
    by (simp add: begin_item_def sample_item_read Let_def sample_work_def sample_job_def pending_job_def final_status_def
        job_status_string_def)
  moreover have "\<exists>job. JobStore_Get sample_queue_json sample_time None (3600 * second) ''j1'' sample_jobs = Inr job"
    using sample_job_stored [of "3600 * second"] by (simp add: jobTTL_def second_def)
  ultimately show ?thesis
    using marked_shown [of sample_queue_json sample_time "3600 * second" "''j1''" sample_jobs _ 0]
    by (auto simp: shows_status_def sample_work_def second_def)
qed

theorem stop_loses_running_job_witness:
  "\<exists>r1. begin_item sample_work sample_item 0 sample_jobs = (ItemReady ''j1'' batch_request ''app'' 0, r1) \<and>
    shows_status sample_work (3600 * second) ''j1'' JobProcessing
      (end_item (sample_work\<lparr>ce_cancel := Some (5 * second)\<rparr>) ''j1'' batch_request ''app'' 0 (Inr batch_response) (6 * second) r1)"
proof -
  obtain r1 where b: "begin_item sample_work sample_item 0 sample_jobs = (ItemReady ''j1'' batch_request ''app'' 0, r1)"
    using sample_begun by blast
  have "end_item (sample_work\<lparr>ce_cancel := Some (5 * second)\<rparr>) ''j1'' batch_request ''app'' 0 (Inr batch_response) (6 * second) r1 = r1"
    by (rule stop_loses_running_job [where m = "5 * second"]) (simp_all add: second_def)
  then show ?thesis using b sample_in_work [OF b] by metis
qed

definition sample_submit :: enqueue_env where
  "sample_submit = \<lparr>ee_clock = (\<lambda>_. 0), ee_compact = (\<lambda>_. ''20250101_000000''), ee_uuid = ''0123456789'', ee_save = Fine,
     ee_push = Fine\<rparr>"

lemma sample_submitted:
  "\<exists>r'. Enqueue sample_queue_json sample_time sample_submit batch_request ''app'' empty_jobs =
     (Inr ''job_20250101_000000_01234567'', r') \<and> queued r' = [qj_item sample_queue_json ''job_20250101_000000_01234567'' ''{q}'']"
proof -
  obtain r1 where s: "JobStore_Save sample_queue_json sample_time Fine 0
      (pending_job (new_job_id sample_submit) ''app'' batch_request 0 0) empty_jobs = (None, r1)" by (simp add: JobStore_Save_def)
  have "jr_queue r1 = []" using Save_queue [OF s] by (simp add: empty_jobs_def)
  then show ?thesis
    using s by (simp add: Enqueue_def Let_def sample_submit_def new_job_id_def sample_queue_json_def queued_def lpush_def)
qed

theorem batch_items_fifo_once_witness:
  "\<exists>r accepted taken. batch_run sample_queue_json sample_time r accepted taken taken \<and> length accepted = 1 \<and> queued r = []"
proof -
  let ?run = "batch_run sample_queue_json sample_time"
  let ?j = "''job_20250101_000000_01234567''"
  obtain r' where e: "Enqueue sample_queue_json sample_time sample_submit batch_request ''app'' empty_jobs = (Inr ?j, r')"
    "queued r' = [qj_item sample_queue_json ?j ''{q}'']"
    using sample_submitted by blast
  have "?run r' [?j] (added empty_jobs r') []"
    using batch_run.submitted [OF batch_run.start e(1)] by simp
  moreover obtain x r2 where "brpop r' = Some (x, r2)"
    using jobq.pop_None [of r'] e(2) by (cases "brpop r'") auto
  ultimately have run: "?run r2 [?j] (added empty_jobs r') [x]" using batch_run.popped by fastforce
  have "added empty_jobs r' = queued r'" by (simp add: added_def queued_def empty_jobs_def)
  then have "queued r2 = [] \<and> added empty_jobs r' = [x]"
    using batch_items_fifo_once [OF run] e(2) by auto
  then show ?thesis using run by (intro exI [of _ r2] exI [of _ "[?j]"] exI [of _ "[x]"]) simp
qed

end
