(* ===== verification/Batch.thy ===== *)
theory Batch
  imports JobQueue Chat
begin

text \<open>
  \<^verbatim>\<open>internal/handler/batch.go\<close>, \<^verbatim>\<open>models.go\<close> and \<^verbatim>\<open>health.go\<close>: submitting a batch job, asking for one, the list of
  models, and the health check.
\<close>

subsection \<open>JSON of jobs\<close>

definition omit_nil :: "string \<Rightarrow> ('a \<Rightarrow> json) \<Rightarrow> 'a option \<Rightarrow> (string \<times> json) list" where
  "omit_nil k f v = (case v of None \<Rightarrow> [] | Some x \<Rightarrow> [(k, f x)])"

definition omit_empty :: "string \<Rightarrow> string \<Rightarrow> (string \<times> json) list" where
  "omit_empty k s = (if s = [] then [] else [(k, JStr s)])"

definition options_json :: "ChatOptions \<Rightarrow> json" where
  "options_json o' = JObj
     (omit_nil ''temperature'' JFloat (opt_temperature o') @ omit_nil ''max_tokens'' JInt (opt_max_tokens o') @
      omit_nil ''top_p'' JFloat (opt_top_p o') @
      (if opt_stream o' then [(''stream'', JBool True)] else []) @
      (if opt_search_grounding o' then [(''search_grounding'', JBool True)] else []))"

definition target_json :: "FallbackTarget \<Rightarrow> json" where
  "target_json t = JObj [(''provider'', JStr (ft_provider t)), (''model'', JStr (ft_model t))]"

definition chat_request_json :: "ChatRequest \<Rightarrow> json" where
  "chat_request_json r = JObj
     ([(''provider'', JStr (req_provider r)), (''model'', JStr (req_model r)),
       (''messages'', json_list (\<lambda>m. JObj [(''role'', JStr (msg_role m)), (''content'', JStr (msg_content m))]) (req_messages r)),
       (''options'', options_json (req_options r))] @
      (if req_fallback r = [] then [] else [(''fallback'', JList (map target_json (req_fallback r)))]) @
      omit_empty ''fallback_policy'' (req_fallback_policy r) @ omit_empty ''project'' (req_project r) @
      omit_empty ''task'' (req_task r) @
      (if req_prompt_vars r = [] then []
       else [(''prompt_variables'', JObj (map (\<lambda>(k, v). (k, JStr v)) (req_prompt_vars r)))]) @
      [(''metadata'', JObj ((''client_id'', JStr (rm_client_id (req_metadata r))) #
          omit_empty ''request_id'' (rm_request_id (req_metadata r))))])"

text \<open>\<open>fmt_time\<close> is how \<^verbatim>\<open>encoding/json\<close> prints a time.\<close>

definition job_json :: "(go_time \<Rightarrow> string) \<Rightarrow> BatchJob \<Rightarrow> json" where
  "job_json fmt_time j = JObj
     ([(''job_id'', JStr (job_id j)), (''client_id'', JStr (job_client_id j)), (''status'', JStr (job_status j))] @
      omit_nil ''request'' chat_request_json (job_request j) @ omit_nil ''response'' chat_response_json (job_response j) @
      omit_nil ''error'' JStr (job_error j) @
      [(''created_at'', JStr (fmt_time (job_created_at j))), (''updated_at'', JStr (fmt_time (job_updated_at j)))])"

subsection \<open>The handlers\<close>

definition Submit ::
  "'p Registry option \<Rightarrow> queue_json \<Rightarrow> time_format \<Rightarrow> enqueue_env \<Rightarrow> error_text \<Rightarrow> error_text + ChatRequest \<Rightarrow> gin \<Rightarrow> job_redis
   \<Rightarrow> http_response \<times> job_redis" where
  "Submit registry qj tf ee invalid decoded c r =
     (case check_chat invalid decoded of
        Inl resp \<Rightarrow> (resp, r)
      | Inr req \<Rightarrow>
          (case (case registry of None \<Rightarrow> None
                 | Some g \<Rightarrow> (case Registry_Get g (req_provider req) of Inl err \<Rightarrow> Some err | Inr p \<Rightarrow> None)) of
             Some err \<Rightarrow> (error_response 400 err, r)
           | None \<Rightarrow>
               (case Enqueue qj tf ee req (GetClientID c) r of
                  (Inl err, r1) \<Rightarrow> (error_response 500 (bytes [235, 176, 176, 236, 185, 152, 32, 235, 147, 177, 235, 161, 157, 32, 236, 139, 164, 237, 140, 168]), r1)
                | (Inr jobID, r1) \<Rightarrow>
                    (json_response 202 [(''job_id'', JStr jobID), (''status'', JStr ''pending''),
                       (''message'', JStr (bytes [235, 176, 176, 236, 185, 152, 32, 236, 154, 148, 236, 178, 173, 236, 157, 180, 32, 235, 147, 177, 235, 161, 157, 235, 144, 152, 236, 151, 136, 236, 138, 181, 235, 139, 136, 235, 139, 164]))], r1))))"

definition GetJob ::
  "queue_json \<Rightarrow> time_format \<Rightarrow> (go_time \<Rightarrow> string) \<Rightarrow> error_text option \<Rightarrow> go_time \<Rightarrow> gin \<Rightarrow> job_redis \<Rightarrow> http_response" where
  "GetJob qj tf fmt_time fail now c r =
     (case JobStore_Get qj tf fail now (gn_param c ''job_id'') r of
        Inl (JobNotFound jobID) \<Rightarrow> error_response 404 (lookup_error_text (JobNotFound jobID))
      | Inl (JobLookupFailed e) \<Rightarrow> error_response 500 (bytes [74, 111, 98, 32, 236, 161, 176, 237, 154, 140, 32, 236, 139, 164, 237, 140, 168])
      | Inr job \<Rightarrow>
          if \<not> IsTrustedNet c \<and> job_client_id job \<noteq> GetClientID c
          then error_response 404 (bytes [74, 111, 98, 236, 157, 132, 32, 236, 176, 190, 236, 157, 132, 32, 236, 136, 152, 32, 236, 151, 134, 236, 138, 181, 235, 139, 136, 235, 139, 164])
          else \<lparr>rs_status = 200, rs_body = job_json fmt_time job\<rparr>)"

definition model_json :: "ModelInfo \<Rightarrow> json" where
  "model_json m = JObj [(''provider'', JStr (mi_provider m)), (''model'', JStr (mi_model m)),
     (''display_name'', JStr (mi_display_name m)), (''available'', JBool (mi_available m))]"

definition Models :: "('p \<Rightarrow> ModelInfo list) \<Rightarrow> string list \<Rightarrow> 'p Registry \<Rightarrow> gin \<Rightarrow> http_response" where
  "Models models_of order registry c =
     (let models = AllModels models_of order registry; providerFilter = gn_query c ''provider'';
          models = (if providerFilter \<noteq> [] then filter (\<lambda>m. mi_provider m = providerFilter) models else models)
      in json_response 200 [(''models'', json_list model_json models)])"

definition Health :: http_response where
  "Health = json_response 200 [(''status'', JStr ''ok'')]"

subsection \<open>A submitted job is found by its job_owner, and by nobody else outside\<close>

text \<open>
  C6. A job is shown to its job_owner only.  Outside the trusted networks the answer to a question for a job is
  either the job, and then the caller is the client who submitted it, or one of three fixed errors, which
  carry nothing of the job.
\<close>

theorem job_is_private:
  assumes "\<not> IsTrustedNet c" and "GetJob qj tf fmt_time fail now c r = resp"
  shows "(\<exists>job. JobStore_Get qj tf fail now (gn_param c ''job_id'') r = Inr job \<and> job_client_id job = GetClientID c \<and>
      resp = \<lparr>rs_status = 200, rs_body = job_json fmt_time job\<rparr>) \<or>
    resp \<in> {error_response 404 (lookup_error_text (JobNotFound (gn_param c ''job_id''))),
            error_response 404 ErrJobNotFound, error_response 500 (bytes [74, 111, 98, 32, 236, 161, 176, 237, 154, 140, 32, 236, 139, 164, 237, 140, 168])}"
proof -
  have "e = JobNotFound (gn_param c ''job_id'')"
    if "JobStore_Get qj tf fail now (gn_param c ''job_id'') r = Inl e" "\<And>x. e \<noteq> JobLookupFailed x" for e
    using that by (auto simp: JobStore_Get_def Let_def split: option.splits if_splits)
  then show ?thesis
    using assms by (auto simp: GetJob_def ErrJobNotFound_def split: sum.splits job_lookup_error.splits if_splits)
qed

definition stranger :: gin where
  "stranger = chat_gin\<lparr>gn_client_id := Some ''other'', gn_param := (\<lambda>_. ''j1'')\<rparr>"

definition job_owner :: gin where
  "job_owner = chat_gin\<lparr>gn_param := (\<lambda>_. ''j1'')\<rparr>"

lemma stranger_simps [simp]:
  "\<not> IsTrustedNet stranger" "GetClientID stranger = ''other''" "gn_param stranger p = ''j1''"
  "\<not> IsTrustedNet job_owner" "GetClientID job_owner = ''app''" "gn_param job_owner p = ''j1''"
  by (simp_all add: stranger_def job_owner_def chat_gin_def IsTrustedNet_def GetClientID_def)

theorem job_is_private_witness:
  "rs_status (GetJob sample_queue_json sample_time (tf_format sample_time) None 0 stranger sample_jobs) \<noteq> 200 \<and>
   rs_status (GetJob sample_queue_json sample_time (tf_format sample_time) None 0 job_owner sample_jobs) = 200"
proof -
  have stored: "JobStore_Get sample_queue_json sample_time None 0 ''j1'' sample_jobs = Inr sample_job"
    using sample_job_stored [of 0] jobTTL_pos by simp
  have "rs_status (GetJob sample_queue_json sample_time (tf_format sample_time) None 0 stranger sample_jobs) \<noteq> 200"
    using job_is_private [of stranger sample_queue_json sample_time "tf_format sample_time" None 0 sample_jobs, OF _ refl] stored
    by (auto simp: sample_job_def pending_job_def error_response_def)
  then show ?thesis by (simp add: GetJob_def stored) (simp add: sample_job_def pending_job_def)
qed

text \<open>
  A submitted job can be asked for at once.  If a submission is answered with 202 and its id is \<open>j\<close>,
  then its item is the last one on the queue, and until the retention time is over the client who submitted
  it, asking for \<open>j\<close>, gets the pending job.
\<close>

theorem submitted_job_is_found:
  assumes "time_format_ok tf" and "reads_back (qj_request qj) (qj_read_request qj) (Some req)"
    and "Submit registry qj tf ee invalid (Inr req) c r = (resp, r')" and "rs_status resp = 202"
    and "gn_param c' ''job_id'' = new_job_id ee" and "GetClientID c' = GetClientID c"
    and "ee_clock ee 3 \<le> now" and "now < ee_clock ee 3 + jobTTL"
  shows "\<exists>q job. queued r' = queued r @ [qj_item qj (new_job_id ee) q] \<and> job_status job = job_status_string JobPending \<and>
    job_request job = Some req \<and> job_client_id job = GetClientID c \<and>
    GetJob qj tf fmt_time None now c' r' = \<lparr>rs_status = 200, rs_body = job_json fmt_time job\<rparr>"
proof -
  have chk: "check_chat invalid (Inr req) = Inr req"
    using assms(3,4) by (auto simp: Submit_def check_chat_def bind_chat_def error_response_def split: sum.splits option.splits if_splits)
  then have en: "Enqueue qj tf ee req (GetClientID c) r = (Inr (new_job_id ee), r')"
    using assms(3,4)
    by (auto simp: Submit_def error_response_def Enqueue_def Let_def split: sum.splits option.splits prod.splits)
  let ?job = "pending_job (new_job_id ee) (GetClientID c) req (ee_clock ee 1) (ee_clock ee 2)"
  obtain r1 q where s: "JobStore_Save qj tf (ee_save ee) (ee_clock ee 3) ?job r = (None, r1)"
    "r' = lpush (qj_item qj (new_job_id ee) q) r1"
    using en by (auto simp: Enqueue_def Let_def run_cmds_None split: option.splits sum.splits prod.splits)
  have "JobStore_Get qj tf None now (job_id ?job) r1 = Inr (in_seconds ?job)"
    by (rule saved_job [OF assms(1) _ _ _ s(1) assms(7,8)]) (use assms(2) in \<open>simp_all add: pending_job_def\<close>)
  moreover have "JobStore_Get qj tf None now k r' = JobStore_Get qj tf None now k r1" for k
    by (simp add: s(2) JobStore_Get_def hgetall_def hash_at_def)
  ultimately have "JobStore_Get qj tf None now (new_job_id ee) r' = Inr (in_seconds ?job)"
    by (simp add: pending_job_def)
  moreover have "queued r' = queued r @ [qj_item qj (new_job_id ee) q]"
    using Save_queue [OF s(1)] s(2) jobq.waiting_push by (simp add: queued_def)
  ultimately show ?thesis
    by (intro exI [of _ q] exI [of _ "in_seconds ?job"])
      (simp add: GetJob_def assms(5,6) in_seconds_def pending_job_def)
qed

theorem submitted_job_is_found_witness:
  "\<exists>resp r' q job. Submit (Some (r_registry sample_router)) sample_queue_json sample_time sample_submit ''bad'' (Inr batch_request)
      chat_gin empty_jobs = (resp, r') \<and> rs_status resp = 202 \<and>
    queued r' = queued empty_jobs @ [qj_item sample_queue_json (new_job_id sample_submit) q] \<and>
    GetJob sample_queue_json sample_time (tf_format sample_time) None second (chat_gin\<lparr>gn_param := (\<lambda>_. new_job_id sample_submit)\<rparr>) r'
      = \<lparr>rs_status = 200, rs_body = job_json (tf_format sample_time) job\<rparr>"
proof -
  obtain resp r' where s: "Submit (Some (r_registry sample_router)) sample_queue_json sample_time sample_submit ''bad''
      (Inr batch_request) chat_gin empty_jobs = (resp, r')" by (metis surj_pair)
  have "check_chat ''bad'' (Inr batch_request) = Inr batch_request"
    by (simp add: check_chat_def bind_chat_def ValidateOptions_def batch_request_def Let_def)
  moreover have "\<exists>p. Registry_Get (r_registry sample_router) (req_provider batch_request) = Inr p"
    by (simp add: sample_router_def NewRouter_def Registry_Get_def Register_def batch_request_def)
  moreover have "GetClientID chat_gin = ''app''" by (simp add: chat_gin_def GetClientID_def)
  ultimately have st: "rs_status resp = 202"
    using s sample_submitted by (auto simp: Submit_def json_response_def)
  show ?thesis
    using s st submitted_job_is_found [OF sample_time_ok sample_reads_back(1) s st,
        of "chat_gin\<lparr>gn_param := (\<lambda>_. new_job_id sample_submit)\<rparr>" second "tf_format sample_time"]
    by (auto simp: sample_submit_def second_def jobTTL_def GetClientID_def)
qed

end
