(* ===== verification/Server.thy ===== *)
theory Server
  imports Streaming Batch Admin KeyAdmin Usage
begin

text \<open>
  \<^verbatim>\<open>internal/server\<close>: which handlers exist, behind which middleware every route lies, and the order of the
  shutdown.  The engine of \<^verbatim>\<open>gin\<close> is what its documentation says of \<^verbatim>\<open>Use\<close>, \<^verbatim>\<open>Group\<close> and the methods that
  register a route: a route gets the middleware in use at that moment.  Which route a path leads to is an
  argument, a position in the list of routes; a request without a route goes through all middleware in use
  and ends with 404.
\<close>

subsection \<open>The engine\<close>

datatype http_method = GET | POST | PUT | DELETE

datatype endpoint =
    EpHealth | EpChat | EpStream | EpModels | EpSubmit | EpGetJob | EpUsage | EpPricing | EpSelfRotate
  | EpListKeys | EpCreateKey | EpUpdateKey | EpRotateKey | EpDeleteKey | EpAuditLogs | EpListLogs | EpLogStats
  | EpClientCreate | EpClientList | EpClientRevoke | EpClientReissue
  | EpArchive | EpSoftReset | EpHardDelete | EpRetention

datatype middleware = MwRecovery | MwRequestID | MwBodyLimit | MwLogger | MwRateLimit | MwAuth | MwTrustedOnly

record route =
  rt_method :: http_method
  rt_path :: string
  rt_chain :: "middleware list"
  rt_endpoint :: endpoint

record engine =
  en_use :: "middleware list"
  en_routes :: "route list"

definition engine_new :: engine where
  "engine_new = \<lparr>en_use = [], en_routes = []\<rparr>"

definition engine_use :: "middleware list \<Rightarrow> engine \<Rightarrow> engine" where
  "engine_use ms e = e\<lparr>en_use := en_use e @ ms\<rparr>"

definition engine_handle :: "middleware list \<Rightarrow> http_method \<times> string \<times> endpoint \<Rightarrow> engine \<Rightarrow> engine" where
  "engine_handle grp x e =
     (case x of (m, path, ep) \<Rightarrow>
        e\<lparr>en_routes := en_routes e @ [\<lparr>rt_method = m, rt_path = path, rt_chain = en_use e @ grp, rt_endpoint = ep\<rparr>]\<rparr>)"

definition engine_handle_all :: "middleware list \<Rightarrow> (http_method \<times> string \<times> endpoint) list \<Rightarrow> engine \<Rightarrow> engine" where
  "engine_handle_all grp xs e = fold (engine_handle grp) xs e"

subsection \<open>The routes\<close>

text \<open>Which of the optional handlers exist.\<close>

record routesDeps =
  rd_batch :: bool
  rd_usage :: bool
  rd_admin :: bool
  rd_usage_admin :: bool
  rd_client_key_admin :: bool
  rd_client_key_rotate :: bool

definition registerRoutes :: "routesDeps \<Rightarrow> engine \<Rightarrow> engine" where
  "registerRoutes d e =
     (let e = engine_handle_all [] [(POST, ''/chat'', EpChat), (POST, ''/chat/stream'', EpStream), (GET, ''/models'', EpModels)] e;
          e = (if rd_batch d
               then engine_handle_all [] [(POST, ''/batch'', EpSubmit), (GET, ''/batch/:job_id'', EpGetJob)] e else e);
          e = (if rd_usage d
               then engine_handle_all [] [(GET, ''/usage'', EpUsage), (GET, ''/usage/pricing'', EpPricing)] e else e);
          e = (if rd_client_key_rotate d then engine_handle_all [] [(POST, ''/v1/keys/rotate'', EpSelfRotate)] e else e);
          e = (if rd_admin d
               then engine_handle_all [MwTrustedOnly]
                 [(GET, ''/admin/keys'', EpListKeys), (POST, ''/admin/keys'', EpCreateKey), (PUT, ''/admin/keys/:id'', EpUpdateKey),
                  (POST, ''/admin/keys/:id/rotate'', EpRotateKey), (DELETE, ''/admin/keys/:id'', EpDeleteKey),
                  (GET, ''/admin/keys/audit'', EpAuditLogs), (GET, ''/admin/logs'', EpListLogs), (GET, ''/admin/logs/stats'', EpLogStats)] e
               else e);
          e = (if rd_client_key_admin d
               then engine_handle_all [MwTrustedOnly]
                 [(POST, ''/admin/client-keys'', EpClientCreate), (GET, ''/admin/client-keys'', EpClientList),
                  (DELETE, ''/admin/client-keys/:client_id'', EpClientRevoke),
                  (POST, ''/admin/client-keys/:client_id/reissue'', EpClientReissue)] e
               else e);
          e = (if rd_usage_admin d
               then engine_handle_all [MwTrustedOnly]
                 [(POST, ''/admin/usage/archive'', EpArchive), (POST, ''/admin/usage/reset'', EpSoftReset),
                  (DELETE, ''/admin/usage'', EpHardDelete), (GET, ''/admin/usage/retention'', EpRetention)] e
               else e)
      in e)"

subsection \<open>The server\<close>

text \<open>A dependency that can be nil is an option, or a truth value where only its presence matters.\<close>

record 'p Deps =
  dp_Config :: Config
  dp_Registry :: "'p Registry"
  dp_Router :: "'p Router option"
  dp_KeyStore :: bool
  dp_AuditLog :: bool
  dp_LogWriter :: "RequestLogWriter option"
  dp_PromptManager :: "PromptManager option"
  dp_PricingManager :: "PricingManager option"
  dp_UsageReader :: bool
  dp_Cache :: "Cache option"
  dp_Redis :: bool
  dp_Producer :: bool
  dp_JobStore :: bool
  dp_Consumer :: "'p Consumer option"
  dp_UsageAdmin :: bool
  dp_RetentionConfig :: bool
  dp_ClientKeyStore :: bool
  dp_LoggingConfig :: "LoggingPolicy option"
  dp_ConfigDir :: string

record 'p Server =
  sr_engine :: engine
  sr_chat :: "'p chat_handler"
  sr_stream :: "'p stream_handler"
  sr_stream_write_timeout :: "duration option"
  sr_trusted_cidrs :: "string list"
  sr_validator :: bool
  sr_rate_limit :: int
  sr_addr :: string
  sr_read_timeout :: duration
  sr_write_timeout :: duration
  sr_shutdown_timeout_sec :: int
  sr_logWriter :: "RequestLogWriter option"
  sr_consumer :: "'p Consumer option"
  sr_redis :: bool

definition chat_handler_of :: "'p Deps \<Rightarrow> 'p chat_handler" where
  "chat_handler_of d =
     \<lparr>hc_registry = dp_Registry d, hc_router = (dp_Router d \<noteq> None), hc_pricing = dp_PricingManager d,
      hc_logging = dp_LoggingConfig d, hc_cache = dp_Cache d, hc_config_dir = dp_ConfigDir d\<rparr>"

definition stream_handler_of :: "'p Deps \<Rightarrow> 'p stream_handler" where
  "stream_handler_of d =
     \<lparr>sh_registry = dp_Registry d, sh_router = (dp_Router d \<noteq> None), sh_pricing = dp_PricingManager d,
      sh_logging = dp_LoggingConfig d, sh_config_dir = dp_ConfigDir d\<rparr>"

definition routes_deps :: "'p Deps \<Rightarrow> routesDeps" where
  "routes_deps d =
     \<lparr>rd_batch = (dp_Producer d \<and> dp_JobStore d), rd_usage = dp_UsageReader d,
      rd_admin = (dp_KeyStore d \<and> dp_AuditLog d), rd_usage_admin = (dp_UsageAdmin d \<and> dp_RetentionConfig d),
      rd_client_key_admin = (dp_ClientKeyStore d \<and> dp_AuditLog d),
      rd_client_key_rotate = (dp_ClientKeyStore d \<and> dp_AuditLog d)\<rparr>"

definition seconds_duration :: "int \<Rightarrow> duration" where
  "seconds_duration n = int64 (n * second)"

definition New :: "'p Deps \<Rightarrow> 'p Server" where
  "New d =
     (let cfg = dp_Config d;
          e = engine_use [MwRecovery, MwRequestID, MwBodyLimit, MwLogger] engine_new;
          e = engine_handle_all [] [(GET, ''/health'', EpHealth)] e;
          e = (if dp_Redis d then engine_use [MwRateLimit] e else e);
          e = engine_use [MwAuth] e;
          e = registerRoutes (routes_deps d) e
      in \<lparr>sr_engine = e, sr_chat = chat_handler_of d, sr_stream = stream_handler_of d,
          sr_stream_write_timeout = (if sc_stream_write_timeout_sec (cfg_server cfg) > 0
             then Some (seconds_duration (sc_stream_write_timeout_sec (cfg_server cfg))) else None),
          sr_trusted_cidrs = ac_trusted_cidrs (cfg_auth cfg), sr_validator = dp_ClientKeyStore d,
          sr_rate_limit = ac_rate_limit_per_minute (cfg_auth cfg), sr_addr = ServerConfig_Addr (cfg_server cfg),
          sr_read_timeout = seconds_duration (sc_read_timeout_sec (cfg_server cfg)),
          sr_write_timeout = seconds_duration (sc_write_timeout_sec (cfg_server cfg)),
          sr_shutdown_timeout_sec = sc_shutdown_timeout_sec (cfg_server cfg),
          sr_logWriter = dp_LogWriter d, sr_consumer = dp_Consumer d, sr_redis = dp_Redis d\<rparr>)"

subsection \<open>A request on its way to a handler\<close>

record ('ip, 'net, 'l, 's) serve_env =
  sx_net :: "('ip, 'net) net_lib"
  sx_time :: time_format
  sx_fmt_seconds :: "duration \<Rightarrow> string"
  sx_seconds :: "duration \<Rightarrow> rat"
  sx_now :: go_time
  sx_stamp :: string
  sx_uuid :: string
  sx_allow :: "string \<Rightarrow> int \<Rightarrow> 'l \<Rightarrow> (error_text + rate_result) \<times> 'l"
  sx_validate :: "'s \<Rightarrow> string \<Rightarrow> string \<Rightarrow> (error_text + ValidatedKey) \<times> 's"

definition run_middleware ::
  "('ip, 'net, 'l, 's) serve_env \<Rightarrow> 'p Server \<Rightarrow> middleware \<Rightarrow> gin \<Rightarrow> 'l \<times> 's \<Rightarrow> mw_result \<times> 'l \<times> 's" where
  "run_middleware sx sr m c st =
     (case st of (l, s) \<Rightarrow>
        (case m of
           MwRequestID \<Rightarrow> (RequestID (sx_stamp sx) (sx_uuid sx) c, l, s)
         | MwRateLimit \<Rightarrow>
             (case RateLimit (sx_fmt_seconds sx) (sx_seconds sx) (sx_allow sx) (sr_rate_limit sr) c l of (r, l') \<Rightarrow> (r, l', s))
         | MwAuth \<Rightarrow>
             (case Auth (sx_net sx) (sx_time sx) (sx_fmt_seconds sx) (sr_trusted_cidrs sr)
                     (if sr_validator sr then Some (sx_validate sx) else None) (sx_now sx) c s of
                (r, s') \<Rightarrow> (r, l, s'))
         | MwTrustedOnly \<Rightarrow> (TrustedNetworkOnly (sx_net sx) (sr_trusted_cidrs sr) c, l, s)
         | _ \<Rightarrow> (Next c, l, s)))"

fun run_chain ::
  "('ip, 'net, 'l, 's) serve_env \<Rightarrow> 'p Server \<Rightarrow> middleware list \<Rightarrow> gin \<Rightarrow> 'l \<times> 's \<Rightarrow> mw_result \<times> 'l \<times> 's" where
  "run_chain sx sr [] c st = (Next c, st)"
| "run_chain sx sr (m # ms) c st =
     (case run_middleware sx sr m c st of
        (Abort r c', st') \<Rightarrow> (Abort r c', st')
      | (Next c', st') \<Rightarrow> run_chain sx sr ms c' st')"

datatype served = Answered http_response | Reached endpoint gin

text \<open>\<open>found\<close>: the position of the route, and the values of its parameters.\<close>

definition dispatch ::
  "('ip, 'net, 'l, 's) serve_env \<Rightarrow> 'p Server \<Rightarrow> (nat \<times> (string \<Rightarrow> string)) option \<Rightarrow> gin \<Rightarrow> 'l \<times> 's \<Rightarrow> served \<times> 'l \<times> 's" where
  "dispatch sx sr found c st =
     (case found of
        None \<Rightarrow>
          (case run_chain sx sr (en_use (sr_engine sr)) c st of
             (Abort r c', st') \<Rightarrow> (Answered r, st')
           | (Next c', st') \<Rightarrow> (Answered \<lparr>rs_status = 404, rs_body = JStr ''404 page not found''\<rparr>, st'))
      | Some (i, params) \<Rightarrow>
          (let rt = en_routes (sr_engine sr) ! i in
           case run_chain sx sr (rt_chain rt) (c\<lparr>gn_param := params\<rparr>) st of
             (Abort r c', st') \<Rightarrow> (Answered r, st')
           | (Next c', st') \<Rightarrow> (Reached (rt_endpoint rt) c', st')))"

text \<open>What \<open>found\<close> can be: gin leads a request to a route that is registered.\<close>

definition routed :: "'p Server \<Rightarrow> (nat \<times> (string \<Rightarrow> string)) option \<Rightarrow> bool" where
  "routed sr found \<longleftrightarrow> (case found of None \<Rightarrow> True | Some (i, params) \<Rightarrow> i < length (en_routes (sr_engine sr)))"

subsection \<open>Shutdown\<close>

text \<open>
  What the shutdown acts on: whether the consumer has been stopped and when, the log writer, and Redis.  The
  result of \<^verbatim>\<open>http.Server.Shutdown\<close> is an argument: it fails when requests are still running at its deadline.
  \<^const>\<open>None\<close>: closing the closed log writer panics.
\<close>

record running =
  ru_consumer_cancelled :: "go_time option"
  ru_writer :: "RequestLogWriter option"
  ru_redis_closed :: bool

definition Shutdown ::
  "'p Server \<Rightarrow> error_text option \<Rightarrow> go_time \<Rightarrow> running \<Rightarrow> (error_text option \<times> running) option" where
  "Shutdown sr http_err now s =
     (let s1 = (if sr_consumer sr \<noteq> None then s\<lparr>ru_consumer_cancelled := Some now\<rparr> else s) in
      case (case ru_writer s1 of
              None \<Rightarrow> Some s1
            | Some w \<Rightarrow> map_option (\<lambda>w'. s1\<lparr>ru_writer := Some w'\<rparr>) (writer_close w)) of
        None \<Rightarrow> None
      | Some s2 \<Rightarrow> Some (http_err, if sr_redis sr then s2\<lparr>ru_redis_closed := True\<rparr> else s2))"

definition Start :: "error_text option \<Rightarrow> error_text option" where
  "Start listen_err =
     (case listen_err of
        None \<Rightarrow> None
      | Some e \<Rightarrow> if e = ''http: Server closed'' then None else Some ((bytes [236, 132, 156, 235, 178, 132, 32, 236, 139, 156, 236, 158, 145, 32, 236, 139, 164, 237, 140, 168, 58, 32]) @ e))"

subsection \<open>Every route and what lies before it\<close>

definition base_chain :: "middleware list" where
  "base_chain = [MwRecovery, MwRequestID, MwBodyLimit, MwLogger]"

definition admin_endpoint :: "endpoint \<Rightarrow> bool" where
  "admin_endpoint ep \<longleftrightarrow> ep \<in> {EpListKeys, EpCreateKey, EpUpdateKey, EpRotateKey, EpDeleteKey, EpAuditLogs, EpListLogs, EpLogStats,
     EpClientCreate, EpClientList, EpClientRevoke, EpClientReissue, EpArchive, EpSoftReset, EpHardDelete, EpRetention}"

definition login_chain :: "bool \<Rightarrow> endpoint \<Rightarrow> middleware list" where
  "login_chain limited ep =
     (if limited then [MwRateLimit] else []) @ [MwAuth] @ (if admin_endpoint ep then [MwTrustedOnly] else [])"

definition guarded :: "bool \<Rightarrow> route \<Rightarrow> bool" where
  "guarded limited rt \<longleftrightarrow>
     rt_chain rt = base_chain @ (if rt_endpoint rt = EpHealth then [] else login_chain limited (rt_endpoint rt))"

lemma engine_handle_all_use [simp]: "en_use (engine_handle_all grp xs e) = en_use e"
  by (induction xs arbitrary: e) (auto simp: engine_handle_all_def engine_handle_def split: prod.split)

lemma engine_handle_all_routes:
  "rt \<in> set (en_routes (engine_handle_all grp xs e)) \<longleftrightarrow> rt \<in> set (en_routes e) \<or>
     (\<exists>(m, p, ep) \<in> set xs. rt = \<lparr>rt_method = m, rt_path = p, rt_chain = en_use e @ grp, rt_endpoint = ep\<rparr>)"
proof (induction xs arbitrary: e)
  case (Cons x xs)
  obtain m p ep where x: "x = (m, p, ep)" by (cases x)
  have "engine_handle_all grp (x # xs) e = engine_handle_all grp xs (engine_handle grp x e)"
    by (simp add: engine_handle_all_def)
  then show ?case using Cons.IH by (auto simp: x engine_handle_def)
qed (simp add: engine_handle_all_def)

text \<open>What registering keeps: the chain in use is the login chain, and every route is guarded.\<close>

definition guarded_engine :: "bool \<Rightarrow> engine \<Rightarrow> bool" where
  "guarded_engine b e \<longleftrightarrow>
     en_use e = base_chain @ (if b then [MwRateLimit] else []) @ [MwAuth] \<and> (\<forall>rt \<in> set (en_routes e). guarded b rt)"

lemma guarded_handle_all:
  assumes "guarded_engine b e"
    and "\<forall>(m, p, ep) \<in> set xs. ep \<noteq> EpHealth \<and> grp = (if admin_endpoint ep then [MwTrustedOnly] else [])"
  shows "guarded_engine b (engine_handle_all grp xs e)"
  using assms by (fastforce simp: guarded_engine_def engine_handle_all_routes guarded_def login_chain_def)

lemma guarded_if:
  assumes "guarded_engine b e" and "guarded_engine b e \<Longrightarrow> guarded_engine b e'"
  shows "guarded_engine b (if q then e' else e)"
  using assms by simp

lemma guarded_let:
  assumes "guarded_engine b e" and "\<And>x. guarded_engine b x \<Longrightarrow> guarded_engine b (f x)"
  shows "guarded_engine b (Let e f)"
  using assms by (simp add: Let_def)

lemma guarded_registerRoutes: "guarded_engine b e \<Longrightarrow> guarded_engine b (registerRoutes d e)"
  unfolding registerRoutes_def
  by (intro guarded_let guarded_if guarded_handle_all; (assumption | simp add: admin_endpoint_def))

lemma sr_engine_New:
  "sr_engine (New d) = registerRoutes (routes_deps d)
     (engine_use [MwAuth] ((if dp_Redis d then engine_use [MwRateLimit] else id)
       (engine_handle_all [] [(GET, ''/health'', EpHealth)] (engine_use base_chain engine_new))))"
  by (simp add: New_def Let_def base_chain_def)

text \<open>Registering only appends: the health route stays the first.\<close>

definition first_is :: "route \<Rightarrow> engine \<Rightarrow> bool" where
  "first_is rt e \<longleftrightarrow> en_routes e \<noteq> [] \<and> en_routes e ! 0 = rt"

lemma first_is_handle_all: "first_is rt e \<Longrightarrow> first_is rt (engine_handle_all grp xs e)"
proof (induction xs arbitrary: e)
  case (Cons x xs)
  have "first_is rt (engine_handle grp x e)"
    using Cons.prems by (cases x) (simp add: first_is_def engine_handle_def nth_append)
  then show ?case using Cons.IH by (simp add: engine_handle_all_def)
qed (simp add: engine_handle_all_def)

lemma first_is_if: "first_is rt e \<Longrightarrow> (first_is rt e \<Longrightarrow> first_is rt e') \<Longrightarrow> first_is rt (if q then e' else e)"
  by simp

lemma first_is_let: "first_is rt e \<Longrightarrow> (\<And>x. first_is rt x \<Longrightarrow> first_is rt (f x)) \<Longrightarrow> first_is rt (Let e f)"
  by (simp add: Let_def)

lemma first_is_registerRoutes: "first_is rt e \<Longrightarrow> first_is rt (registerRoutes d e)"
  unfolding registerRoutes_def
  by (intro first_is_let first_is_if first_is_handle_all; assumption)

lemma first_route:
  "first_is \<lparr>rt_method = GET, rt_path = ''/health'', rt_chain = base_chain, rt_endpoint = EpHealth\<rparr> (sr_engine (New d))"
  unfolding sr_engine_New
  by (rule first_is_registerRoutes)
    (simp add: first_is_def engine_handle_all_def engine_handle_def engine_use_def engine_new_def)

lemma guarded_New: "guarded_engine (dp_Redis d) (sr_engine (New d))"
  unfolding sr_engine_New
  by (rule guarded_registerRoutes)
    (simp add: guarded_engine_def engine_use_def engine_new_def engine_handle_all_routes guarded_def)

lemma routes_guarded: "rt \<in> set (en_routes (sr_engine (New d))) \<Longrightarrow> guarded (dp_Redis d) rt"
  using guarded_New [of d] by (simp add: guarded_engine_def)

subsection \<open>Running the chain\<close>

definition same_origin :: "gin \<Rightarrow> gin \<Rightarrow> bool" where
  "same_origin c c' \<longleftrightarrow> gn_client_ip c' = gn_client_ip c \<and> gn_header c' = gn_header c"

lemma set_out_header_simps [simp]:
  "gn_client_ip (set_out_header k v c) = gn_client_ip c" "gn_header (set_out_header k v c) = gn_header c"
  "gn_client_id (set_out_header k v c) = gn_client_id c" "gn_trusted (set_out_header k v c) = gn_trusted c"
  by (simp_all add: set_out_header_def)

lemma run_chain_append:
  "run_chain sx sr (xs @ ys) c st =
     (case run_chain sx sr xs c st of (Abort r c', st') \<Rightarrow> (Abort r c', st') | (Next c', st') \<Rightarrow> run_chain sx sr ys c' st')"
  by (induction xs arbitrary: c st) (auto split: prod.split mw_result.split)

lemma run_base:
  "\<exists>c'. run_chain sx sr base_chain c st = (Next c', st) \<and> same_origin c c' \<and> gn_client_id c' = gn_client_id c"
  by (cases st) (simp add: base_chain_def run_middleware_def RequestID_def Let_def same_origin_def)

lemma rate_limit_next:
  "RateLimit f g al rpm c l = (Next c', l') \<Longrightarrow> same_origin c c'"
  by (auto simp: RateLimit_def Let_def same_origin_def split: sum.splits if_splits prod.splits)

lemma run_limit:
  assumes "run_chain sx sr (if b then [MwRateLimit] else []) c (l, s) = (Next c', st')"
  shows "same_origin c c' \<and> snd st' = s"
  using assms by (auto simp: run_middleware_def same_origin_def dest!: rate_limit_next split: if_splits prod.splits mw_result.splits)

lemma auth_same: "Auth nl tf f cidrs v now c s = (Next c', s') \<Longrightarrow> gn_client_ip c' = gn_client_ip c"
  by (auto simp: Auth_def trust_client_def Let_def split: if_splits option.splits prod.splits sum.splits)

text \<open>
  What it takes to get to a handler: the health check is open; anything else needs to pass \<^verbatim>\<open>Auth\<close>, and the
  administrative handlers a trusted address as well.
\<close>

lemma reached_through_auth:
  assumes "dispatch sx (New d) found c (l, s) = (Reached ep c', st')"
    and "routed (New d) found"
  shows "ep = EpHealth \<or>
    (\<exists>c0 l1 s1. gn_client_ip c0 = gn_client_ip c \<and> gn_header c0 = gn_header c \<and>
       Auth (sx_net sx) (sx_time sx) (sx_fmt_seconds sx) (ac_trusted_cidrs (cfg_auth (dp_Config d)))
         (if dp_ClientKeyStore d then Some (sx_validate sx) else None) (sx_now sx) c0 s = (Next c', s1) \<and>
       (admin_endpoint ep \<longrightarrow> in_trusted_net (sx_net sx) (ac_trusted_cidrs (cfg_auth (dp_Config d))) (gn_client_ip c)))"
proof (cases "ep = EpHealth")
  case False
  obtain i params where f: "found = Some (i, params)"
    using assms(1) by (cases found) (auto simp: dispatch_def split: prod.splits mw_result.splits)
  let ?rt = "en_routes (sr_engine (New d)) ! i"
  have fields: "sr_trusted_cidrs (New d) = ac_trusted_cidrs (cfg_auth (dp_Config d))" "sr_validator (New d) = dp_ClientKeyStore d"
    by (simp_all add: New_def Let_def)
  have run: "run_chain sx (New d) (rt_chain ?rt) (c\<lparr>gn_param := params\<rparr>) (l, s) = (Next c', st')" "rt_endpoint ?rt = ep"
    using assms(1) f by (auto simp: dispatch_def Let_def split: prod.splits mw_result.splits)
  have chain: "rt_chain ?rt = base_chain @ login_chain (dp_Redis d) ep"
    using routes_guarded [of ?rt d] assms(2) run(2) False by (simp add: guarded_def routed_def f)
  obtain c1 where c1: "run_chain sx (New d) base_chain (c\<lparr>gn_param := params\<rparr>) (l, s) = (Next c1, l, s)"
    "same_origin (c\<lparr>gn_param := params\<rparr>) c1"
    using run_base by blast
  obtain c2 st2 where c2: "run_chain sx (New d) (if dp_Redis d then [MwRateLimit] else []) c1 (l, s) = (Next c2, st2)"
    and rest: "run_chain sx (New d) ([MwAuth] @ (if admin_endpoint ep then [MwTrustedOnly] else [])) c2 st2 = (Next c', st')"
    using run(1) c1(1) unfolding chain login_chain_def run_chain_append
    by (auto split: prod.splits mw_result.splits)
  obtain l2 where st2: "st2 = (l2, s)" and so: "same_origin c1 c2" using run_limit [OF c2] by (cases st2) auto
  have o2: "gn_client_ip c2 = gn_client_ip c" "gn_header c2 = gn_header c"
    using so c1(2) by (simp_all add: same_origin_def)
  obtain c3 s3 where a: "Auth (sx_net sx) (sx_time sx) (sx_fmt_seconds sx) (sr_trusted_cidrs (New d))
      (if sr_validator (New d) then Some (sx_validate sx) else None) (sx_now sx) c2 s = (Next c3, s3)"
    and t: "run_chain sx (New d) (if admin_endpoint ep then [MwTrustedOnly] else []) c3 (l2, s3) = (Next c', st')"
    using rest by (auto simp: st2 run_middleware_def split: prod.splits mw_result.splits)
  have "c3 = c' \<and> (admin_endpoint ep \<longrightarrow> in_trusted_net (sx_net sx) (sr_trusted_cidrs (New d)) (gn_client_ip c3))"
    using t by (auto simp: run_middleware_def TrustedNetworkOnly_def split: if_splits)
  then show ?thesis
    using a o2 auth_same [OF a] unfolding fields by (intro disjI2 exI [of _ c2]) auto
qed simp

text \<open>With any validator that keeps the interface's promises.\<close>

context key_validator
begin

lemma dispatch_admits:
  assumes "invar s" and "sx_validate sx = validate"
    and "dispatch sx (New d) found c (l, s) = (Reached ep c', st')"
    and "routed (New d) found"
  shows "ep = EpHealth \<or>
    in_trusted_net (sx_net sx) (ac_trusted_cidrs (cfg_auth (dp_Config d))) (gn_client_ip c) \<or>
    (\<not> admin_endpoint ep \<and>
      (\<exists>k. genuine s (gn_header c ''X-Client-ID'') (gn_header c ''X-Client-Secret'') k \<and>
         GetClientID c' = gn_header c ''X-Client-ID'' \<and> gn_service_name c' = Some (vk_service_name k)))"
proof (cases "ep = EpHealth \<or> in_trusted_net (sx_net sx) (ac_trusted_cidrs (cfg_auth (dp_Config d))) (gn_client_ip c)")
  case False
  then obtain c0 s1 where a: "gn_client_ip c0 = gn_client_ip c" "gn_header c0 = gn_header c"
    "Auth (sx_net sx) (sx_time sx) (sx_fmt_seconds sx) (ac_trusted_cidrs (cfg_auth (dp_Config d)))
       (if dp_ClientKeyStore d then Some validate else None) (sx_now sx) c0 s = (Next c', s1)"
    and "\<not> admin_endpoint ep"
    using reached_through_auth [OF assms(3,4)] assms(2) by auto
  have "dp_ClientKeyStore d"
    using a(3) False a(1) by (auto simp: Auth_def Let_def split: if_splits)
  then show ?thesis
    using auth_admits [OF assms(1), of _ _ _ _ _ c0] a False \<open>\<not> admin_endpoint ep\<close> by fastforce
qed auto

end

text \<open>
  C1. Only the health check is open.  Whatever route a request is led to, a handler other than the health
  check sees it only if it comes from a trusted network, or if its headers name an active client key whose
  expiry has not passed and the secret of that key, and then under that client id; and the administrative
  handlers see it from trusted networks only.
\<close>

theorem only_health_is_open:
  assumes "service_ok sv" and "sx_validate sx = service_validate"
    and "dispatch sx (New d) found c (l, sv) = (Reached ep c', st')"
    and "routed (New d) found"
  shows "ep = EpHealth \<or>
    in_trusted_net (sx_net sx) (ac_trusted_cidrs (cfg_auth (dp_Config d))) (gn_client_ip c) \<or>
    (\<not> admin_endpoint ep \<and> GetClientID c' = gn_header c ''X-Client-ID'' \<and>
      (\<exists>row t. find_key (ks_store (sv_state sv)) (gn_header c ''X-Client-ID'') = Some row \<and> ck_is_active row \<and>
         tf_parse (ke_time (sv_env sv)) (ck_expires_at row) = Inr t \<and> sv_now sv \<le> t \<and>
         CompareSecretHash (ke_hashes (sv_env sv)) (gn_header c ''X-Client-Secret'') (ck_secret_hash row)))"
  using keysvc.dispatch_admits [OF assms] by (auto simp: service_genuine_def genuine_key_iff)

text \<open>
  The limit is per address, before the login.  With Redis configured, any request that is led to a
  handler other than the health check is judged under the key of its address, whatever client it claims to
  be; if that key has used up its requests, the answer is 429 and the validator is not asked.
\<close>

theorem limit_is_per_address:
  assumes "dp_Redis d" and "i < length (en_routes (sr_engine (New d)))"
    and "rt_endpoint (en_routes (sr_engine (New d)) ! i) \<noteq> EpHealth" and "gn_client_id c = None"
    and "sx_allow sx (''ezai:ratelimit:'' @ gn_client_ip c)
      (if ac_rate_limit_per_minute (cfg_auth (dp_Config d)) \<le> 0 then 60 else ac_rate_limit_per_minute (cfg_auth (dp_Config d))) l
      = (Inr res, l')" and "rr_allowed res = 0"
  shows "\<exists>resp. dispatch sx (New d) (Some (i, params)) c (l, s) = (Answered resp, l', s) \<and> rs_status resp = 429"
proof -
  let ?rt = "en_routes (sr_engine (New d)) ! i"
  have "guarded True ?rt" using routes_guarded [of ?rt d] assms(1,2) by simp
  then obtain rest where chain: "rt_chain ?rt = base_chain @ MwRateLimit # rest"
    using assms(3) by (auto simp: guarded_def login_chain_def)
  have rpm: "sr_rate_limit (New d) = ac_rate_limit_per_minute (cfg_auth (dp_Config d))" by (simp add: New_def Let_def)
  obtain c1 where c1: "run_chain sx (New d) base_chain (c\<lparr>gn_param := params\<rparr>) (l, s) = (Next c1, l, s)"
    "same_origin (c\<lparr>gn_param := params\<rparr>) c1" "gn_client_id c1 = gn_client_id (c\<lparr>gn_param := params\<rparr>)"
    using run_base by blast
  have key: "rate_key c1 = ''ezai:ratelimit:'' @ gn_client_ip c"
    using c1(2,3) assms(4) by (simp add: rate_key_def GetClientID_def same_origin_def)
  show ?thesis
    using c1(1) assms(5,6)
    by (simp add: dispatch_def Let_def chain run_chain_append run_middleware_def RateLimit_def rpm key)
qed

text \<open>
  C9. A request that outlives the shutdown cannot be answered.  The log writer is closed even when the wait
  for running requests has timed out; the chat handler of a request that is still running then never answers:
  it refuses the request with 400, or its log write panics.
\<close>

theorem late_requests_panic:
  assumes "Shutdown sr http_err now s = Some (r, s')" and "ru_writer s = Some w0"
    and "hs_writer cs = ru_writer s'" and "Chat h lib invalid decoded c cs = Some (out, cs')"
  shows "\<forall>resp. out = Done resp \<longrightarrow> rs_status resp = 400"
proof -
  obtain w where w: "ru_writer s' = Some w" "lw_closed w"
    using assms(1,2) by (auto simp: Shutdown_def Let_def writer_close_def split: option.splits if_splits)
  show ?thesis
    using chat_logged [of h lib invalid decoded c cs _ cs' w] assms(3,4) w by (auto simp: logged_answer_def log_write_def)
qed

subsection \<open>A server\<close>

definition sample_config :: Config where
  "sample_config = config_defaults
     \<lparr>cfg_server = \<lparr>sc_host = ''h'', sc_port = 80, sc_read_timeout_sec = 0, sc_write_timeout_sec = 0,
        sc_stream_write_timeout_sec = 0, sc_shutdown_timeout_sec = 0\<rparr>,
      cfg_redis = \<lparr>rc_addr = [], rc_password = [], rc_db = 0, rc_pool_size = 0\<rparr>,
      cfg_database = \<lparr>dc_logs_path = [], dc_keys_path = []\<rparr>,
      cfg_auth = \<lparr>ac_trusted_cidrs = [''10.0.0.0/8''], ac_rate_limit_per_minute = 60\<rparr>,
      cfg_providers = Map.empty, cfg_fallback = None\<rparr>"

definition sample_deps :: "bool \<Rightarrow> string Deps" where
  "sample_deps redis =
     \<lparr>dp_Config = sample_config, dp_Registry = r_registry sample_router, dp_Router = None, dp_KeyStore = True,
      dp_AuditLog = True, dp_LogWriter = Some (NewRequestLogWriter 2 empty_logs), dp_PromptManager = None,
      dp_PricingManager = None, dp_UsageReader = False, dp_Cache = None, dp_Redis = redis, dp_Producer = False,
      dp_JobStore = False, dp_Consumer = None, dp_UsageAdmin = False, dp_RetentionConfig = False,
      dp_ClientKeyStore = True, dp_LoggingConfig = None, dp_ConfigDir = []\<rparr>"

text \<open>A limiter that lets nobody pass, and the validator of the gateway.\<close>

definition sample_sx :: "(unit, unit, unit, mem_redis key_service) serve_env" where
  "sample_sx = \<lparr>sx_net = no_nets, sx_time = sample_time, sx_fmt_seconds = show_int, sx_seconds = of_int, sx_now = 0,
     sx_stamp = ''1'', sx_uuid = ''u'',
     sx_allow = (\<lambda>_ _ u. (Inr \<lparr>rr_allowed = 0, rr_remaining = 0, rr_retry_after = second, rr_reset_after = second\<rparr>, u)),
     sx_validate = service_validate\<rparr>"

lemma sample_auth_config: "cfg_auth (dp_Config (sample_deps b)) = \<lparr>ac_trusted_cidrs = [''10.0.0.0/8''], ac_rate_limit_per_minute = 60\<rparr>"
  by (simp add: sample_deps_def sample_config_def config_defaults_def or_default_def Let_def)

lemma sample_routes:
  "en_routes (sr_engine (New (sample_deps b))) =
     \<lparr>rt_method = GET, rt_path = ''/health'', rt_chain = base_chain, rt_endpoint = EpHealth\<rparr> #
     \<lparr>rt_method = POST, rt_path = ''/chat'', rt_chain = base_chain @ login_chain b EpChat, rt_endpoint = EpChat\<rparr> #
     drop 2 (en_routes (sr_engine (New (sample_deps b))))"
  unfolding sr_engine_New registerRoutes_def
  by (simp add: Let_def sample_deps_def routes_deps_def engine_handle_all_def engine_handle_def engine_use_def engine_new_def
      login_chain_def admin_endpoint_def)

lemma sample_reaches_chat:
  "\<exists>c' st'. dispatch sample_sx (New (sample_deps False)) (Some (1, \<lambda>_. [])) login ((), sample_sv) = (Reached EpChat c', st')"
proof -
  have fields: "sr_trusted_cidrs (New (sample_deps False)) = [''10.0.0.0/8'']" "sr_validator (New (sample_deps False))"
    using sample_auth_config [of False] by (simp_all add: New_def Let_def) (simp add: sample_deps_def)
  have route: "en_routes (sr_engine (New (sample_deps False))) ! 1 =
      \<lparr>rt_method = POST, rt_path = ''/chat'', rt_chain = base_chain @ [MwAuth], rt_endpoint = EpChat\<rparr>"
    by (subst sample_routes) (simp add: login_chain_def admin_endpoint_def)
  obtain k s' where v: "service_validate sample_sv ''app'' ''pw'' = (Inr k, s')"
    using sample_validates by blast
  show ?thesis
    using v
    by (simp add: dispatch_def Let_def route base_chain_def run_middleware_def RequestID_def fields sample_sx_def Auth_def
        in_trusted_net_def no_nets_def login_def del: One_nat_def)
qed

theorem only_health_is_open_witness:
  "\<exists>c' st'. dispatch sample_sx (New (sample_deps False)) (Some (1, \<lambda>_. [])) login ((), sample_sv) = (Reached EpChat c', st') \<and>
     GetClientID c' = ''app''"
proof -
  obtain c' st' where d: "dispatch sample_sx (New (sample_deps False)) (Some (1, \<lambda>_. [])) login ((), sample_sv) = (Reached EpChat c', st')"
    using sample_reaches_chat by blast
  have "routed (New (sample_deps False)) (Some (1, \<lambda>_. []))"
    unfolding routed_def by (subst sample_routes) simp
  moreover have "\<not> in_trusted_net (sx_net sample_sx) (ac_trusted_cidrs (cfg_auth (dp_Config (sample_deps False)))) (gn_client_ip login)"
    by (simp add: sample_sx_def in_trusted_net_def no_nets_def sample_auth_config)
  ultimately show ?thesis
    using only_health_is_open [OF sample_service_ok _ d] d by (cases st') (auto simp: sample_sx_def login_def)
qed

theorem limit_is_per_address_witness:
  "\<exists>resp. dispatch sample_sx (New (sample_deps True)) (Some (1, \<lambda>_. [])) (login\<lparr>gn_client_id := None\<rparr>) ((), sample_sv)
     = (Answered resp, (), sample_sv) \<and> rs_status resp = 429"
proof -
  have route: "en_routes (sr_engine (New (sample_deps True))) ! 1 =
      \<lparr>rt_method = POST, rt_path = ''/chat'', rt_chain = base_chain @ login_chain True EpChat, rt_endpoint = EpChat\<rparr>"
    by (subst sample_routes) simp
  have len: "1 < length (en_routes (sr_engine (New (sample_deps True))))" by (subst sample_routes) simp
  have "dp_Redis (sample_deps True)" by (simp add: sample_deps_def)
  then show ?thesis
    by (rule limit_is_per_address [OF _ len, where res = "\<lparr>rr_allowed = 0, rr_remaining = 0, rr_retry_after = second, rr_reset_after = second\<rparr>"])
      (simp_all add: route sample_sx_def del: One_nat_def)
qed

theorem late_requests_panic_witness:
  "\<exists>s' out cs'. Shutdown (New (sample_deps False)) (Some ''context deadline exceeded'') 0
       \<lparr>ru_consumer_cancelled = None, ru_writer = Some (NewRequestLogWriter 2 empty_logs), ru_redis_closed = False\<rparr>
       = Some (Some ''context deadline exceeded'', s') \<and>
     Chat sample_chat sample_chat_lib ''bad'' (Inr (short_request ''gpt'' ''m'')) chat_gin
       (sample_chat_state\<lparr>hs_writer := ru_writer s'\<rparr>) = Some (out, cs') \<and> (\<forall>resp. out = Done resp \<longrightarrow> rs_status resp = 400)"
proof -
  let ?ru = "\<lparr>ru_consumer_cancelled = None, ru_writer = Some (NewRequestLogWriter 2 empty_logs), ru_redis_closed = False\<rparr>"
  have "\<exists>s'. Shutdown (New (sample_deps False)) (Some ''context deadline exceeded'') 0 ?ru
      = Some (Some ''context deadline exceeded'', s')"
    by (simp add: Shutdown_def Let_def writer_close_def NewRequestLogWriter_def split: option.split)
  then obtain s' where s': "Shutdown (New (sample_deps False)) (Some ''context deadline exceeded'') 0 ?ru
      = Some (Some ''context deadline exceeded'', s')" by blast
  obtain out cs' where c: "Chat sample_chat sample_chat_lib ''bad'' (Inr (short_request ''gpt'' ''m'')) chat_gin
      (sample_chat_state\<lparr>hs_writer := ru_writer s'\<rparr>) = Some (out, cs')"
    using sample_chat_returns by blast
  show ?thesis
    using late_requests_panic [OF s' _ _ c] s' c by auto
qed

end
