(* ===== verification/Adapters.thy ===== *)
theory Adapters
  imports Streaming
begin

text \<open>
  \<^verbatim>\<open>internal/provider\<close>: the five adapters behind the interface \<^verbatim>\<open>Provider\<close>.  Of the SDKs the model keeps the
  fields the adapters write and read; what a call of an SDK answers is an argument, the record \<open>sdk\<close>.  A
  stream of an SDK is the list of its events and the error it ends with.
\<close>

subsection \<open>What the adapters exchange with the SDKs\<close>

datatype claude_message_param = ClaudeUser string | ClaudeAssistant string

record claude_params =
  cp_model :: string
  cp_max_tokens :: int
  cp_messages :: "claude_message_param list"
  cp_system :: "string list"
  cp_temperature :: "float64 option"
  cp_top_p :: "float64 option"

text \<open>A content block: its type and its text.\<close>

record claude_message =
  cl_model :: string
  cl_content :: "(string \<times> string) list"
  cl_input_tokens :: int
  cl_output_tokens :: int

datatype claude_event = MessageStart int | BlockDelta string | MessageDelta int | OtherEvent

datatype openai_message_param = OpenAISystem string | OpenAIUser string | OpenAIAssistant string

record openai_params =
  op_model :: string
  op_messages :: "openai_message_param list"
  op_temperature :: "float64 option"
  op_max_completion_tokens :: "int option"
  op_top_p :: "float64 option"
  op_include_usage :: bool

record openai_usage =
  ou_prompt :: int
  ou_completion :: int
  ou_total :: int

text \<open>Of a choice: the text of its message, or of its delta in a stream.\<close>

record openai_completion =
  oc_model :: string
  oc_choices :: "string list"
  oc_usage :: openai_usage

record gemini_params =
  gp_temperature :: "float64 option"
  gp_max_output_tokens :: int
  gp_top_p :: "float64 option"
  gp_system :: "string list option"
  gp_search :: bool

text \<open>A pointer that can be nil is an option; a grounding chunk is its web source, a title and an address.\<close>

record gemini_candidate =
  gc_parts :: "string list option"
  gc_grounding :: "(string \<times> string) option list option"

record gemini_usage =
  gu_prompt :: int
  gu_candidates :: int
  gu_total :: int

record gemini_response =
  gr_candidates :: "gemini_candidate list"
  gr_usage :: "gemini_usage option"

text \<open>
  The libraries, over clients \<open>'c\<close> and a world \<open>'w\<close>: \<^const>\<open>None\<close> when a call does not return.  \<open>sd_tags\<close>
  is \<^verbatim>\<open>GET /api/tags\<close> with its body decoded, \<open>sd_get\<close> a plain \<^verbatim>\<open>GET\<close>: \<open>Inl True\<close> marks an address from which
  no request can be made.
\<close>

record ('c, 'w) sdk =
  sd_claude :: "'c \<Rightarrow> context_err \<Rightarrow> claude_params \<Rightarrow> 'w \<Rightarrow> ((error_text + claude_message) \<times> 'w) option"
  sd_openai :: "'c \<Rightarrow> context_err \<Rightarrow> openai_params \<Rightarrow> 'w \<Rightarrow> ((error_text + openai_completion) \<times> 'w) option"
  sd_gemini :: "'c \<Rightarrow> context_err \<Rightarrow> string \<Rightarrow> (string \<times> string) list \<Rightarrow> gemini_params \<Rightarrow> 'w
                  \<Rightarrow> ((error_text + gemini_response) \<times> 'w) option"
  sd_claude_stream :: "'c \<Rightarrow> context_err \<Rightarrow> claude_params \<Rightarrow> 'w \<Rightarrow> claude_event list \<times> error_text option"
  sd_openai_stream :: "'c \<Rightarrow> context_err \<Rightarrow> openai_params \<Rightarrow> 'w \<Rightarrow> openai_completion list \<times> error_text option"
  sd_gemini_stream :: "'c \<Rightarrow> context_err \<Rightarrow> string \<Rightarrow> (string \<times> string) list \<Rightarrow> gemini_params \<Rightarrow> 'w
                  \<Rightarrow> (error_text + gemini_response) list"
  sd_float32 :: "float64 \<Rightarrow> float64"
  sd_tags :: "string \<Rightarrow> error_text + string list"
  sd_get :: "context_err \<Rightarrow> string \<Rightarrow> 'w \<Rightarrow> ((bool \<times> error_text) option \<times> 'w) option"

datatype 'c provider =
    ClaudeProvider 'c
  | GPTProvider 'c
  | GeminiProvider 'c
  | PerplexityProvider 'c
  | OllamaProvider 'c string

text \<open>The answer of a call, with a failure put into words.\<close>

definition answered :: "error_text \<Rightarrow> ('a \<Rightarrow> 'b) \<Rightarrow> ((error_text + 'a) \<times> 'w) option \<Rightarrow> ((error_text + 'b) \<times> 'w) option" where
  "answered what f r =
     map_option (\<lambda>(x, w). (case x of Inl err \<Rightarrow> Inl (what @ err) | Inr y \<Rightarrow> Inr (f y), w)) r"

definition token_usage :: "int \<Rightarrow> int \<Rightarrow> int \<Rightarrow> UsageInfo" where
  "token_usage i out tot = zero_usage\<lparr>us_input_tokens := i, us_output_tokens := out, us_total_tokens := tot\<rparr>"

definition chat_answer :: "string \<Rightarrow> string \<Rightarrow> string \<Rightarrow> UsageInfo \<Rightarrow> ChatResponse" where
  "chat_answer provider mdl content usage =
     \<lparr>resp_id = [], resp_provider = provider, resp_model = mdl, resp_content = content, resp_usage = usage,
      resp_metadata = zero_metadata\<rparr>"

definition model_infos :: "string \<Rightarrow> string list \<Rightarrow> ModelInfo list" where
  "model_infos provider models =
     map (\<lambda>m. \<lparr>mi_provider = provider, mi_model = m, mi_display_name = m, mi_available = True\<rparr>) models"

subsection \<open>Claude\<close>

definition NewClaudeProvider :: "(string \<Rightarrow> 'c) \<Rightarrow> string \<Rightarrow> error_text + 'c provider" where
  "NewClaudeProvider new_client apiKey =
     (if apiKey = [] then Inl (bytes [67, 108, 97, 117, 100, 101, 32, 65, 80, 73, 32, 237, 130, 164, 234, 176, 128, 32, 236, 132, 164, 236, 160, 149, 235, 144, 152, 236, 167, 128, 32, 236, 149, 138, 236, 149, 152, 236, 138, 181, 235, 139, 136, 235, 139, 164]) else Inr (ClaudeProvider (new_client apiKey)))"

definition convertToClaudeMessages :: "Message list \<Rightarrow> claude_message_param list \<times> string list" where
  "convertToClaudeMessages messages =
     fold (\<lambda>m (cs, sys).
        if msg_role m = ''system'' then (cs, sys @ [msg_content m])
        else if msg_role m = ''user'' then (cs @ [ClaudeUser (msg_content m)], sys)
        else if msg_role m = ''assistant'' then (cs @ [ClaudeAssistant (msg_content m)], sys)
        else (cs, sys)) messages ([], [])"

text \<open>The parameters; \<^verbatim>\<open>Chat\<close> and \<^verbatim>\<open>ChatStream\<close> build them alike.\<close>

definition claude_request :: "ChatRequest \<Rightarrow> claude_params" where
  "claude_request req =
     (case convertToClaudeMessages (req_messages req) of
        (messages, systemBlocks) \<Rightarrow>
          \<lparr>cp_model = req_model req,
           cp_max_tokens = (case opt_max_tokens (req_options req) of None \<Rightarrow> 4096 | Some n \<Rightarrow> n),
           cp_messages = messages, cp_system = systemBlocks,
           cp_temperature = opt_temperature (req_options req), cp_top_p = opt_top_p (req_options req)\<rparr>)"

definition extractClaudeText :: "claude_message option \<Rightarrow> string" where
  "extractClaudeText resp =
     (case resp of
        None \<Rightarrow> []
      | Some r \<Rightarrow> fold (\<lambda>(typ, txt) text. if typ = ''text'' then text @ txt else text) (cl_content r) [])"

definition claude_answer :: "claude_message \<Rightarrow> ChatResponse" where
  "claude_answer resp =
     chat_answer ''claude'' (cl_model resp) (extractClaudeText (Some resp))
       (token_usage (cl_input_tokens resp) (cl_output_tokens resp) (int64 (cl_input_tokens resp + cl_output_tokens resp)))"

definition Claude_Chat ::
  "('c, 'w) sdk \<Rightarrow> 'c \<Rightarrow> context_err \<Rightarrow> ChatRequest \<Rightarrow> 'w \<Rightarrow> ((error_text + ChatResponse) \<times> 'w) option" where
  "Claude_Chat sd cl ctx req w =
     answered (bytes [67, 108, 97, 117, 100, 101, 32, 65, 80, 73, 32, 237, 152, 184, 236, 182, 156, 32, 236, 139, 164, 237, 140, 168, 58, 32]) claude_answer (sd_claude sd cl ctx (claude_request req) w)"

text \<open>One turn of the goroutine: the chunks it sends, whether it ends, and the input tokens it remembers.\<close>

definition claude_turn :: "claude_event \<Rightarrow> int \<Rightarrow> StreamChunk list \<times> bool \<times> int" where
  "claude_turn event inputTokens =
     (case event of
        MessageStart n \<Rightarrow> ([], False, n)
      | BlockDelta text \<Rightarrow> (if text \<noteq> [] then [text_chunk text] else [], False, inputTokens)
      | MessageDelta outputTokens \<Rightarrow>
          ([done_chunk (Some (token_usage inputTokens outputTokens (int64 (inputTokens + outputTokens))))], True, inputTokens)
      | OtherEvent \<Rightarrow> ([], False, inputTokens))"

text \<open>What it sends when the SDK's stream is over.\<close>

definition end_chunk :: "error_text option \<Rightarrow> StreamChunk" where
  "end_chunk err = (case err of Some e \<Rightarrow> error_chunk e | None \<Rightarrow> done_chunk None)"

definition Claude_Models :: "ModelInfo list" where
  "Claude_Models = model_infos ''claude'' [''claude-opus-4-6'', ''claude-sonnet-4-6'', ''claude-haiku-4-5-20251001'']"

definition call_error :: "((error_text + 'a) \<times> 'w) option \<Rightarrow> (error_text option \<times> 'w) option" where
  "call_error r = map_option (\<lambda>(x, w). (case x of Inl e \<Rightarrow> Some e | Inr _ \<Rightarrow> None, w)) r"

definition Claude_HealthCheck :: "('c, 'w) sdk \<Rightarrow> 'c \<Rightarrow> context_err \<Rightarrow> 'w \<Rightarrow> (error_text option \<times> 'w) option" where
  "Claude_HealthCheck sd cl ctx w =
     call_error (sd_claude sd cl ctx
       \<lparr>cp_model = ''claude-haiku-4-5-20251001'', cp_max_tokens = 1, cp_messages = [ClaudeUser ''hi''], cp_system = [],
        cp_temperature = None, cp_top_p = None\<rparr> w)"

subsection \<open>The OpenAI adapters\<close>

text \<open>GPT, Perplexity and Ollama use the same SDK; the latter two with another address.\<close>

definition NewGPTProvider :: "(string \<Rightarrow> 'c) \<Rightarrow> string \<Rightarrow> error_text + 'c provider" where
  "NewGPTProvider new_client apiKey =
     (if apiKey = [] then Inl (bytes [79, 112, 101, 110, 65, 73, 32, 65, 80, 73, 32, 237, 130, 164, 234, 176, 128, 32, 236, 132, 164, 236, 160, 149, 235, 144, 152, 236, 167, 128, 32, 236, 149, 138, 236, 149, 152, 236, 138, 181, 235, 139, 136, 235, 139, 164]) else Inr (GPTProvider (new_client apiKey)))"

definition NewPerplexityProvider :: "(string \<Rightarrow> string \<Rightarrow> 'c) \<Rightarrow> string \<Rightarrow> string \<Rightarrow> error_text + 'c provider" where
  "NewPerplexityProvider new_client apiKey baseURL =
     (if apiKey = [] then Inl (bytes [80, 101, 114, 112, 108, 101, 120, 105, 116, 121, 32, 65, 80, 73, 32, 237, 130, 164, 234, 176, 128, 32, 236, 132, 164, 236, 160, 149, 235, 144, 152, 236, 167, 128, 32, 236, 149, 138, 236, 149, 152, 236, 138, 181, 235, 139, 136, 235, 139, 164])
      else Inr (PerplexityProvider (new_client apiKey (if baseURL = [] then ''https://api.perplexity.ai/'' else baseURL))))"

definition NewOllamaProvider :: "(string \<Rightarrow> string \<Rightarrow> 'c) \<Rightarrow> string \<Rightarrow> error_text + 'c provider" where
  "NewOllamaProvider new_client baseURL =
     (let baseURL = (if baseURL = [] then ''http://localhost:11434/v1/'' else baseURL)
      in Inr (OllamaProvider (new_client ''ollama'' baseURL) baseURL))"

definition convertToOpenAIMessages :: "Message list \<Rightarrow> openai_message_param list" where
  "convertToOpenAIMessages messages =
     fold (\<lambda>m result.
        if msg_role m = ''system'' then result @ [OpenAISystem (msg_content m)]
        else if msg_role m = ''user'' then result @ [OpenAIUser (msg_content m)]
        else if msg_role m = ''assistant'' then result @ [OpenAIAssistant (msg_content m)]
        else result) messages []"

definition openai_request :: "ChatRequest \<Rightarrow> openai_params" where
  "openai_request req =
     \<lparr>op_model = req_model req, op_messages = convertToOpenAIMessages (req_messages req),
      op_temperature = opt_temperature (req_options req), op_max_completion_tokens = opt_max_tokens (req_options req),
      op_top_p = opt_top_p (req_options req), op_include_usage = False\<rparr>"

text \<open>In a stream \<^verbatim>\<open>top_p\<close> is not passed on.\<close>

definition openai_stream_request :: "ChatRequest \<Rightarrow> openai_params" where
  "openai_stream_request req =
     \<lparr>op_model = req_model req, op_messages = convertToOpenAIMessages (req_messages req),
      op_temperature = opt_temperature (req_options req), op_max_completion_tokens = opt_max_tokens (req_options req),
      op_top_p = None, op_include_usage = True\<rparr>"

definition openai_usage_info :: "openai_usage \<Rightarrow> UsageInfo" where
  "openai_usage_info u = token_usage (ou_prompt u) (ou_completion u) (ou_total u)"

definition first_choice :: "openai_completion \<Rightarrow> string" where
  "first_choice r = (case oc_choices r of [] \<Rightarrow> [] | text # _ \<Rightarrow> text)"

definition openai_answer :: "string \<Rightarrow> openai_completion \<Rightarrow> ChatResponse" where
  "openai_answer name resp = chat_answer name (oc_model resp) (first_choice resp) (openai_usage_info (oc_usage resp))"

definition GPT_Chat ::
  "('c, 'w) sdk \<Rightarrow> 'c \<Rightarrow> context_err \<Rightarrow> ChatRequest \<Rightarrow> 'w \<Rightarrow> ((error_text + ChatResponse) \<times> 'w) option" where
  "GPT_Chat sd cl ctx req w =
     answered (bytes [71, 80, 84, 32, 65, 80, 73, 32, 237, 152, 184, 236, 182, 156, 32, 236, 139, 164, 237, 140, 168, 58, 32]) (openai_answer ''gpt'') (sd_openai sd cl ctx (openai_request req) w)"

definition Perplexity_Chat ::
  "('c, 'w) sdk \<Rightarrow> 'c \<Rightarrow> context_err \<Rightarrow> ChatRequest \<Rightarrow> 'w \<Rightarrow> ((error_text + ChatResponse) \<times> 'w) option" where
  "Perplexity_Chat sd cl ctx req w =
     answered (bytes [80, 101, 114, 112, 108, 101, 120, 105, 116, 121, 32, 65, 80, 73, 32, 237, 152, 184, 236, 182, 156, 32, 236, 139, 164, 237, 140, 168, 58, 32]) (openai_answer ''perplexity'') (sd_openai sd cl ctx (openai_request req) w)"

definition Ollama_Chat ::
  "('c, 'w) sdk \<Rightarrow> 'c \<Rightarrow> context_err \<Rightarrow> ChatRequest \<Rightarrow> 'w \<Rightarrow> ((error_text + ChatResponse) \<times> 'w) option" where
  "Ollama_Chat sd cl ctx req w =
     answered (bytes [79, 108, 108, 97, 109, 97, 32, 65, 80, 73, 32, 237, 152, 184, 236, 182, 156, 32, 236, 139, 164, 237, 140, 168, 58, 32]) (openai_answer ''ollama'') (sd_openai sd cl ctx (openai_request req) w)"

definition openai_turn :: "openai_completion \<Rightarrow> unit \<Rightarrow> StreamChunk list \<times> bool \<times> unit" where
  "openai_turn chunk u =
     (let texts = (if first_choice chunk \<noteq> [] then [text_chunk (first_choice chunk)] else [])
      in if ou_total (oc_usage chunk) > 0
         then (texts @ [done_chunk (Some (openai_usage_info (oc_usage chunk)))], True, u)
         else (texts, False, u))"

definition GPT_Models :: "ModelInfo list" where
  "GPT_Models = model_infos ''gpt'' [''gpt-4o'', ''gpt-4o-mini'', ''gpt-4-turbo'']"

definition Perplexity_Models :: "ModelInfo list" where
  "Perplexity_Models = model_infos ''perplexity'' [''sonar-pro'', ''sonar'', ''sonar-reasoning-pro'', ''sonar-reasoning'']"

definition ollama_root :: "string \<Rightarrow> string" where
  "ollama_root baseURL = trim_suffix (trim_suffix baseURL ''/v1/'') ''/v1''"

definition Ollama_Models :: "('c, 'w) sdk \<Rightarrow> string \<Rightarrow> ModelInfo list" where
  "Ollama_Models sd baseURL =
     (case sd_tags sd (ollama_root baseURL @ ''/api/tags'') of
        Inl _ \<Rightarrow> []
      | Inr names \<Rightarrow> model_infos ''ollama'' names)"

definition openai_ping :: "string \<Rightarrow> openai_params" where
  "openai_ping mdl = \<lparr>op_model = mdl, op_messages = [OpenAIUser ''hi''], op_temperature = None,
     op_max_completion_tokens = Some 1, op_top_p = None, op_include_usage = False\<rparr>"

definition GPT_HealthCheck :: "('c, 'w) sdk \<Rightarrow> 'c \<Rightarrow> context_err \<Rightarrow> 'w \<Rightarrow> (error_text option \<times> 'w) option" where
  "GPT_HealthCheck sd cl ctx w = call_error (sd_openai sd cl ctx (openai_ping ''gpt-4o-mini'') w)"

definition Perplexity_HealthCheck :: "('c, 'w) sdk \<Rightarrow> 'c \<Rightarrow> context_err \<Rightarrow> 'w \<Rightarrow> (error_text option \<times> 'w) option" where
  "Perplexity_HealthCheck sd cl ctx w = call_error (sd_openai sd cl ctx (openai_ping ''sonar'') w)"

definition Ollama_HealthCheck :: "('c, 'w) sdk \<Rightarrow> string \<Rightarrow> context_err \<Rightarrow> 'w \<Rightarrow> (error_text option \<times> 'w) option" where
  "Ollama_HealthCheck sd baseURL ctx w =
     map_option (\<lambda>(r, w'). (case r of
         None \<Rightarrow> None
       | Some (unbuilt, err) \<Rightarrow> Some (if unbuilt then err else (bytes [79, 108, 108, 97, 109, 97, 32, 236, 132, 156, 235, 178, 132, 32, 236, 151, 176, 234, 178, 176, 32, 236, 139, 164, 237, 140, 168, 58, 32]) @ err), w'))
       (sd_get sd ctx (ollama_root baseURL) w)"

subsection \<open>Gemini\<close>

record GeminiConfig =
  gm_project_id :: string
  gm_location :: string
  gm_service_account_json :: string

text \<open>
  \<open>project_of\<close> is what \<^verbatim>\<open>json.Unmarshal\<close> finds as \<^verbatim>\<open>project_id\<close>, \<open>detect\<close> makes credentials of the service account,
  and \<open>new_client project location credentials\<close> a client.
\<close>

definition gemini_project :: "(string \<Rightarrow> error_text + string) \<Rightarrow> GeminiConfig \<Rightarrow> string" where
  "gemini_project project_of cfg =
     (if gm_project_id cfg = [] \<and> gm_service_account_json cfg \<noteq> []
      then (case project_of (gm_service_account_json cfg) of Inr pid \<Rightarrow> if pid \<noteq> [] then pid else [] | Inl _ \<Rightarrow> [])
      else gm_project_id cfg)"

definition NewGeminiProvider ::
  "(string \<Rightarrow> error_text + string) \<Rightarrow> (string \<Rightarrow> error_text + 'k)
   \<Rightarrow> (string \<Rightarrow> string \<Rightarrow> 'k option \<Rightarrow> error_text + 'c) \<Rightarrow> GeminiConfig \<Rightarrow> error_text + 'c provider" where
  "NewGeminiProvider project_of detect new_client cfg =
     (let projectID = gemini_project project_of cfg;
          build = (\<lambda>creds. case new_client projectID (gm_location cfg) creds of
             Inl err \<Rightarrow> Inl ((bytes [71, 101, 109, 105, 110, 105, 32, 237, 129, 180, 235, 157, 188, 236, 157, 180, 236, 150, 184, 237, 138, 184, 32, 236, 131, 157, 236, 132, 177, 32, 236, 139, 164, 237, 140, 168, 58, 32]) @ err)
           | Inr cl \<Rightarrow> Inr (GeminiProvider cl))
      in if gm_service_account_json cfg \<noteq> []
         then (case detect (gm_service_account_json cfg) of
                 Inl err \<Rightarrow> Inl ((bytes [236, 132, 156, 235, 185, 132, 236, 138, 164, 32, 234, 179, 132, 236, 160, 149, 32, 236, 157, 184, 236, 166, 157, 32, 236, 139, 164, 237, 140, 168, 58, 32]) @ err)
               | Inr creds \<Rightarrow> build (Some creds))
         else build None)"

definition convertToGeminiMessages :: "Message list \<Rightarrow> (string \<times> string) list \<times> string" where
  "convertToGeminiMessages messages =
     (case fold (\<lambda>m (cs, sys).
         if msg_role m = ''system'' then (cs, sys @ [msg_content m])
         else if msg_role m = ''user'' then (cs @ [(msg_content m, ''user'')], sys)
         else if msg_role m = ''assistant'' then (cs @ [(msg_content m, ''model'')], sys)
         else (cs, sys)) messages ([], []) of
        (contents, systemParts) \<Rightarrow> (contents, join newline systemParts))"

definition gemini_config :: "(float64 \<Rightarrow> float64) \<Rightarrow> ChatRequest \<Rightarrow> string \<Rightarrow> gemini_params" where
  "gemini_config float32 req systemInstruction =
     \<lparr>gp_temperature = map_option float32 (opt_temperature (req_options req)),
      gp_max_output_tokens = (case opt_max_tokens (req_options req) of None \<Rightarrow> 0 | Some n \<Rightarrow> int32 n),
      gp_top_p = map_option float32 (opt_top_p (req_options req)),
      gp_system = (if systemInstruction \<noteq> [] then Some [systemInstruction] else None),
      gp_search = opt_search_grounding (req_options req)\<rparr>"

definition extractGeminiText :: "gemini_response option \<Rightarrow> string" where
  "extractGeminiText resp =
     (case resp of
        None \<Rightarrow> []
      | Some r \<Rightarrow>
          (case gr_candidates r of
             [] \<Rightarrow> []
           | candidate # _ \<Rightarrow>
               (case gc_parts candidate of
                  None \<Rightarrow> []
                | Some parts \<Rightarrow> join [] (filter (\<lambda>t. t \<noteq> []) parts))))"

definition extractGroundingSources :: "gemini_response option \<Rightarrow> SearchSource list" where
  "extractGroundingSources resp =
     (case resp of
        None \<Rightarrow> []
      | Some r \<Rightarrow>
          (case gr_candidates r of
             [] \<Rightarrow> []
           | candidate # _ \<Rightarrow>
               (case gc_grounding candidate of
                  None \<Rightarrow> []
                | Some chunks \<Rightarrow>
                    concat (map (\<lambda>web. case web of
                        Some (title, uri) \<Rightarrow> if uri \<noteq> [] then [\<lparr>ss_title = title, ss_uri = uri\<rparr>] else []
                      | None \<Rightarrow> []) chunks))))"

definition gemini_usage_info :: "gemini_usage \<Rightarrow> UsageInfo" where
  "gemini_usage_info u = token_usage (gu_prompt u) (gu_candidates u) (gu_total u)"

definition gemini_answer :: "ChatRequest \<Rightarrow> gemini_response \<Rightarrow> ChatResponse" where
  "gemini_answer req resp =
     (chat_answer ''gemini'' (req_model req) (extractGeminiText (Some resp))
        (case gr_usage resp of None \<Rightarrow> zero_usage | Some u \<Rightarrow> gemini_usage_info u))
      \<lparr>resp_metadata := zero_metadata\<lparr>md_search_sources :=
          (if opt_search_grounding (req_options req) then extractGroundingSources (Some resp) else [])\<rparr>\<rparr>"

definition Gemini_Chat ::
  "('c, 'w) sdk \<Rightarrow> 'c \<Rightarrow> context_err \<Rightarrow> ChatRequest \<Rightarrow> 'w \<Rightarrow> ((error_text + ChatResponse) \<times> 'w) option" where
  "Gemini_Chat sd cl ctx req w =
     (case convertToGeminiMessages (req_messages req) of
        (contents, systemInstruction) \<Rightarrow>
          answered (bytes [71, 101, 109, 105, 110, 105, 32, 65, 80, 73, 32, 237, 152, 184, 236, 182, 156, 32, 236, 139, 164, 237, 140, 168, 58, 32]) (gemini_answer req)
            (sd_gemini sd cl ctx (req_model req) contents (gemini_config (sd_float32 sd) req systemInstruction) w))"

definition gemini_turn :: "error_text + gemini_response \<Rightarrow> unit \<Rightarrow> StreamChunk list \<times> bool \<times> unit" where
  "gemini_turn item u =
     (case item of
        Inl err \<Rightarrow> ([error_chunk err], True, u)
      | Inr result \<Rightarrow>
          (let text = extractGeminiText (Some result); texts = (if text \<noteq> [] then [text_chunk text] else [])
           in case gr_usage result of
                Some us \<Rightarrow>
                  if gu_candidates us > 0 then (texts @ [done_chunk (Some (gemini_usage_info us))], True, u)
                  else (texts, False, u)
              | None \<Rightarrow> (texts, False, u)))"

definition Gemini_Models :: "ModelInfo list" where
  "Gemini_Models = model_infos ''gemini''
     [''gemini-2.5-pro'', ''gemini-2.5-flash'', ''gemini-2.5-flash-lite'', ''gemini-2.0-flash'', ''gemini-2.0-flash-lite'']"

definition Gemini_HealthCheck :: "('c, 'w) sdk \<Rightarrow> 'c \<Rightarrow> context_err \<Rightarrow> 'w \<Rightarrow> (error_text option \<times> 'w) option" where
  "Gemini_HealthCheck sd cl ctx w =
     call_error (sd_gemini sd cl ctx ''gemini-2.5-flash'' [(''hi'', ''user'')]
       \<lparr>gp_temperature = None, gp_max_output_tokens = 1, gp_top_p = None, gp_system = None, gp_search = False\<rparr> w)"

end
