(* ===== verification/AdapterStreams.thy ===== *)
theory AdapterStreams
  imports Adapters
begin

text \<open>
  The streams of the adapters: the goroutine that turns the events of an SDK into chunks on a channel of 32
  places, its reader and the end of the context as a step relation, and the channel as the rest of the gateway
  sees it.
\<close>

subsection \<open>The chunks of a stream\<close>

text \<open>What the goroutine sends when nobody stops it.\<close>

fun sent_chunks ::
  "('e \<Rightarrow> 's \<Rightarrow> StreamChunk list \<times> bool \<times> 's) \<Rightarrow> error_text option \<Rightarrow> 'e list \<Rightarrow> 's \<Rightarrow> StreamChunk list" where
  "sent_chunks turn err [] s = [end_chunk err]"
| "sent_chunks turn err (e # es) s =
     (case turn e s of (cs, stop, s') \<Rightarrow> if stop then cs else cs @ sent_chunks turn err es s')"

definition stream_of ::
  "('e \<Rightarrow> 's \<Rightarrow> StreamChunk list \<times> bool \<times> 's) \<Rightarrow> error_text option \<Rightarrow> 'e list \<Rightarrow> 's \<Rightarrow> stream_source" where
  "stream_of turn err es s = \<lparr>so_chunks = sent_chunks turn err es s, so_closed = True\<rparr>"

text \<open>\<^verbatim>\<open>ChatStream\<close> of the adapters: it starts the goroutine and never fails itself.\<close>

definition Claude_ChatStream :: "('c, 'w) sdk \<Rightarrow> 'c \<Rightarrow> context_err \<Rightarrow> ChatRequest \<Rightarrow> 'w \<Rightarrow> error_text + stream_source" where
  "Claude_ChatStream sd cl ctx req w =
     (case sd_claude_stream sd cl ctx (claude_request req) w of (es, err) \<Rightarrow> Inr (stream_of claude_turn err es 0))"

definition GPT_ChatStream :: "('c, 'w) sdk \<Rightarrow> 'c \<Rightarrow> context_err \<Rightarrow> ChatRequest \<Rightarrow> 'w \<Rightarrow> error_text + stream_source" where
  "GPT_ChatStream sd cl ctx req w =
     (case sd_openai_stream sd cl ctx (openai_stream_request req) w of (es, err) \<Rightarrow> Inr (stream_of openai_turn err es ()))"

definition Perplexity_ChatStream :: "('c, 'w) sdk \<Rightarrow> 'c \<Rightarrow> context_err \<Rightarrow> ChatRequest \<Rightarrow> 'w \<Rightarrow> error_text + stream_source" where
  "Perplexity_ChatStream sd cl ctx req w =
     (case sd_openai_stream sd cl ctx (openai_stream_request req) w of (es, err) \<Rightarrow> Inr (stream_of openai_turn err es ()))"

definition Ollama_ChatStream :: "('c, 'w) sdk \<Rightarrow> 'c \<Rightarrow> context_err \<Rightarrow> ChatRequest \<Rightarrow> 'w \<Rightarrow> error_text + stream_source" where
  "Ollama_ChatStream sd cl ctx req w =
     (case sd_openai_stream sd cl ctx (openai_stream_request req) w of (es, err) \<Rightarrow> Inr (stream_of openai_turn err es ()))"

definition Gemini_ChatStream :: "('c, 'w) sdk \<Rightarrow> 'c \<Rightarrow> context_err \<Rightarrow> ChatRequest \<Rightarrow> 'w \<Rightarrow> error_text + stream_source" where
  "Gemini_ChatStream sd cl ctx req w =
     (case convertToGeminiMessages (req_messages req) of
        (contents, systemInstruction) \<Rightarrow>
          Inr (stream_of gemini_turn None
                (sd_gemini_stream sd cl ctx (req_model req) contents (gemini_config (sd_float32 sd) req systemInstruction) w) ()))"

subsection \<open>The interface\<close>

definition Provider_Name :: "'c provider \<Rightarrow> string" where
  "Provider_Name p =
     (case p of ClaudeProvider _ \<Rightarrow> ''claude'' | GPTProvider _ \<Rightarrow> ''gpt'' | GeminiProvider _ \<Rightarrow> ''gemini''
      | PerplexityProvider _ \<Rightarrow> ''perplexity'' | OllamaProvider _ _ \<Rightarrow> ''ollama'')"

definition Provider_Chat ::
  "('c, 'w) sdk \<Rightarrow> 'c provider \<Rightarrow> context_err \<Rightarrow> ChatRequest \<Rightarrow> 'w \<Rightarrow> ((error_text + ChatResponse) \<times> 'w) option" where
  "Provider_Chat sd p =
     (case p of ClaudeProvider cl \<Rightarrow> Claude_Chat sd cl | GPTProvider cl \<Rightarrow> GPT_Chat sd cl
      | GeminiProvider cl \<Rightarrow> Gemini_Chat sd cl | PerplexityProvider cl \<Rightarrow> Perplexity_Chat sd cl
      | OllamaProvider cl _ \<Rightarrow> Ollama_Chat sd cl)"

definition Provider_ChatStream ::
  "('c, 'w) sdk \<Rightarrow> 'c provider \<Rightarrow> context_err \<Rightarrow> ChatRequest \<Rightarrow> 'w \<Rightarrow> error_text + stream_source" where
  "Provider_ChatStream sd p =
     (case p of ClaudeProvider cl \<Rightarrow> Claude_ChatStream sd cl | GPTProvider cl \<Rightarrow> GPT_ChatStream sd cl
      | GeminiProvider cl \<Rightarrow> Gemini_ChatStream sd cl | PerplexityProvider cl \<Rightarrow> Perplexity_ChatStream sd cl
      | OllamaProvider cl _ \<Rightarrow> Ollama_ChatStream sd cl)"

definition Provider_Models :: "('c, 'w) sdk \<Rightarrow> 'c provider \<Rightarrow> ModelInfo list" where
  "Provider_Models sd p =
     (case p of ClaudeProvider _ \<Rightarrow> Claude_Models | GPTProvider _ \<Rightarrow> GPT_Models | GeminiProvider _ \<Rightarrow> Gemini_Models
      | PerplexityProvider _ \<Rightarrow> Perplexity_Models | OllamaProvider _ url \<Rightarrow> Ollama_Models sd url)"

definition Provider_HealthCheck ::
  "('c, 'w) sdk \<Rightarrow> 'c provider \<Rightarrow> context_err \<Rightarrow> 'w \<Rightarrow> (error_text option \<times> 'w) option" where
  "Provider_HealthCheck sd p =
     (case p of ClaudeProvider cl \<Rightarrow> Claude_HealthCheck sd cl | GPTProvider cl \<Rightarrow> GPT_HealthCheck sd cl
      | GeminiProvider cl \<Rightarrow> Gemini_HealthCheck sd cl | PerplexityProvider cl \<Rightarrow> Perplexity_HealthCheck sd cl
      | OllamaProvider _ url \<Rightarrow> Ollama_HealthCheck sd url)"

subsection \<open>The goroutine, its channel and its reader\<close>

text \<open>
  \<open>ge_sending\<close> are the chunks of the current turn that are still to be sent, \<open>ge_last\<close> says that the
  goroutine returns after them; \<open>ge_received\<close> is what the reader has taken so far.
\<close>

record ('e, 's) generator =
  ge_events :: "'e list"
  ge_memory :: 's
  ge_sending :: "StreamChunk list"
  ge_last :: bool
  ge_buffer :: "StreamChunk list"
  ge_closed :: bool
  ge_cancelled :: bool
  ge_received :: "StreamChunk list"

definition chunk_buffer_size :: nat where
  "chunk_buffer_size = 32"

definition gen_start :: "'e list \<Rightarrow> 's \<Rightarrow> ('e, 's) generator" where
  "gen_start es s = \<lparr>ge_events = es, ge_memory = s, ge_sending = [], ge_last = False, ge_buffer = [], ge_closed = False,
     ge_cancelled = False, ge_received = []\<rparr>"

text \<open>
  The goroutine's own steps.  \<open>broken\<close>: when the context ends, the SDK may end its stream with an error of its
  own (for Gemini the code looks at the context first, so this rule only adds behaviours there); a send whose
  context has ended may be given up (the choice of \<^verbatim>\<open>select\<close>).
\<close>

inductive gen_turn ::
  "('e \<Rightarrow> 's \<Rightarrow> StreamChunk list \<times> bool \<times> 's) \<Rightarrow> error_text option \<Rightarrow> ('e, 's) generator \<Rightarrow> ('e, 's) generator \<Rightarrow> bool"
  for turn err where
  advance: "\<not> ge_closed g \<Longrightarrow> \<not> ge_last g \<Longrightarrow> ge_sending g = [] \<Longrightarrow> ge_events g = e # es \<Longrightarrow> \<not> ge_cancelled g \<Longrightarrow>
     turn e (ge_memory g) = (cs, stop, s') \<Longrightarrow>
     gen_turn turn err g (g\<lparr>ge_events := es, ge_memory := s', ge_sending := cs, ge_last := stop\<rparr>)"
| stopped: "\<not> ge_closed g \<Longrightarrow> \<not> ge_last g \<Longrightarrow> ge_sending g = [] \<Longrightarrow> ge_events g = e # es \<Longrightarrow> ge_cancelled g \<Longrightarrow>
     gen_turn turn err g (g\<lparr>ge_closed := True\<rparr>)"
| over: "\<not> ge_closed g \<Longrightarrow> \<not> ge_last g \<Longrightarrow> ge_sending g = [] \<Longrightarrow> ge_events g = [] \<Longrightarrow>
     gen_turn turn err g (g\<lparr>ge_sending := [end_chunk err], ge_last := True\<rparr>)"
| broken: "\<not> ge_closed g \<Longrightarrow> \<not> ge_last g \<Longrightarrow> ge_sending g = [] \<Longrightarrow> ge_cancelled g \<Longrightarrow>
     gen_turn turn err g (g\<lparr>ge_sending := [end_chunk (Some e')], ge_last := True\<rparr>)"
| send: "\<not> ge_closed g \<Longrightarrow> ge_sending g = c # cs \<Longrightarrow> length (ge_buffer g) < chunk_buffer_size \<Longrightarrow>
     gen_turn turn err g (g\<lparr>ge_buffer := ge_buffer g @ [c], ge_sending := cs\<rparr>)"
| given_up: "\<not> ge_closed g \<Longrightarrow> ge_sending g \<noteq> [] \<Longrightarrow> ge_cancelled g \<Longrightarrow> gen_turn turn err g (g\<lparr>ge_closed := True\<rparr>)"
| finished: "\<not> ge_closed g \<Longrightarrow> ge_sending g = [] \<Longrightarrow> ge_last g \<Longrightarrow> gen_turn turn err g (g\<lparr>ge_closed := True\<rparr>)"

text \<open>The reader takes a chunk; the context ends.\<close>

inductive gen_env :: "('e, 's) generator \<Rightarrow> ('e, 's) generator \<Rightarrow> bool" where
  receive: "ge_buffer g = c # cs \<Longrightarrow> gen_env g (g\<lparr>ge_buffer := cs, ge_received := ge_received g @ [c]\<rparr>)"
| cancel: "gen_env g (g\<lparr>ge_cancelled := True\<rparr>)"

inductive gen_reach ::
  "('e \<Rightarrow> 's \<Rightarrow> StreamChunk list \<times> bool \<times> 's) \<Rightarrow> error_text option \<Rightarrow> ('e, 's) generator \<Rightarrow> ('e, 's) generator \<Rightarrow> bool"
  for turn err g0 where
  start: "gen_reach turn err g0 g0"
| worked: "gen_reach turn err g0 g \<Longrightarrow> gen_turn turn err g g' \<Longrightarrow> gen_reach turn err g0 g'"
| outside: "gen_reach turn err g0 g \<Longrightarrow> gen_env g g' \<Longrightarrow> gen_reach turn err g0 g'"

subsection \<open>What any such goroutine guarantees\<close>

text \<open>A chunk with text and nothing else.\<close>

definition plain_text :: "StreamChunk \<Rightarrow> bool" where
  "plain_text c \<longleftrightarrow> (\<exists>s. s \<noteq> [] \<and> c = text_chunk s)"

definition generated :: "('e, 's) generator \<Rightarrow> StreamChunk list" where
  "generated g = ge_received g @ ge_buffer g @ ge_sending g"

definition gen_work :: "('e \<Rightarrow> 's \<Rightarrow> StreamChunk list \<times> bool \<times> 's) \<Rightarrow> error_text option \<Rightarrow> ('e, 's) generator \<Rightarrow> nat" where
  "gen_work turn err g =
     (if ge_closed g then 0
      else Suc (length (ge_sending g) +
        (if ge_last g then 0
         else Suc (length (ge_events g) + length (sent_chunks turn err (ge_events g) (ge_memory g))))))"

text \<open>
  What the reader of the channel may rely on: the buffer is bounded, nothing follows an ending, and as long
  as the context lasts the chunks \<open>W\<close> arrive in order, all of them before the channel is closed.
\<close>

definition channel_ok :: "StreamChunk list \<Rightarrow> ('e, 's) generator \<Rightarrow> bool" where
  "channel_ok W g \<longleftrightarrow>
     length (ge_buffer g) \<le> chunk_buffer_size \<and>
     (\<forall>c \<in> set (butlast (ge_received g)). \<not> ends_stream c) \<and>
     (\<not> ge_cancelled g \<longrightarrow> prefix (ge_received g) W \<and> (ge_closed g \<and> ge_buffer g = [] \<longrightarrow> ge_received g = W))"

lemma end_chunk_ends [simp]: "ends_stream (end_chunk err)"
  by (simp add: end_chunk_def ends_stream_def error_chunk_def done_chunk_def split: option.split)

lemma plain_text_goes_on: "plain_text c \<Longrightarrow> \<not> ends_stream c"
  by (auto simp: plain_text_def text_chunk_def ends_stream_def)

inductive_cases gen_turnE: "gen_turn turn err g g'"
inductive_cases gen_envE: "gen_env g g'"

text \<open>
  The interface of a turn: as long as the goroutine goes on it sends texts only, and what it sends last is
  texts and one ending.
\<close>

locale chunk_source =
  fixes turn :: "'e \<Rightarrow> 's \<Rightarrow> StreamChunk list \<times> bool \<times> 's"
  assumes goes_on: "turn e s = (cs, False, s') \<Longrightarrow> list_all plain_text cs"
    and stops: "turn e s = (cs, True, s') \<Longrightarrow> \<exists>ts c. cs = ts @ [c] \<and> list_all plain_text ts \<and> ends_stream c"
begin

lemma sent_chunks_ok: "\<exists>ts c. sent_chunks turn err es s = ts @ [c] \<and> list_all plain_text ts \<and> ends_stream c"
proof (induction es arbitrary: s)
  case Nil
  show ?case by simp
next
  case (Cons e es)
  obtain cs stop s' where t: "turn e s = (cs, stop, s')" by (metis prod_cases3)
  show ?case
  proof (cases stop)
    case True
    then show ?thesis using stops [of e s cs s'] t by simp
  next
    case False
    obtain ts c where w: "sent_chunks turn err es s' = ts @ [c]" "list_all plain_text ts" "ends_stream c"
      using Cons.IH by blast
    have "list_all plain_text (cs @ ts)" using goes_on [of e s cs s'] t False w(2) by simp
    then show ?thesis using t False w by (intro exI [of _ "cs @ ts"] exI [of _ c]) simp
  qed
qed

text \<open>Every chunk is delivered, unless the context ends.\<close>

definition still_to_come :: "error_text option \<Rightarrow> ('e, 's) generator \<Rightarrow> StreamChunk list" where
  "still_to_come err g = (if ge_last g then [] else sent_chunks turn err (ge_events g) (ge_memory g))"

definition gen_inv :: "error_text option \<Rightarrow> StreamChunk list \<Rightarrow> ('e, 's) generator \<Rightarrow> bool" where
  "gen_inv err W g \<longleftrightarrow>
     length (ge_buffer g) \<le> chunk_buffer_size \<and>
     (ge_closed g \<and> \<not> ge_cancelled g \<longrightarrow> ge_sending g = [] \<and> ge_last g) \<and>
     (generated g @ still_to_come err g = W \<or>
      (ge_cancelled g \<and> ge_last g \<and> (\<exists>ts e more. generated g = ts @ [end_chunk (Some e)] \<and> W = ts @ more \<and> more \<noteq> [])))"

lemma gen_inv_turn:
  assumes "gen_inv err W g" and "gen_turn turn err g g'"
  shows "gen_inv err W g'"
  using assms(2)
proof (cases rule: gen_turn.cases)
  case (advance e es cs stop s')
  then show ?thesis using assms(1)
    by (auto simp: gen_inv_def generated_def still_to_come_def)
next
  case (broken e')
  have "generated g = ge_received g @ ge_buffer g" using broken by (simp add: generated_def)
  moreover have "generated g @ sent_chunks turn err (ge_events g) (ge_memory g) = W"
    using assms(1) broken by (auto simp: gen_inv_def still_to_come_def)
  moreover have "sent_chunks turn err (ge_events g) (ge_memory g) \<noteq> []"
    using sent_chunks_ok [of err "ge_events g" "ge_memory g"] by auto
  ultimately show ?thesis using assms(1) broken
    by (auto simp: gen_inv_def generated_def still_to_come_def)
qed (use assms(1) in \<open>auto simp: gen_inv_def generated_def still_to_come_def\<close>)

lemma gen_inv_env: "gen_inv err W g \<Longrightarrow> gen_env g g' \<Longrightarrow> gen_inv err W g'"
  by (auto simp: gen_inv_def generated_def still_to_come_def elim!: gen_envE)

lemma gen_inv_reach:
  "gen_reach turn err (gen_start es s) g \<Longrightarrow> gen_inv err (sent_chunks turn err es s) g"
proof (induction rule: gen_reach.induct)
  case start
  show ?case by (simp add: gen_inv_def gen_start_def generated_def still_to_come_def)
qed (blast intro: gen_inv_turn gen_inv_env)+

lemma channel_safe:
  assumes "gen_reach turn err (gen_start es s) g"
  shows "channel_ok (sent_chunks turn err es s) g"
proof -
  let ?W = "sent_chunks turn err es s"
  note inv = gen_inv_reach [OF assms, unfolded gen_inv_def]
  obtain ts c where W: "?W = ts @ [c]" "list_all plain_text ts" "ends_stream c"
    using sent_chunks_ok by blast
  have texts: "\<not> ends_stream d" if "d \<in> set ts" for d
    using W(2) that plain_text_goes_on by (auto simp: list_all_iff)
  have "\<exists>us d more. ge_received g @ more = us @ [d] \<and> prefix us ts"
  proof (cases "generated g @ still_to_come err g = ?W")
    case True
    then show ?thesis
      using W(1) by (intro exI [of _ ts] exI [of _ c] exI [of _ "ge_buffer g @ ge_sending g @ still_to_come err g"])
        (simp add: generated_def)
  next
    case False
    then obtain us e more where u: "generated g = us @ [end_chunk (Some e)]" "?W = us @ more" "more \<noteq> []" using inv by blast
    then have "prefix us ts" using W(1) by (metis butlast_append butlast_snoc prefix_def)
    then show ?thesis
      using u(1) by (intro exI [of _ us] exI [of _ "end_chunk (Some e)"] exI [of _ "ge_buffer g @ ge_sending g"])
        (simp add: generated_def)
  qed
  then obtain us d more where r: "ge_received g @ more = us @ [d]" "prefix us ts" by blast
  have "set (butlast (ge_received g)) \<subseteq> set us"
  proof (cases more rule: rev_cases)
    case Nil
    then show ?thesis using r(1) by simp
  next
    case (snoc m x)
    then have "us = ge_received g @ m" using r(1) by simp
    then show ?thesis using in_set_butlastD by fastforce
  qed
  then have "\<forall>c \<in> set (butlast (ge_received g)). \<not> ends_stream c"
    using texts set_mono_prefix [OF r(2)] by blast
  moreover have "prefix (ge_received g) ?W \<and> (ge_closed g \<and> ge_buffer g = [] \<longrightarrow> ge_received g = ?W)"
    if "\<not> ge_cancelled g"
  proof -
    have "?W = ge_received g @ (ge_buffer g @ ge_sending g @ still_to_come err g)"
      using inv that by (simp add: generated_def)
    then have "prefix (ge_received g) ?W" by (rule prefixI)
    moreover have "ge_received g = ?W" if "ge_closed g" "ge_buffer g = []"
      using inv that \<open>\<not> ge_cancelled g\<close> by (auto simp: generated_def still_to_come_def)
    ultimately show ?thesis by blast
  qed
  ultimately show ?thesis using inv by (auto simp: channel_ok_def)
qed

text \<open>The goroutine's work is bounded, and only a full channel with a living context makes it wait.\<close>

lemma gen_turn_work:
  assumes "gen_turn turn err g g'"
  shows "gen_work turn err g' < gen_work turn err g"
  using assms
proof (cases rule: gen_turn.cases)
  case (broken e')
  have "sent_chunks turn err (ge_events g) (ge_memory g) \<noteq> []"
    using sent_chunks_ok [of err "ge_events g" "ge_memory g"] by auto
  then show ?thesis using broken by (auto simp: gen_work_def)
qed (auto simp: gen_work_def split: if_splits)

lemma gen_env_work: "gen_env g g' \<Longrightarrow> gen_work turn err g' = gen_work turn err g"
  by (auto simp: gen_work_def elim!: gen_envE)

lemma gen_progress:
  assumes "\<not> ge_closed g" and "length (ge_buffer g) < chunk_buffer_size \<or> ge_cancelled g"
  shows "\<exists>g'. gen_turn turn err g g' \<and> (ge_cancelled g \<longrightarrow> ge_cancelled g')"
proof (cases "ge_sending g")
  case (Cons c cs)
  then show ?thesis using assms gen_turn.send [OF assms(1) Cons] gen_turn.given_up [OF assms(1)] by fastforce
next
  case Nil
  show ?thesis
  proof (cases "ge_last g")
    case True
    then show ?thesis using gen_turn.finished [OF assms(1) Nil] by fastforce
  next
    case False
    show ?thesis
    proof (cases "ge_events g")
      case Nil
      then show ?thesis using gen_turn.over [OF assms(1) False \<open>ge_sending g = []\<close>] by fastforce
    next
      case (Cons e es)
      obtain cs stop s' where "turn e (ge_memory g) = (cs, stop, s')" by (metis prod_cases3)
      then show ?thesis
        using gen_turn.advance [OF assms(1) False \<open>ge_sending g = []\<close> Cons] gen_turn.stopped [OF assms(1) False \<open>ge_sending g = []\<close> Cons]
        by (cases "ge_cancelled g") fastforce+
    qed
  qed
qed

lemma cancelled_closes:
  assumes "ge_cancelled g"
  shows "\<exists>n g'. n \<le> gen_work turn err g \<and> (gen_turn turn err ^^ n) g g' \<and> ge_closed g'"
  using assms
proof (induction "gen_work turn err g" arbitrary: g rule: less_induct)
  case less
  show ?case
  proof (cases "ge_closed g")
    case True
    then show ?thesis by (intro exI [of _ 0] exI [of _ g]) simp
  next
    case False
    then obtain g1 where s: "gen_turn turn err g g1" "ge_cancelled g1" using gen_progress less.prems by blast
    then obtain n g' where n: "n \<le> gen_work turn err g1" "(gen_turn turn err ^^ n) g1 g'" "ge_closed g'"
      using less.hyps [OF gen_turn_work [OF s(1)] s(2)] by blast
    have "(gen_turn turn err ^^ Suc n) g g'" by (rule relpowp_Suc_I2 [of "gen_turn turn err", OF s(1) n(2)])
    moreover have "Suc n \<le> gen_work turn err g" using n(1) gen_turn_work [OF s(1)] by simp
    ultimately show ?thesis using n(3) by blast
  qed
qed

lemma gen_work_reach: "gen_reach turn err g0 g \<Longrightarrow> gen_work turn err g \<le> gen_work turn err g0"
  by (induction rule: gen_reach.induct) (use gen_turn_work gen_env_work in \<open>fastforce+\<close>)

lemma gen_work_start: "gen_work turn err (gen_start es s) = length es + length (sent_chunks turn err es s) + 2"
  by (simp add: gen_work_def gen_start_def)

end

interpretation claude_gen: chunk_source claude_turn
  by unfold_locales
    (auto simp: claude_turn_def plain_text_def ends_stream_def done_chunk_def split: claude_event.splits if_splits)

interpretation openai_gen: chunk_source openai_turn
  by unfold_locales
    (auto simp: openai_turn_def Let_def plain_text_def ends_stream_def done_chunk_def split: if_splits)

interpretation gemini_gen: chunk_source gemini_turn
  by unfold_locales
    (auto simp: gemini_turn_def Let_def plain_text_def ends_stream_def done_chunk_def error_chunk_def
      split: sum.splits option.splits if_splits)

subsection \<open>The channels of the adapters\<close>

text \<open>The goroutine can close its channel within \<open>k\<close> of its own steps, with no help of the reader.\<close>

definition ends_within ::
  "('e \<Rightarrow> 's \<Rightarrow> StreamChunk list \<times> bool \<times> 's) \<Rightarrow> error_text option \<Rightarrow> nat \<Rightarrow> ('e, 's) generator \<Rightarrow> bool" where
  "ends_within turn err k g \<longleftrightarrow> (\<exists>n g'. n \<le> k \<and> (gen_turn turn err ^^ n) g g' \<and> ge_closed g')"

lemma ends_within_mono: "ends_within turn err k g \<Longrightarrow> k \<le> k' \<Longrightarrow> ends_within turn err k' g"
  unfolding ends_within_def by (meson order_trans)

lemma claude_ends:
  "gen_reach claude_turn err (gen_start es s) g \<Longrightarrow> ge_cancelled g \<Longrightarrow>
   ends_within claude_turn err (length es + length (sent_chunks claude_turn err es s) + 2) g"
  using claude_gen.cancelled_closes [of g err] claude_gen.gen_work_reach [of err "gen_start es s" g] claude_gen.gen_work_start [of err es s]
  unfolding ends_within_def by (metis order_trans)

lemma openai_ends:
  "gen_reach openai_turn err (gen_start es s) g \<Longrightarrow> ge_cancelled g \<Longrightarrow>
   ends_within openai_turn err (length es + length (sent_chunks openai_turn err es s) + 2) g"
  using openai_gen.cancelled_closes [of g err] openai_gen.gen_work_reach [of err "gen_start es s" g] openai_gen.gen_work_start [of err es s]
  unfolding ends_within_def by (metis order_trans)

lemma gemini_ends:
  "gen_reach gemini_turn err (gen_start es s) g \<Longrightarrow> ge_cancelled g \<Longrightarrow>
   ends_within gemini_turn err (length es + length (sent_chunks gemini_turn err es s) + 2) g"
  using gemini_gen.cancelled_closes [of g err] gemini_gen.gen_work_reach [of err "gen_start es s" g] gemini_gen.gen_work_start [of err es s]
  unfolding ends_within_def by (metis order_trans)

text \<open>
  C12. The channel of a stream is sound, for every adapter and every interleaving of the goroutine, its reader
  and the end of the context: at most 32 chunks wait, nothing follows an ending, and while the context lasts
  the reader gets the chunks in order and has all of them when the channel is closed and empty.
\<close>

theorem adapter_channels_are_sound:
  assumes "gen_reach claude_turn err1 (gen_start es1 n) g1" and "gen_reach openai_turn err2 (gen_start es2 ()) g2"
    and "gen_reach gemini_turn None (gen_start es3 ()) g3"
  shows "channel_ok (sent_chunks claude_turn err1 es1 n) g1 \<and> channel_ok (sent_chunks openai_turn err2 es2 ()) g2 \<and>
    channel_ok (sent_chunks gemini_turn None es3 ()) g3"
  using claude_gen.channel_safe [OF assms(1)] openai_gen.channel_safe [OF assms(2)] gemini_gen.channel_safe [OF assms(3)]
  by blast

text \<open>
  C13. No goroutine is left behind.  Once the context of a request has ended, the goroutine of its stream can
  close the channel in a bounded number of steps, even if nobody reads any more and the channel is full.
\<close>

theorem cancelled_streams_end:
  assumes "gen_reach claude_turn err1 (gen_start es1 n) g1" and "ge_cancelled g1"
    and "gen_reach openai_turn err2 (gen_start es2 ()) g2" and "ge_cancelled g2"
    and "gen_reach gemini_turn None (gen_start es3 ()) g3" and "ge_cancelled g3"
  shows "ends_within claude_turn err1 (length es1 + length (sent_chunks claude_turn err1 es1 n) + 2) g1 \<and>
    ends_within openai_turn err2 (length es2 + length (sent_chunks openai_turn err2 es2 ()) + 2) g2 \<and>
    ends_within gemini_turn None (length es3 + length (sent_chunks gemini_turn None es3 ()) + 2) g3"
  using claude_ends [OF assms(1,2)] openai_ends [OF assms(3,4)] gemini_ends [OF assms(5,6)] by blast

subsection \<open>What a stream says\<close>

text \<open>The texts of the SDK's events, and the chunk that ends the stream.\<close>

definition is_message_delta :: "claude_event \<Rightarrow> bool" where
  "is_message_delta ev \<longleftrightarrow> (case ev of MessageDelta _ \<Rightarrow> True | _ \<Rightarrow> False)"

definition claude_texts :: "claude_event list \<Rightarrow> string list" where
  "claude_texts es =
     concat (map (\<lambda>ev. case ev of BlockDelta t \<Rightarrow> if t \<noteq> [] then [t] else [] | _ \<Rightarrow> [])
       (takeWhile (\<lambda>ev. \<not> is_message_delta ev) es))"

definition tokens_before :: "int \<Rightarrow> claude_event list \<Rightarrow> int" where
  "tokens_before n es = fold (\<lambda>ev k. case ev of MessageStart i \<Rightarrow> i | _ \<Rightarrow> k) (takeWhile (\<lambda>ev. \<not> is_message_delta ev) es) n"

definition claude_ending :: "error_text option \<Rightarrow> claude_event list \<Rightarrow> int \<Rightarrow> StreamChunk" where
  "claude_ending err es n =
     (case find is_message_delta es of
        Some (MessageDelta out) \<Rightarrow>
          done_chunk (Some (token_usage (tokens_before n es) out (int64 (tokens_before n es + out))))
      | _ \<Rightarrow> end_chunk err)"

definition has_usage :: "openai_completion \<Rightarrow> bool" where
  "has_usage c \<longleftrightarrow> ou_total (oc_usage c) > 0"

text \<open>The list up to its first element with the property, that element included.\<close>

fun up_to :: "('a \<Rightarrow> bool) \<Rightarrow> 'a list \<Rightarrow> 'a list" where
  "up_to q [] = []"
| "up_to q (x # xs) = (if q x then [x] else x # up_to q xs)"

definition openai_texts :: "openai_completion list \<Rightarrow> string list" where
  "openai_texts es = filter (\<lambda>t. t \<noteq> []) (map first_choice (up_to has_usage es))"

definition openai_ending :: "error_text option \<Rightarrow> openai_completion list \<Rightarrow> StreamChunk" where
  "openai_ending err es =
     (case find has_usage es of Some c \<Rightarrow> done_chunk (Some (openai_usage_info (oc_usage c))) | None \<Rightarrow> end_chunk err)"

definition gemini_stops :: "error_text + gemini_response \<Rightarrow> bool" where
  "gemini_stops item \<longleftrightarrow>
     (case item of Inl _ \<Rightarrow> True
      | Inr r \<Rightarrow> (case gr_usage r of Some u \<Rightarrow> gu_candidates u > 0 | None \<Rightarrow> False))"

definition gemini_texts :: "(error_text + gemini_response) list \<Rightarrow> string list" where
  "gemini_texts items =
     filter (\<lambda>t. t \<noteq> []) (map (\<lambda>item. case item of Inl _ \<Rightarrow> [] | Inr r \<Rightarrow> extractGeminiText (Some r)) (up_to gemini_stops items))"

definition gemini_ending :: "(error_text + gemini_response) list \<Rightarrow> StreamChunk" where
  "gemini_ending items =
     (case find gemini_stops items of
        Some (Inl e) \<Rightarrow> error_chunk e
      | Some (Inr r) \<Rightarrow> done_chunk (map_option gemini_usage_info (gr_usage r))
      | None \<Rightarrow> done_chunk None)"

definition provider_texts :: "('c, 'w) sdk \<Rightarrow> 'c provider \<Rightarrow> context_err \<Rightarrow> ChatRequest \<Rightarrow> 'w \<Rightarrow> string list" where
  "provider_texts sd p ctx req w =
     (let openai = (\<lambda>cl. openai_texts (fst (sd_openai_stream sd cl ctx (openai_stream_request req) w)))
      in case p of
           ClaudeProvider cl \<Rightarrow> claude_texts (fst (sd_claude_stream sd cl ctx (claude_request req) w))
         | GeminiProvider cl \<Rightarrow>
             (case convertToGeminiMessages (req_messages req) of (contents, sys) \<Rightarrow>
                gemini_texts (sd_gemini_stream sd cl ctx (req_model req) contents (gemini_config (sd_float32 sd) req sys) w))
         | GPTProvider cl \<Rightarrow> openai cl | PerplexityProvider cl \<Rightarrow> openai cl | OllamaProvider cl _ \<Rightarrow> openai cl)"

definition provider_ending :: "('c, 'w) sdk \<Rightarrow> 'c provider \<Rightarrow> context_err \<Rightarrow> ChatRequest \<Rightarrow> 'w \<Rightarrow> StreamChunk" where
  "provider_ending sd p ctx req w =
     (let openai = (\<lambda>cl. case sd_openai_stream sd cl ctx (openai_stream_request req) w of (es, err) \<Rightarrow> openai_ending err es)
      in case p of
           ClaudeProvider cl \<Rightarrow> (case sd_claude_stream sd cl ctx (claude_request req) w of (es, err) \<Rightarrow> claude_ending err es 0)
         | GeminiProvider cl \<Rightarrow>
             (case convertToGeminiMessages (req_messages req) of (contents, sys) \<Rightarrow>
                gemini_ending (sd_gemini_stream sd cl ctx (req_model req) contents (gemini_config (sd_float32 sd) req sys) w))
         | GPTProvider cl \<Rightarrow> openai cl | PerplexityProvider cl \<Rightarrow> openai cl | OllamaProvider cl _ \<Rightarrow> openai cl)"

lemma is_message_delta_simps [simp]:
  "\<not> is_message_delta (MessageStart i)" "\<not> is_message_delta (BlockDelta t)" "is_message_delta (MessageDelta k)"
  "\<not> is_message_delta OtherEvent"
  by (simp_all add: is_message_delta_def)

lemma claude_texts_simps [simp]:
  "claude_texts [] = []" "claude_texts (MessageStart i # es) = claude_texts es"
  "claude_texts (BlockDelta t # es) = (if t \<noteq> [] then t # claude_texts es else claude_texts es)"
  "claude_texts (MessageDelta k # es) = []" "claude_texts (OtherEvent # es) = claude_texts es"
  by (simp_all add: claude_texts_def)

lemma tokens_before_simps [simp]:
  "tokens_before n (MessageStart i # es) = tokens_before i es" "tokens_before n (BlockDelta t # es) = tokens_before n es"
  "tokens_before n (MessageDelta k # es) = n" "tokens_before n (OtherEvent # es) = tokens_before n es"
  by (simp_all add: tokens_before_def)

lemma claude_ending_simps [simp]:
  "claude_ending err [] n = end_chunk err" "claude_ending err (MessageStart i # es) n = claude_ending err es i"
  "claude_ending err (BlockDelta t # es) n = claude_ending err es n"
  "claude_ending err (MessageDelta k # es) n = done_chunk (Some (token_usage n k (int64 (n + k))))"
  "claude_ending err (OtherEvent # es) n = claude_ending err es n"
  by (simp_all add: claude_ending_def cong: option.case_cong claude_event.case_cong)

lemma claude_sent: "sent_chunks claude_turn err es n = map text_chunk (claude_texts es) @ [claude_ending err es n]"
proof (induction es arbitrary: n)
  case (Cons ev es)
  then show ?case by (cases ev) (simp_all add: claude_turn_def)
qed simp

lemma openai_sent: "sent_chunks openai_turn err es u = map text_chunk (openai_texts es) @ [openai_ending err es]"
  by (induction es arbitrary: u) (auto simp: openai_turn_def Let_def openai_texts_def openai_ending_def has_usage_def)

lemma gemini_sent: "sent_chunks gemini_turn None items u = map text_chunk (gemini_texts items) @ [gemini_ending items]"
proof (induction items arbitrary: u)
  case Nil
  show ?case by (simp add: gemini_texts_def gemini_ending_def end_chunk_def)
next
  case (Cons item items)
  then show ?case
    by (cases item)
      (auto simp: gemini_turn_def Let_def gemini_texts_def gemini_ending_def gemini_stops_def split: option.split)
qed

lemma provider_stream:
  "Provider_ChatStream sd p ctx req w =
     Inr \<lparr>so_chunks = map text_chunk (provider_texts sd p ctx req w) @ [provider_ending sd p ctx req w], so_closed = True\<rparr>"
  by (cases p) (simp_all add: Provider_ChatStream_def provider_texts_def provider_ending_def Claude_ChatStream_def
      GPT_ChatStream_def Gemini_ChatStream_def Perplexity_ChatStream_def Ollama_ChatStream_def stream_of_def claude_sent
      openai_sent gemini_sent split: prod.split)

text \<open>The chunks of every adapter are texts and one ending.\<close>

lemma claude_chunks_ok: "list_all plain_text (map text_chunk (claude_texts es)) \<and> ends_stream (claude_ending err es n)"
  using claude_gen.sent_chunks_ok [of err es n] by (auto simp: claude_sent)

lemma openai_chunks_ok: "list_all plain_text (map text_chunk (openai_texts es)) \<and> ends_stream (openai_ending err es)"
  using openai_gen.sent_chunks_ok [of err es "()"] by (auto simp: openai_sent)

lemma gemini_chunks_ok: "list_all plain_text (map text_chunk (gemini_texts es)) \<and> ends_stream (gemini_ending es)"
  using gemini_gen.sent_chunks_ok [of None es "()"] by (auto simp: gemini_sent)

lemma provider_chunks_ok:
  "list_all plain_text (map text_chunk (provider_texts sd p ctx req w)) \<and> ends_stream (provider_ending sd p ctx req w)"
  using claude_chunks_ok openai_chunks_ok gemini_chunks_ok
  by (cases p) (auto simp: provider_texts_def provider_ending_def Let_def split: prod.split)

lemma texts_then_end:
  "ends_stream c \<Longrightarrow> texts_before (map text_chunk ts @ [c]) = map text_chunk ts \<and> first_end (map text_chunk ts @ [c]) = Some c"
  by (induction ts) (simp_all add: ends_stream_def text_chunk_def)

text \<open>
  C14. What the client of a stream reads is what the provider wrote.  For every adapter, if the client stays,
  the events are the texts of the SDK's events in order (empty ones left out) up to the event that ends the
  stream, then the usage or the error; and the text that is logged is their concatenation.
\<close>

theorem provider_text_reaches_client:
  assumes "\<forall>j. \<not> gone j"
  shows "\<exists>src pu w'. Provider_ChatStream sd p ctx req w = Inr src \<and>
    pump gone recv 0 (so_chunks src) (so_closed src) pump_start v = Some (pu, w') \<and>
    pu_events pu = map (\<lambda>t. SseData (text_event t)) (provider_texts sd p ctx req w)
      @ closing_events (Some (provider_ending sd p ctx req w)) \<and>
    pu_content pu = concat (provider_texts sd p ctx req w)"
proof -
  let ?ts = "map text_chunk (provider_texts sd p ctx req w)" and ?c = "provider_ending sd p ctx req w"
  have t: "texts_before (?ts @ [?c]) = ?ts" "first_end (?ts @ [?c]) = Some ?c"
    by (simp_all add: texts_then_end [OF conjunct2 [OF provider_chunks_ok]])
  have "concat (map ch_content ?ts) = concat (provider_texts sd p ctx req w)"
    by (simp add: comp_def text_chunk_def)
  moreover have "text_events ?ts = map (\<lambda>t. SseData (text_event t)) (provider_texts sd p ctx req w)"
    by (simp add: text_events_def text_chunk_def)
  ultimately show ?thesis
    using pump_to_end [of 0 "?ts @ [?c]" gone True recv pump_start v] assms
    by (auto simp: provider_stream t pump_start_def)
qed

text \<open>
  C15. A provider that fails to stream is not replaced.  The adapters report every failure of a provider's API
  inside the stream, so when the breaker, the semaphore and the registry admit the first target the loop over
  the targets ends there, the attempt counts as a success, and if the API refuses the request the client gets
  nothing but that error, whatever other targets there are.
\<close>

theorem stream_failure_is_not_retried:
  assumes "\<forall>p ctx req w. sv_connect sv p ctx req w = Some (Provider_ChatStream sd p ctx req w, later w)"
    and "CheckCircuitBreaker (ft_provider t) w = (None, w1)"
    and "acquire_waiting env ctx (ft_provider t) w1 = Some (None, w2)"
    and "Registry_Get registry (ft_provider t) = Inr p"
    and "provider_texts sd p ctx (provider_request req t) w2 = []"
    and "provider_ending sd p ctx (provider_request req t) w2 = error_chunk e"
    and "\<not> gone 0"
  shows "\<exists>src attempt pu w4. find_stream registry env sv ctx req 0 [] None (t # ts) w =
      Some (\<lparr>ss_found = Some (src, t), ss_attempts = [attempt], ss_last_err = None, ss_fallback_reason = None\<rparr>, later w2) \<and>
    fa_status attempt = ''success'' \<and>
    pump gone recv 0 (so_chunks src) (so_closed src) pump_start (later w2) = Some (pu, w4) \<and>
    pu_events pu = [SseError (JObj [(''error'', JStr e)])]"
proof -
  have "Provider_ChatStream sd p ctx (provider_request req t) w2 = Inr \<lparr>so_chunks = [error_chunk e], so_closed = True\<rparr>"
    using assms(5,6) by (simp add: provider_stream)
  then show ?thesis
    using assms(1-4,7)
    by (simp add: try_stream_def Let_def connect_stream_def stream_step_def error_chunk_def send_events_def pump_start_def
        new_attempt_def)
qed

lemma answered_Inr: "answered what f r = Some (Inr y, w) \<Longrightarrow> \<exists>x. y = f x"
proof (cases r)
  case (Some a)
  assume "answered what f r = Some (Inr y, w)"
  then show ?thesis by (cases a; cases "fst a") (auto simp: answered_def Some)
qed (simp add: answered_def)

definition fresh_answer :: "string \<Rightarrow> ChatResponse \<Rightarrow> bool" where
  "fresh_answer name resp \<longleftrightarrow> resp_provider resp = name \<and> resp_id resp = [] \<and> us_estimated_cost (resp_usage resp) = 0 \<and>
     \<not> md_fallback_used (resp_metadata resp) \<and> md_fallback_reason (resp_metadata resp) = None"

lemma fresh_answers:
  "fresh_answer ''claude'' (claude_answer m)" "fresh_answer name (openai_answer name c)" "fresh_answer ''gemini'' (gemini_answer req g)"
  by (simp_all add: fresh_answer_def claude_answer_def openai_answer_def gemini_answer_def chat_answer_def token_usage_def
      openai_usage_info_def gemini_usage_info_def zero_usage_def zero_metadata_def split: option.split)

lemma Provider_Chat_fresh: "Provider_Chat sd p ctx req w = Some (Inr resp, w') \<Longrightarrow> fresh_answer (Provider_Name p) resp"
  by (cases p)
    (auto simp: Provider_Chat_def Provider_Name_def Claude_Chat_def GPT_Chat_def Gemini_Chat_def Perplexity_Chat_def
      Ollama_Chat_def fresh_answers dest!: answered_Inr split: prod.splits)

text \<open>
  C19. What an adapter returns is well formed: answers and models carry the adapter's own name, models are
  available, an answer has no id, price or fallback mark yet (the handlers and the router set these), and a
  stream that was started is closed in the end and contains exactly one ending, as its last chunk.
\<close>

theorem adapters_are_well_typed:
  "(Provider_Chat sd p ctx req w = Some (Inr resp, w') \<longrightarrow>
      fresh_answer (Provider_Name p) resp) \<and>
   (\<forall>m \<in> set (Provider_Models sd p). mi_provider m = Provider_Name p \<and> mi_available m) \<and>
   (\<exists>src ts c. Provider_ChatStream sd p ctx req w = Inr src \<and> so_closed src \<and> so_chunks src = ts @ [c] \<and>
      list_all plain_text ts \<and> ends_stream c)"
proof (intro conjI)
  show "Provider_Chat sd p ctx req w = Some (Inr resp, w') \<longrightarrow> fresh_answer (Provider_Name p) resp"
    by (simp add: Provider_Chat_fresh)
next
  show "\<forall>m \<in> set (Provider_Models sd p). mi_provider m = Provider_Name p \<and> mi_available m"
    by (cases p) (auto simp: Provider_Models_def Provider_Name_def Claude_Models_def GPT_Models_def Gemini_Models_def
        Perplexity_Models_def Ollama_Models_def model_infos_def split: sum.splits)
next
  show "\<exists>src ts c. Provider_ChatStream sd p ctx req w = Inr src \<and> so_closed src \<and> so_chunks src = ts @ [c] \<and>
      list_all plain_text ts \<and> ends_stream c"
    using provider_chunks_ok by (fastforce simp: provider_stream)
qed

subsection \<open>The conversation\<close>

text \<open>Messages of the three known roles; a message with another role is dropped.\<close>

definition with_role :: "string list \<Rightarrow> Message list \<Rightarrow> Message list" where
  "with_role roles ms = filter (\<lambda>m. msg_role m \<in> set roles) ms"

definition system_texts :: "Message list \<Rightarrow> string list" where
  "system_texts ms = map msg_content (with_role [''system''] ms)"

lemma with_role_simps [simp]:
  "with_role rs [] = []" "with_role rs (m # ms) = (if msg_role m \<in> set rs then m # with_role rs ms else with_role rs ms)"
  "system_texts [] = []" "system_texts (m # ms) = (if msg_role m = ''system'' then msg_content m # system_texts ms else system_texts ms)"
  by (simp_all add: with_role_def system_texts_def)

lemma claude_messages:
  "convertToClaudeMessages ms =
     (map (\<lambda>m. if msg_role m = ''user'' then ClaudeUser (msg_content m) else ClaudeAssistant (msg_content m))
        (with_role [''user'', ''assistant''] ms), system_texts ms)"
proof -
  let ?f = "\<lambda>m (cs, sys).
        if msg_role m = ''system'' then (cs, sys @ [msg_content m])
        else if msg_role m = ''user'' then (cs @ [ClaudeUser (msg_content m)], sys)
        else if msg_role m = ''assistant'' then (cs @ [ClaudeAssistant (msg_content m)], sys)
        else (cs, sys)"
  have "fold ?f ms (cs, sys) =
     (cs @ map (\<lambda>m. if msg_role m = ''user'' then ClaudeUser (msg_content m) else ClaudeAssistant (msg_content m))
        (with_role [''user'', ''assistant''] ms), sys @ system_texts ms)" for cs sys
    by (induction ms arbitrary: cs sys) auto
  then show ?thesis by (simp add: convertToClaudeMessages_def)
qed

lemma gemini_messages:
  "convertToGeminiMessages ms =
     (map (\<lambda>m. (msg_content m, if msg_role m = ''user'' then ''user'' else ''model'')) (with_role [''user'', ''assistant''] ms),
      join newline (system_texts ms))"
proof -
  let ?f = "\<lambda>m (cs, sys).
        if msg_role m = ''system'' then (cs, sys @ [msg_content m])
        else if msg_role m = ''user'' then (cs @ [(msg_content m, ''user'')], sys)
        else if msg_role m = ''assistant'' then (cs @ [(msg_content m, ''model'')], sys)
        else (cs, sys)"
  have "fold ?f ms (cs, sys) =
     (cs @ map (\<lambda>m. (msg_content m, if msg_role m = ''user'' then ''user'' else ''model''))
        (with_role [''user'', ''assistant''] ms), sys @ system_texts ms)" for cs sys
    by (induction ms arbitrary: cs sys) auto
  then show ?thesis by (simp add: convertToGeminiMessages_def)
qed

lemma openai_messages:
  "convertToOpenAIMessages ms =
     map (\<lambda>m. if msg_role m = ''system'' then OpenAISystem (msg_content m)
              else if msg_role m = ''user'' then OpenAIUser (msg_content m) else OpenAIAssistant (msg_content m))
       (with_role [''system'', ''user'', ''assistant''] ms)"
proof -
  let ?f = "\<lambda>m result.
        if msg_role m = ''system'' then result @ [OpenAISystem (msg_content m)]
        else if msg_role m = ''user'' then result @ [OpenAIUser (msg_content m)]
        else if msg_role m = ''assistant'' then result @ [OpenAIAssistant (msg_content m)]
        else result"
  have "fold ?f ms res =
     res @ map (\<lambda>m. if msg_role m = ''system'' then OpenAISystem (msg_content m)
              else if msg_role m = ''user'' then OpenAIUser (msg_content m) else OpenAIAssistant (msg_content m))
       (with_role [''system'', ''user'', ''assistant''] ms)" for res
    by (induction ms arbitrary: res) auto
  then show ?thesis by (simp add: convertToOpenAIMessages_def)
qed

text \<open>
  Every adapter passes on the conversation.  The messages of the user and the assistant reach each SDK
  complete, in order and with their roles; the system messages reach Claude as a list, Gemini joined with
  newlines, and OpenAI in their place in the conversation; nothing else is added, and messages with another
  role are left out.
\<close>

theorem conversation_is_passed_on:
  "convertToClaudeMessages ms =
     (map (\<lambda>m. if msg_role m = ''user'' then ClaudeUser (msg_content m) else ClaudeAssistant (msg_content m))
        (with_role [''user'', ''assistant''] ms), system_texts ms) \<and>
   convertToGeminiMessages ms =
     (map (\<lambda>m. (msg_content m, if msg_role m = ''user'' then ''user'' else ''model'')) (with_role [''user'', ''assistant''] ms),
      join newline (system_texts ms)) \<and>
   convertToOpenAIMessages ms =
     map (\<lambda>m. if msg_role m = ''system'' then OpenAISystem (msg_content m)
              else if msg_role m = ''user'' then OpenAIUser (msg_content m) else OpenAIAssistant (msg_content m))
       (with_role [''system'', ''user'', ''assistant''] ms)"
  by (simp add: claude_messages gemini_messages openai_messages)

subsection \<open>A run of each\<close>

text \<open>Claude says one word and ends; OpenAI refuses; Gemini is cut off.\<close>

definition sample_sdk :: "(unit, 'w) sdk" where
  "sample_sdk = \<lparr>sd_claude = (\<lambda>_ _ params w. Some (Inr \<lparr>cl_model = cp_model params, cl_content = [(''text'', ''hi'')],
       cl_input_tokens = 5, cl_output_tokens = 2\<rparr>, w)),
     sd_openai = (\<lambda>_ _ _ w. Some (Inl ''status: 503'', w)), sd_gemini = (\<lambda>_ _ _ _ _ w. Some (Inl ''status: 429'', w)),
     sd_claude_stream = (\<lambda>_ _ _ _. ([MessageStart 5, BlockDelta [], BlockDelta ''hi'', MessageDelta 2], None)),
     sd_openai_stream = (\<lambda>_ _ _ _. ([], Some ''status: 503'')), sd_gemini_stream = (\<lambda>_ _ _ _ _ _. [Inl ''EOF'']),
     sd_float32 = id, sd_tags = (\<lambda>_. Inr [''llama3'']), sd_get = (\<lambda>_ _ w. Some (None, w))\<rparr>"

theorem provider_text_reaches_client_witness:
  "\<exists>src pu w'. Provider_ChatStream sample_sdk (ClaudeProvider ()) Background (short_request ''claude'' ''m'') () = Inr src \<and>
     pump (\<lambda>_. False) (\<lambda>_ w. w) 0 (so_chunks src) (so_closed src) pump_start sample_world = Some (pu, w') \<and>
     pu_events pu = [SseData (text_event ''hi''), SseData (final_event (Some (token_usage 5 2 7))), SseDone] \<and>
     pu_content pu = ''hi''"
proof -
  have "provider_texts sample_sdk (ClaudeProvider ()) Background (short_request ''claude'' ''m'') () = [''hi'']"
    "provider_ending sample_sdk (ClaudeProvider ()) Background (short_request ''claude'' ''m'') () = done_chunk (Some (token_usage 5 2 7))"
    by (simp_all add: provider_texts_def provider_ending_def sample_sdk_def wrap_def)
  then show ?thesis
    using provider_text_reaches_client [of "\<lambda>_. False" sample_sdk "ClaudeProvider ()" Background "short_request ''claude'' ''m''" "()"
        "\<lambda>_ w. w" sample_world]
    by (simp add: closing_events_def done_chunk_def)
qed

definition two_adapters :: "unit provider Registry" where
  "two_adapters = Register Provider_Name (GPTProvider ()) (Register Provider_Name (ClaudeProvider ()) NewRegistry)"

definition adapter_world :: "unit provider world" where
  "adapter_world = \<lparr>w_router = NewRouter two_adapters None, w_now = 0\<rparr>"

definition adapter_env :: "unit provider env" where
  "adapter_env = \<lparr>env_pick = (\<lambda>_ _. PickSend), env_wait = (\<lambda>_ _. None),
     env_chat = (\<lambda>p ctx req w. Provider_Chat sample_sdk p ctx req w)\<rparr>"

definition adapter_stream_env :: "unit provider stream_env" where
  "adapter_stream_env = \<lparr>sv_connect = (\<lambda>p ctx req w. Some (Provider_ChatStream sample_sdk p ctx req w, w)),
     sv_gone = (\<lambda>_. False), sv_recv = (\<lambda>_ w. w)\<rparr>"

theorem stream_failure_is_not_retried_witness:
  "\<exists>src attempt pu w4. find_stream two_adapters adapter_env adapter_stream_env Background (short_request ''gpt'' ''m'') 0 [] None
      [\<lparr>ft_provider = ''gpt'', ft_model = ''m''\<rparr>, \<lparr>ft_provider = ''claude'', ft_model = ''n''\<rparr>] adapter_world =
      Some (\<lparr>ss_found = Some (src, \<lparr>ft_provider = ''gpt'', ft_model = ''m''\<rparr>), ss_attempts = [attempt], ss_last_err = None,
        ss_fallback_reason = None\<rparr>, adapter_world) \<and>
    fa_status attempt = ''success'' \<and>
    pump (\<lambda>_. False) (\<lambda>_ w. w) 0 (so_chunks src) (so_closed src) pump_start adapter_world = Some (pu, w4) \<and>
    pu_events pu = [SseError (JObj [(''error'', JStr ''status: 503'')])]"
proof (rule stream_failure_is_not_retried [where sd = sample_sdk and later = "\<lambda>w. w" and p = "GPTProvider ()"
      and ?w1.0 = adapter_world and ?w2.0 = adapter_world and ctx = Background])
  show "Registry_Get two_adapters (ft_provider \<lparr>ft_provider = ''gpt'', ft_model = ''m''\<rparr>) = Inr (GPTProvider ())"
    by (simp add: two_adapters_def Registry_Get_def Register_def Provider_Name_def)
qed (simp_all add: adapter_stream_env_def CheckCircuitBreaker_def acquire_waiting_def AcquireSemaphore_def adapter_world_def
    NewRouter_def two_adapters_def Register_def Provider_Name_def NewRegistry_def provider_texts_def provider_ending_def
    sample_sdk_def openai_texts_def openai_ending_def end_chunk_def)

theorem adapters_are_well_typed_witness:
  "\<exists>resp. Provider_Chat sample_sdk (ClaudeProvider ()) Background (short_request ''claude'' ''m'') () = Some (Inr resp, ()) \<and>
     resp_provider resp = ''claude'' \<and> resp_content resp = ''hi''"
proof -
  have c: "Provider_Chat sample_sdk (ClaudeProvider ()) Background (short_request ''claude'' ''m'') () =
      Some (Inr (claude_answer \<lparr>cl_model = ''m'', cl_content = [(''text'', ''hi'')], cl_input_tokens = 5, cl_output_tokens = 2\<rparr>), ())"
    by (simp add: Provider_Chat_def Claude_Chat_def answered_def sample_sdk_def claude_request_def short_request_def split: prod.split)
  then have "fresh_answer (Provider_Name (ClaudeProvider () :: unit provider))
      (claude_answer \<lparr>cl_model = ''m'', cl_content = [(''text'', ''hi'')], cl_input_tokens = 5, cl_output_tokens = 2\<rparr>)"
    using adapters_are_well_typed [of sample_sdk "ClaudeProvider ()" Background "short_request ''claude'' ''m''" "()"] by blast
  then show ?thesis
    using c by (simp add: fresh_answer_def Provider_Name_def claude_answer_def chat_answer_def extractClaudeText_def)
qed

text \<open>A goroutine whose context ends before it has done anything.\<close>

definition cancelled_start :: "'e list \<Rightarrow> 's \<Rightarrow> ('e, 's) generator" where
  "cancelled_start es s = (gen_start es s)\<lparr>ge_cancelled := True\<rparr>"

lemma cancelled_start_reached: "gen_reach turn err (gen_start es s) (cancelled_start es s)"
  unfolding cancelled_start_def by (rule gen_reach.outside [OF gen_reach.start gen_env.cancel])

lemma cancelled_start_cancelled: "ge_cancelled (cancelled_start es s)"
  by (simp add: cancelled_start_def)

text \<open>A channel that has been read and closed.\<close>

definition read_out :: "(claude_event, int) generator" where
  "read_out = (gen_start [] 0)\<lparr>ge_last := True, ge_received := [done_chunk None], ge_closed := True\<rparr>"

lemma read_out_reached: "gen_reach claude_turn None (gen_start [] 0) read_out"
proof -
  let ?g0 = "gen_start [] 0 :: (claude_event, int) generator"
  let ?g1 = "?g0\<lparr>ge_sending := [done_chunk None], ge_last := True\<rparr>"
  let ?g2 = "?g0\<lparr>ge_last := True, ge_buffer := [done_chunk None]\<rparr>"
  let ?g3 = "?g0\<lparr>ge_last := True, ge_received := [done_chunk None]\<rparr>"
  have "gen_reach claude_turn None ?g0 ?g1"
    using gen_reach.worked [OF gen_reach.start gen_turn.over [of ?g0 claude_turn None]] by (simp add: gen_start_def end_chunk_def)
  then have "gen_reach claude_turn None ?g0 ?g2"
    using gen_reach.worked [OF _ gen_turn.send [of ?g1 "done_chunk None" "[]" claude_turn None], of ?g0]
    by (simp add: gen_start_def chunk_buffer_size_def)
  then have "gen_reach claude_turn None ?g0 ?g3"
    using gen_reach.outside [OF _ gen_env.receive [of ?g2 "done_chunk None" "[]"], of claude_turn None ?g0]
    by (simp add: gen_start_def)
  then show ?thesis
    using gen_reach.worked [OF _ gen_turn.finished [of ?g3 claude_turn None], of ?g0] by (simp add: gen_start_def read_out_def)
qed

theorem adapter_channels_are_sound_witness:
  "ge_closed read_out \<and> ge_received read_out = sent_chunks claude_turn None [] 0 \<and>
   channel_ok (sent_chunks openai_turn None [] ()) (cancelled_start ([] :: openai_completion list) ()) \<and>
   channel_ok (sent_chunks gemini_turn None [] ()) (cancelled_start ([] :: (error_text + gemini_response) list) ())"
proof -
  have "channel_ok (sent_chunks claude_turn None [] 0) read_out \<and> channel_ok (sent_chunks openai_turn None [] ()) (cancelled_start ([] :: openai_completion list) ()) \<and>
      channel_ok (sent_chunks gemini_turn None [] ()) (cancelled_start ([] :: (error_text + gemini_response) list) ())"
    by (rule adapter_channels_are_sound [OF read_out_reached cancelled_start_reached cancelled_start_reached])
  moreover have "ge_closed read_out" "ge_buffer read_out = []" "\<not> ge_cancelled read_out"
    by (simp_all add: read_out_def gen_start_def)
  ultimately show ?thesis unfolding channel_ok_def [of _ read_out] by blast
qed

theorem cancelled_streams_end_witness:
  "ends_within claude_turn None 3 (cancelled_start [] 0) \<and> ends_within openai_turn None 3 (cancelled_start [] ()) \<and>
   ends_within gemini_turn None 4 (cancelled_start [Inl ''EOF''] ())"
  using cancelled_streams_end [OF cancelled_start_reached cancelled_start_cancelled cancelled_start_reached
      cancelled_start_cancelled cancelled_start_reached cancelled_start_cancelled, of None "[]" 0 None "[]" "[Inl ''EOF'']"]
  by (simp add: gemini_turn_def eval_nat_numeral)

end
