(* ===== verification/Database.thy ===== *)
theory Database
  imports Config "HOL-Library.List_Lexorder" "HOL-Library.Char_ord"
begin

text \<open>
  \<^verbatim>\<open>internal/store/sqlite.go\<close> and \<^verbatim>\<open>encrypted.go\<close>: opening a database file and running the migration scripts.
  The operating system and SQLite answer through the record \<open>db_lib\<close>; a database is what its scripts have made
  of it, a state \<open>'d\<close>.
\<close>

record 'd db_lib =
  dl_mkdir :: "string \<Rightarrow> error_text option"
  dl_open :: "string \<Rightarrow> error_text option"
  dl_ping :: "string \<Rightarrow> error_text option"
  dl_exists :: "string \<Rightarrow> bool"
  dl_chmod :: "string \<Rightarrow> error_text option"
  dl_query_escape :: "string \<Rightarrow> string"
  dl_read_dir :: "string \<Rightarrow> error_text + (string \<times> bool) list"
  dl_read :: read_file
  dl_exec :: "string \<Rightarrow> 'd \<Rightarrow> error_text option \<times> 'd"

text \<open>\<^verbatim>\<open>filepath.Dir\<close>: all up to the last slash, cleaned.\<close>

definition path_dir :: "string \<Rightarrow> string" where
  "path_dir p = path_clean (rev (dropWhile (\<lambda>c. c \<noteq> slash) (rev p)))"

text \<open>The result is the data source name of the open database.\<close>

definition OpenSQLite :: "'d db_lib \<Rightarrow> string \<Rightarrow> error_text + string" where
  "OpenSQLite l dbPath =
     (case dl_mkdir l (path_dir dbPath) of
        Some err \<Rightarrow> Inl ((bytes [68, 66, 32, 235, 148, 148, 235, 160, 137, 237, 134, 160, 235, 166, 172, 32, 236, 131, 157, 236, 132, 177, 32, 236, 139, 164, 237, 140, 168, 58, 32]) @ err)
      | None \<Rightarrow>
          (let dsn = dbPath @ ''?_journal_mode=WAL&_busy_timeout=5000'' in
           case dl_open l dsn of
             Some err \<Rightarrow> Inl ((bytes [83, 81, 76, 105, 116, 101, 32, 236, 151, 180, 234, 184, 176, 32, 236, 139, 164, 237, 140, 168, 58, 32]) @ err)
           | None \<Rightarrow>
               (case dl_ping l dsn of
                  Some err \<Rightarrow> Inl ((bytes [83, 81, 76, 105, 116, 101, 32, 236, 151, 176, 234, 178, 176, 32, 237, 153, 149, 236, 157, 184, 32, 236, 139, 164, 237, 140, 168, 58, 32]) @ err)
                | None \<Rightarrow> Inr dsn)))"

definition OpenEncryptedDB :: "'d db_lib \<Rightarrow> string \<Rightarrow> string \<Rightarrow> error_text + string" where
  "OpenEncryptedDB l dbPath dbKey =
     (if dbKey = [] then Inl (bytes [68, 66, 32, 236, 149, 148, 237, 152, 184, 237, 153, 148, 32, 237, 130, 164, 234, 176, 128, 32, 236, 132, 164, 236, 160, 149, 235, 144, 152, 236, 167, 128, 32, 236, 149, 138, 236, 149, 152, 236, 138, 181, 235, 139, 136, 235, 139, 164, 32, 40, 69, 90, 65, 73, 95, 68, 66, 95, 75, 69, 89, 32, 237, 153, 152, 234, 178, 189, 235, 179, 128, 236, 136, 152, 32, 237, 153, 149, 236, 157, 184, 41])
      else
        (case dl_mkdir l (path_dir dbPath) of
           Some err \<Rightarrow> Inl ((bytes [68, 66, 32, 235, 148, 148, 235, 160, 137, 237, 134, 160, 235, 166, 172, 32, 236, 131, 157, 236, 132, 177, 32, 236, 139, 164, 237, 140, 168, 58, 32]) @ err)
         | None \<Rightarrow>
             (let dsn = dbPath @ ''?_pragma_key='' @ dl_query_escape l dbKey @ ''&_pragma_cipher_page_size=4096'' in
              case dl_open l dsn of
                Some err \<Rightarrow> Inl ((bytes [83, 81, 76, 67, 105, 112, 104, 101, 114, 32, 236, 151, 180, 234, 184, 176, 32, 236, 139, 164, 237, 140, 168, 58, 32]) @ err)
              | None \<Rightarrow>
                  (case dl_ping l dsn of
                     Some err \<Rightarrow> Inl ((bytes [83, 81, 76, 67, 105, 112, 104, 101, 114, 32, 236, 151, 176, 234, 178, 176, 32, 236, 139, 164, 237, 140, 168, 32, 40, 237, 130, 164, 234, 176, 128, 32, 236, 152, 172, 235, 176, 148, 235, 165, 184, 236, 167, 128, 32, 237, 153, 149, 236, 157, 184, 41, 58, 32]) @ err)
                   | None \<Rightarrow>
                       if dl_exists l dbPath
                       then (case dl_chmod l dbPath of
                               Some err \<Rightarrow> Inl ((bytes [68, 66, 32, 237, 140, 140, 236, 157, 188, 32, 234, 182, 140, 237, 149, 156, 32, 236, 132, 164, 236, 160, 149, 32, 236, 139, 164, 237, 140, 168, 58, 32]) @ err)
                             | None \<Rightarrow> Inr dsn)
                       else Inr dsn))))"

text \<open>The scripts in the order of their names, up to the first that fails.\<close>

fun run_scripts :: "'d db_lib \<Rightarrow> string \<Rightarrow> string list \<Rightarrow> 'd \<Rightarrow> error_text option \<times> 'd" where
  "run_scripts l dir [] db = (None, db)"
| "run_scripts l dir (f # fs) db =
     (case dl_read l (path_join [dir, f]) of
        Inl err \<Rightarrow> (Some ((bytes [235, 167, 136, 236, 157, 180, 234, 183, 184, 235, 160, 136, 236, 157, 180, 236, 133, 152, 32, 237, 140, 140, 236, 157, 188, 32, 236, 157, 189, 234, 184, 176, 32, 236, 139, 164, 237, 140, 168, 32, 40]) @ f @ ''): '' @ err), db)
      | Inr sql \<Rightarrow>
          (case dl_exec l sql db of
             (Some err, db') \<Rightarrow> (Some ((bytes [235, 167, 136, 236, 157, 180, 234, 183, 184, 235, 160, 136, 236, 157, 180, 236, 133, 152, 32, 236, 139, 164, 237, 150, 137, 32, 236, 139, 164, 237, 140, 168, 32, 40]) @ f @ ''): '' @ err), db')
           | (None, db') \<Rightarrow> run_scripts l dir fs db'))"

definition script_files :: "(string \<Rightarrow> bool) \<Rightarrow> (string \<times> bool) list \<Rightarrow> string list" where
  "script_files fileFilter entries =
     sort (map fst (filter (\<lambda>(name, is_dir). \<not> is_dir \<and> has_suffix name ''.sql'' \<and> fileFilter name) entries))"

definition RunMigrations :: "'d db_lib \<Rightarrow> string \<Rightarrow> (string \<Rightarrow> bool) \<Rightarrow> 'd \<Rightarrow> error_text option \<times> 'd" where
  "RunMigrations l migrationsDir fileFilter db =
     (case dl_read_dir l migrationsDir of
        Inl err \<Rightarrow> (Some ((bytes [235, 167, 136, 236, 157, 180, 234, 183, 184, 235, 160, 136, 236, 157, 180, 236, 133, 152, 32, 235, 148, 148, 235, 160, 137, 237, 134, 160, 235, 166, 172, 32, 236, 157, 189, 234, 184, 176, 32, 236, 139, 164, 237, 140, 168, 58, 32]) @ err), db)
      | Inr entries \<Rightarrow> run_scripts l migrationsDir (script_files fileFilter entries) db)"

text \<open>Which scripts belong to which database.\<close>

definition logs_script :: "string \<Rightarrow> bool" where
  "logs_script name \<longleftrightarrow> has_prefix name ''003_'' \<or> has_prefix name ''004_''"

definition keys_script :: "string \<Rightarrow> bool" where
  "keys_script name \<longleftrightarrow> has_prefix name ''001_'' \<or> has_prefix name ''002_'' \<or> has_prefix name ''005_''"

subsection \<open>Facts\<close>

text \<open>Scripts that change nothing any more, because all they create exists, leave the database as it is.\<close>

lemma scripts_idempotent:
  assumes "\<And>f. f \<in> set fs \<Longrightarrow> \<exists>sql. dl_read l (path_join [dir, f]) = Inr sql \<and> dl_exec l sql db = (None, db)"
  shows "run_scripts l dir fs db = (None, db)"
  using assms
proof (induction fs)
  case (Cons f fs)
  obtain sql where "dl_read l (path_join [dir, f]) = Inr sql" "dl_exec l sql db = (None, db)"
    using Cons.prems [of f] by auto
  then show ?case using Cons by simp
qed simp

lemma script_files_sorted: "sorted (script_files q es) \<and> set (script_files q es) =
    {name. (name, False) \<in> set es \<and> has_suffix name ''.sql'' \<and> q name}"
  by (force simp: script_files_def)

end
