(* ===== verification/KeyCommands.thy ===== *)
theory KeyCommands
  imports Database KeyStore Chat
begin

text \<open>
  The key commands of \<^verbatim>\<open>cmd/ezai/main.go\<close>: what each writes to the key database, to \<^verbatim>\<open>.env\<close> and to the terminal,
  and its exit code.  The environment variables, the file system, SQLite, the cipher and the clock are arguments.
\<close>

subsection \<open>The world of a command\<close>

text \<open>The contents of the encrypted database: the keys and the audit log.\<close>

record key_db =
  kd_rows :: "key_row list"
  kd_next_id :: int
  kd_audit :: AuditLog

text \<open>\<open>ci_clock i\<close> is the \<open>i\<close>-th reading of the clock; \<open>ci_fail s\<close> the error of the statement \<open>s\<close> of SQLite.\<close>

datatype statement = StQuery | StExec | StAudit | StBegin | StUpdate | StInsert | StCommit

record cli_env =
  ci_getenv :: "string \<Rightarrow> string"
  ci_read :: read_file
  ci_write :: "error_text option"
  ci_key_bytes :: "error_text + string"
  ci_crypto :: crypto_env
  ci_clock :: "nat \<Rightarrow> go_time"
  ci_config :: "string \<Rightarrow> error_text + Config"
  ci_fallback_config :: "string \<Rightarrow> error_text + FallbackGlobalConfig"
  ci_db :: "key_db db_lib"
  ci_fail :: "statement \<Rightarrow> error_text option"

record cli_result =
  xr_code :: nat
  xr_out :: "string list"
  xr_err :: "string list"

definition exit_error :: "string list \<Rightarrow> cli_result" where
  "exit_error lines = \<lparr>xr_code = 1, xr_out = [], xr_err = lines\<rparr>"

definition printed :: "string list \<Rightarrow> cli_result" where
  "printed lines = \<lparr>xr_code = 0, xr_out = lines, xr_err = []\<rparr>"

definition config_dir :: "cli_env \<Rightarrow> string" where
  "config_dir ci = (if ci_getenv ci ''EZAI_CONFIG_DIR'' = [] then ''config'' else ci_getenv ci ''EZAI_CONFIG_DIR'')"

definition load_config :: "cli_env \<Rightarrow> error_text + Config" where
  "load_config ci = Load (ci_read ci) (ci_config ci) (ci_fallback_config ci) (config_dir ci)"

text \<open>Opening the key database; the texts are what is printed before the exit.\<close>

definition openKeyStore :: "cli_env \<Rightarrow> key_db \<Rightarrow> (string list + (KeyStore \<times> AuditLog)) \<times> key_db" where
  "openKeyStore ci db =
     (let dbKey = ci_getenv ci ''EZAI_DB_KEY'' in
      if dbKey = []
      then (Inl [(bytes [69, 90, 65, 73, 95, 68, 66, 95, 75, 69, 89, 32, 237, 153, 152, 234, 178, 189, 235, 179, 128, 236, 136, 152, 234, 176, 128, 32, 236, 132, 164, 236, 160, 149, 235, 144, 152, 236, 167, 128, 32, 236, 149, 138, 236, 149, 152, 236, 138, 181, 235, 139, 136, 235, 139, 164, 46]), (bytes [32, 32, 235, 168, 188, 236, 160, 128, 32, 236, 139, 164, 237, 150, 137, 58, 32, 101, 122, 97, 105, 32, 107, 101, 121, 115, 32, 105, 110, 105, 116, 45, 100, 98, 32, 38, 38, 32, 115, 111, 117, 114, 99, 101, 32, 46, 101, 110, 118])], db)
      else
        (case load_config ci of
           Inl err \<Rightarrow> (Inl [(bytes [236, 132, 164, 236, 160, 149, 32, 235, 161, 156, 235, 147, 156, 32, 236, 139, 164, 237, 140, 168, 58, 32]) @ err], db)
         | Inr cfg \<Rightarrow>
             (case NewEncryptor dbKey of
                Inl err \<Rightarrow> (Inl [(bytes [236, 149, 148, 237, 152, 184, 237, 153, 148, 234, 184, 176, 32, 236, 180, 136, 234, 184, 176, 237, 153, 148, 32, 236, 139, 164, 237, 140, 168, 58, 32]) @ err], db)
              | Inr encryptor \<Rightarrow>
                  (case OpenEncryptedDB (ci_db ci) (dc_keys_path (cfg_database cfg)) dbKey of
                     Inl err \<Rightarrow> (Inl [(bytes [237, 130, 164, 32, 68, 66, 32, 236, 151, 180, 234, 184, 176, 32, 236, 139, 164, 237, 140, 168, 58, 32]) @ err], db)
                   | Inr dsn \<Rightarrow>
                       (case RunMigrations (ci_db ci) ''migrations'' keys_script db of
                          (Some err, db') \<Rightarrow> (Inl [(bytes [235, 167, 136, 236, 157, 180, 234, 183, 184, 235, 160, 136, 236, 157, 180, 236, 133, 152, 32, 236, 139, 164, 237, 140, 168, 58, 32]) @ err], db')
                        | (None, db') \<Rightarrow>
                            (Inr (\<lparr>kst_rows = kd_rows db', kst_next_id = kd_next_id db', kst_encryptor = encryptor\<rparr>,
                                  kd_audit db'), db'))))))"

definition stored :: "KeyStore \<Rightarrow> AuditLog \<Rightarrow> key_db" where
  "stored ks al = \<lparr>kd_rows = kst_rows ks, kd_next_id = kst_next_id ks, kd_audit = al\<rparr>"

text \<open>An entry of the audit log whose error is ignored.\<close>

definition cli_audit :: "cli_env \<Rightarrow> nat \<Rightarrow> int \<Rightarrow> string \<Rightarrow> string \<Rightarrow> AuditLog \<Rightarrow> AuditLog" where
  "cli_audit ci i keyID action detail al =
     snd (audit_record (ci_fail ci StAudit) (cr_time (ci_crypto ci)) (ci_clock ci i) keyID action ''cli'' detail al)"

subsection \<open>add\<close>

text \<open>
  One option \<open>a\<close> with its value \<open>x\<close>: \<^const>\<open>None\<close> when \<open>a\<close> is none of them.  The loop over the options keeps the
  value and the type of the key; \<open>Inl\<close> is the error of a file that cannot be read.
\<close>

definition add_option :: "read_file \<Rightarrow> string \<Rightarrow> string \<Rightarrow> string \<times> string \<Rightarrow> (error_text + (string \<times> string)) option" where
  "add_option rd a x r =
     (if a = ''--value'' \<or> a = ''-v'' then Some (Inr (x, ''api_key''))
      else if a = ''--file'' \<or> a = ''-f''
      then Some (case rd x of Inl err \<Rightarrow> Inl err | Inr data \<Rightarrow> Inr (data, ''service_account_json''))
      else if a = ''--type'' \<or> a = ''-t'' then Some (Inr (fst r, x))
      else None)"

definition rotate_option :: "read_file \<Rightarrow> string \<Rightarrow> string \<Rightarrow> string \<Rightarrow> (error_text + string) option" where
  "rotate_option rd a x v =
     (if a = ''--value'' \<or> a = ''-v'' then Some (Inr x)
      else if a = ''--file'' \<or> a = ''-f'' then Some (case rd x of Inl err \<Rightarrow> Inl err | Inr data \<Rightarrow> Inr data)
      else None)"

fun parse_options :: "(string \<Rightarrow> string \<Rightarrow> 'r \<Rightarrow> (error_text + 'r) option) \<Rightarrow> string list \<Rightarrow> 'r \<Rightarrow> error_text + 'r" where
  "parse_options f [] r = Inr r"
| "parse_options f [a] r = Inr r"
| "parse_options f (a # x # args) r =
     (case f a x r of
        None \<Rightarrow> parse_options f (x # args) r
      | Some (Inl err) \<Rightarrow> Inl err
      | Some (Inr r') \<Rightarrow> parse_options f args r')"

definition runKeysAdd :: "cli_env \<Rightarrow> string list \<Rightarrow> key_db \<Rightarrow> cli_result \<times> key_db" where
  "runKeysAdd ci args db =
     (case args of
        [] \<Rightarrow> (exit_error [(bytes [236, 130, 172, 236, 154, 169, 235, 178, 149, 58, 32, 101, 122, 97, 105, 32, 107, 101, 121, 115, 32, 97, 100, 100, 32, 60, 112, 114, 111, 118, 105, 100, 101, 114, 62, 32, 45, 45, 118, 97, 108, 117, 101, 32, 60, 107, 101, 121, 62, 32, 235, 152, 144, 235, 138, 148, 32, 45, 45, 102, 105, 108, 101, 32, 60, 112, 97, 116, 104, 62])], db)
      | providerName # options \<Rightarrow>
          (case parse_options (add_option (ci_read ci)) options ([], []) of
             Inl err \<Rightarrow> (exit_error [(bytes [237, 140, 140, 236, 157, 188, 32, 236, 157, 189, 234, 184, 176, 32, 236, 139, 164, 237, 140, 168, 58, 32]) @ err], db)
           | Inr (keyValue, typ) \<Rightarrow>
               if keyValue = [] then (exit_error [(bytes [237, 130, 164, 32, 234, 176, 146, 236, 157, 132, 32, 236, 167, 128, 236, 160, 149, 237, 149, 152, 236, 132, 184, 236, 154, 148, 58, 32, 45, 45, 118, 97, 108, 117, 101, 32, 60, 107, 101, 121, 62, 32, 235, 152, 144, 235, 138, 148, 32, 45, 45, 102, 105, 108, 101, 32, 60, 112, 97, 116, 104, 62])], db)
               else
                 (let keyType = (if typ = [] then ''api_key'' else typ) in
                  case openKeyStore ci db of
                    (Inl lines, db') \<Rightarrow> (exit_error lines, db')
                  | (Inr (ks, auditLog), _) \<Rightarrow>
                      (case KeyStore_Create (ci_crypto ci) (ci_fail ci StQuery) (ci_fail ci StExec) (ci_clock ci 0)
                              providerName ''main'' keyValue keyType ks of
                         (Inl err, ks') \<Rightarrow> (exit_error [(bytes [237, 130, 164, 32, 235, 147, 177, 235, 161, 157, 32, 236, 139, 164, 237, 140, 168, 58, 32]) @ err], stored ks' auditLog)
                       | (Inr key, ks') \<Rightarrow>
                           (printed [(bytes [237, 130, 164, 32, 235, 147, 177, 235, 161, 157, 32, 236, 153, 132, 235, 163, 140, 58]), ''  ID:       '' @ show_int (pk_id key),
                              ''  Provider: '' @ pk_provider key, ''  Type:     '' @ pk_key_type key],
                            stored ks' (cli_audit ci 1 (pk_id key) ''created'' (bytes [67, 76, 73, 235, 161, 156, 32, 237, 130, 164, 32, 235, 147, 177, 235, 161, 157, 47, 236, 151, 133, 235, 141, 176, 236, 157, 180, 237, 138, 184]) auditLog))))))"

subsection \<open>list\<close>

text \<open>\<^verbatim>\<open>%-12s\<close>: padded with blanks to a number of runes.\<close>

definition pad :: "nat \<Rightarrow> string \<Rightarrow> string" where
  "pad n s = s @ replicate (n - length (runes s)) CHR '' ''"

definition key_line :: "string \<Rightarrow> string \<Rightarrow> string \<Rightarrow> string \<Rightarrow> string \<Rightarrow> string" where
  "key_line i p t n a = join '' '' [pad 4 i, pad 12 p, pad 12 t, pad 22 n, pad 8 a]"

definition runKeysList :: "cli_env \<Rightarrow> key_db \<Rightarrow> cli_result \<times> key_db" where
  "runKeysList ci db =
     (case openKeyStore ci db of
        (Inl lines, db') \<Rightarrow> (exit_error lines, db')
      | (Inr (ks, auditLog), db') \<Rightarrow>
          (case KeyStore_List (ci_fail ci StQuery) ks of
             Inl err \<Rightarrow> (exit_error [(bytes [237, 130, 164, 32, 235, 170, 169, 235, 161, 157, 32, 236, 161, 176, 237, 154, 140, 32, 236, 139, 164, 237, 140, 168, 58, 32]) @ err], db')
           | Inr keys \<Rightarrow>
               if keys = [] then (printed [(bytes [235, 147, 177, 235, 161, 157, 235, 144, 156, 32, 237, 130, 164, 234, 176, 128, 32, 236, 151, 134, 236, 138, 181, 235, 139, 136, 235, 139, 164, 46])], db')
               else
                 (printed (key_line ''ID'' ''Provider'' ''Type'' ''KeyName'' ''Active'' # replicate 62 CHR ''-'' #
                    map (\<lambda>k. key_line (show_int (pk_id k)) (pk_provider k) (pk_key_type k) (pk_key_name k)
                               (if pk_is_active k then (bytes [226, 156, 147]) else (bytes [226, 156, 151]))) keys), db')))"

subsection \<open>delete and rotate\<close>

text \<open>
  \<^verbatim>\<open>fmt.Sscanf(s, "%d", &id)\<close>: blanks other than a newline, a sign, and the digits that follow; 0 when there are none
  or the number does not fit in 64 bits.
\<close>

definition digits_of :: "string \<Rightarrow> string" where
  "digits_of s = takeWhile (\<lambda>c. digit_value c \<noteq> None) s"

definition scan_int :: "string \<Rightarrow> int" where
  "scan_int s =
     (let s = dropWhile (\<lambda>c. is_space c \<and> c \<noteq> CHR 0x0A) s;
          neg = has_prefix s ''-'';
          ds = digits_of (if neg \<or> has_prefix s ''+'' then drop 1 s else s);
          n = (case parse_digits 0 ds of Some k \<Rightarrow> if neg then - int k else int k | None \<Rightarrow> 0)
      in if ds = [] \<or> int64 n \<noteq> n then 0 else n)"

definition runKeysDelete :: "cli_env \<Rightarrow> string list \<Rightarrow> key_db \<Rightarrow> cli_result \<times> key_db" where
  "runKeysDelete ci args db =
     (case args of
        [] \<Rightarrow> (exit_error [(bytes [236, 130, 172, 236, 154, 169, 235, 178, 149, 58, 32, 101, 122, 97, 105, 32, 107, 101, 121, 115, 32, 100, 101, 108, 101, 116, 101, 32, 60, 105, 100, 62])], db)
      | a # _ \<Rightarrow>
          (let keyID = scan_int a in
           case openKeyStore ci db of
             (Inl lines, db') \<Rightarrow> (exit_error lines, db')
           | (Inr (ks, auditLog), _) \<Rightarrow>
               (case KeyStore_Deactivate (ci_crypto ci) (ci_fail ci StExec) (ci_clock ci 0) keyID ks of
                  (Some err, ks') \<Rightarrow> (exit_error [(bytes [237, 130, 164, 32, 235, 185, 132, 237, 153, 156, 236, 132, 177, 237, 153, 148, 32, 236, 139, 164, 237, 140, 168, 58, 32]) @ err], stored ks' auditLog)
                | (None, ks') \<Rightarrow>
                    (printed [(bytes [237, 130, 164, 32, 35]) @ show_int keyID @ (bytes [32, 235, 185, 132, 237, 153, 156, 236, 132, 177, 237, 153, 148, 32, 236, 153, 132, 235, 163, 140])],
                     stored ks' (cli_audit ci 1 keyID ''deactivated'' (bytes [67, 76, 73, 235, 161, 156, 32, 237, 130, 164, 32, 235, 185, 132, 237, 153, 156, 236, 132, 177, 237, 153, 148]) auditLog)))))"

definition runKeysRotate :: "cli_env \<Rightarrow> string list \<Rightarrow> key_db \<Rightarrow> cli_result \<times> key_db" where
  "runKeysRotate ci args db =
     (case args of
        [] \<Rightarrow> (exit_error [(bytes [236, 130, 172, 236, 154, 169, 235, 178, 149, 58, 32, 101, 122, 97, 105, 32, 107, 101, 121, 115, 32, 114, 111, 116, 97, 116, 101, 32, 60, 105, 100, 62, 32, 45, 45, 118, 97, 108, 117, 101, 32, 60, 110, 101, 119, 95, 107, 101, 121, 62, 32, 235, 152, 144, 235, 138, 148, 32, 45, 45, 102, 105, 108, 101, 32, 60, 112, 97, 116, 104, 62])], db)
      | a # options \<Rightarrow>
          (let keyID = scan_int a in
           case parse_options (rotate_option (ci_read ci)) options [] of
             Inl err \<Rightarrow> (exit_error [(bytes [237, 140, 140, 236, 157, 188, 32, 236, 157, 189, 234, 184, 176, 32, 236, 139, 164, 237, 140, 168, 58, 32]) @ err], db)
           | Inr newValue \<Rightarrow>
               if newValue = [] then (exit_error [(bytes [236, 131, 136, 32, 237, 130, 164, 32, 234, 176, 146, 236, 157, 132, 32, 236, 167, 128, 236, 160, 149, 237, 149, 152, 236, 132, 184, 236, 154, 148, 58, 32, 45, 45, 118, 97, 108, 117, 101, 32, 60, 107, 101, 121, 62, 32, 235, 152, 144, 235, 138, 148, 32, 45, 45, 102, 105, 108, 101, 32, 60, 112, 97, 116, 104, 62])], db)
               else
                 (case openKeyStore ci db of
                    (Inl lines, db') \<Rightarrow> (exit_error lines, db')
                  | (Inr (ks, auditLog), _) \<Rightarrow>
                      (case KeyStore_Rotate (ci_crypto ci) (ci_fail ci StQuery) (ci_fail ci StBegin) (ci_fail ci StUpdate)
                              (ci_fail ci StInsert) (ci_fail ci StCommit) (ci_clock ci 0) keyID newValue ks of
                         (Inl err, ks') \<Rightarrow> (exit_error [(bytes [237, 130, 164, 32, 235, 161, 156, 237, 133, 140, 236, 157, 180, 236, 133, 152, 32, 236, 139, 164, 237, 140, 168, 58, 32]) @ db_error_text err], stored ks' auditLog)
                       | (Inr newKey, ks') \<Rightarrow>
                           (printed [(bytes [237, 130, 164, 32, 235, 161, 156, 237, 133, 140, 236, 157, 180, 236, 133, 152, 32, 236, 153, 132, 235, 163, 140, 58, 32, 35]) @ show_int keyID @ (bytes [40, 235, 185, 132, 237, 153, 156, 236, 132, 177, 237, 153, 148, 41, 32, 226, 134, 146, 32, 35]) @
                              show_int (pk_id newKey) @ (bytes [40, 236, 139, 160, 234, 183, 156, 41])],
                            stored ks' (cli_audit ci 2 (pk_id newKey) ''created'' (bytes [235, 161, 156, 237, 133, 140, 236, 157, 180, 236, 133, 152, 236, 156, 188, 235, 161, 156, 32, 236, 131, 157, 236, 132, 177, 235, 144, 156, 32, 236, 131, 136, 32, 237, 130, 164])
                              (cli_audit ci 1 keyID ''rotated'' (bytes [67, 76, 73, 235, 161, 156, 32, 237, 130, 164, 32, 235, 161, 156, 237, 133, 140, 236, 157, 180, 236, 133, 152]) auditLog)))))))"

subsection \<open>init-db\<close>

text \<open>The file \<^verbatim>\<open>.env\<close>: its contents, or the error of reading it.\<close>

type_synonym env_file = "error_text + string"

definition key_set_line :: "string \<Rightarrow> bool" where
  "key_set_line l =
     (let line = trim_space l in has_prefix line ''EZAI_DB_KEY='' \<and> trim_prefix line ''EZAI_DB_KEY='' \<noteq> [])"

definition env_content :: "string \<Rightarrow> env_file \<Rightarrow> string" where
  "env_content key f =
     (let content = ''export EZAI_DB_KEY='' @ key @ newline in
      case f of
        Inl _ \<Rightarrow> content
      | Inr existing \<Rightarrow>
          if contains existing ''EZAI_DB_KEY=''
          then replace_first
                 (replace_first existing (''EZAI_DB_KEY='' @ newline) (''EZAI_DB_KEY='' @ key @ newline))
                 ''EZAI_DB_KEY= '' (''EZAI_DB_KEY='' @ key @ '' '')
          else existing @ content)"

definition already_set_text :: string where
  "already_set_text = (bytes [69, 90, 65, 73, 95, 68, 66, 95, 75, 69, 89, 234, 176, 128, 32, 236, 157, 180, 235, 175, 184, 32, 236, 132, 164, 236, 160, 149, 235, 144, 152, 236, 150, 180, 32, 236, 158, 136, 236, 138, 181, 235, 139, 136, 235, 139, 164, 46])"

definition key_written_texts :: "string list" where
  "key_written_texts = [(bytes [68, 66, 32, 236, 149, 148, 237, 152, 184, 237, 153, 148, 32, 237, 130, 164, 32, 236, 131, 157, 236, 132, 177, 32, 236, 153, 132, 235, 163, 140, 32, 226, 134, 146, 32, 46, 101, 110, 118]), (bytes [236, 157, 180, 236, 160, 156, 32, 237, 130, 164, 235, 165, 188, 32, 235, 147, 177, 235, 161, 157, 237, 149, 152, 236, 132, 184, 236, 154, 148, 58]),
     ''  source .env && ezai keys add gemini --file /path/to/sa.json'',
     ''  source .env && ezai keys add claude --value sk-ant-...'']"

definition runKeysInitDB :: "cli_env \<Rightarrow> env_file \<Rightarrow> cli_result \<times> env_file" where
  "runKeysInitDB ci f =
     (if (case f of Inr s \<Rightarrow> contains s ''EZAI_DB_KEY='' \<and> list_ex key_set_line (split_at (CHR 0x0A) s) | Inl _ \<Rightarrow> False)
      then (printed [already_set_text], f)
      else
        (case GenerateKey (ci_key_bytes ci) of
           Inl err \<Rightarrow> (exit_error [(bytes [237, 130, 164, 32, 236, 131, 157, 236, 132, 177, 32, 236, 139, 164, 237, 140, 168, 58, 32]) @ err], f)
         | Inr key \<Rightarrow>
             (case ci_write ci of
                Some err \<Rightarrow> (exit_error [(bytes [46, 101, 110, 118, 32, 237, 140, 140, 236, 157, 188, 32, 236, 147, 176, 234, 184, 176, 32, 236, 139, 164, 237, 140, 168, 58, 32]) @ err], f)
              | None \<Rightarrow> (printed key_written_texts, Inr (env_content key f)))))"

subsection \<open>The command line\<close>

definition keys_usage :: string where
  "keys_usage = (bytes [236, 130, 172, 236, 154, 169, 235, 178, 149, 58, 10, 32, 32, 101, 122, 97, 105, 32, 107, 101, 121, 115, 32, 97, 100, 100, 32, 60, 112, 114, 111, 118, 105, 100, 101, 114, 62, 32, 45, 45, 118, 97, 108, 117, 101, 32, 60, 107, 101, 121, 62, 32, 32, 32, 32, 32, 32, 32, 65, 80, 73, 32, 237, 130, 164, 32, 235, 147, 177, 235, 161, 157, 10, 32, 32, 101, 122, 97, 105, 32, 107, 101, 121, 115, 32, 97, 100, 100, 32, 60, 112, 114, 111, 118, 105, 100, 101, 114, 62, 32, 45, 45, 102, 105, 108, 101, 32, 60, 112, 97, 116, 104, 62, 32, 32, 32, 32, 32, 32, 32, 237, 140, 140, 236, 157, 188, 236, 151, 144, 236, 132, 156, 32, 237, 130, 164, 32, 235, 147, 177, 235, 161, 157, 32, 40, 71, 101, 109, 105, 110, 105, 32, 236, 132, 156, 235, 185, 132, 236, 138, 164, 32, 234, 179, 132, 236, 160, 149, 32, 74, 83, 79, 78, 41, 10, 32, 32, 101, 122, 97, 105, 32, 107, 101, 121, 115, 32, 108, 105, 115, 116, 32, 32, 32, 32, 32, 32, 32, 32, 32, 32, 32, 32, 32, 32, 32, 32, 32, 32, 32, 32, 32, 32, 32, 32, 32, 32, 32, 32, 32, 32, 32, 235, 147, 177, 235, 161, 157, 235, 144, 156, 32, 237, 130, 164, 32, 235, 170, 169, 235, 161, 157, 10, 32, 32, 101, 122, 97, 105, 32, 107, 101, 121, 115, 32, 100, 101, 108, 101, 116, 101, 32, 60, 105, 100, 62, 32, 32, 32, 32, 32, 32, 32, 32, 32, 32, 32, 32, 32, 32, 32, 32, 32, 32, 32, 32, 32, 32, 32, 32, 237, 130, 164, 32, 235, 185, 132, 237, 153, 156, 236, 132, 177, 237, 153, 148, 10, 32, 32, 101, 122, 97, 105, 32, 107, 101, 121, 115, 32, 114, 111, 116, 97, 116, 101, 32, 60, 105, 100, 62, 32, 45, 45, 118, 97, 108, 117, 101, 32, 60, 110, 101, 119, 95, 107, 101, 121, 62, 32, 32, 32, 32, 32, 32, 237, 130, 164, 32, 235, 161, 156, 237, 133, 140, 236, 157, 180, 236, 133, 152, 10, 32, 32, 101, 122, 97, 105, 32, 107, 101, 121, 115, 32, 105, 110, 105, 116, 45, 100, 98, 32, 32, 32, 32, 32, 32, 32, 32, 32, 32, 32, 32, 32, 32, 32, 32, 32, 32, 32, 32, 32, 32, 32, 32, 32, 32, 32, 32, 68, 66, 32, 236, 149, 148, 237, 152, 184, 237, 153, 148, 32, 237, 130, 164, 32, 236, 131, 157, 236, 132, 177, 32, 40, 46, 101, 110, 118, 236, 151, 144, 32, 236, 160, 128, 236, 158, 165, 41])"

definition runKeysCommand :: "cli_env \<Rightarrow> string list \<Rightarrow> key_db \<times> env_file \<Rightarrow> cli_result \<times> key_db \<times> env_file" where
  "runKeysCommand ci args s =
     (case s of (db, f) \<Rightarrow>
        (let on_db = (\<lambda>(r, db'). (r, db', f)) in
         case args of
           [] \<Rightarrow> (printed [keys_usage], db, f)
         | cmd # rest \<Rightarrow>
             if cmd = ''init-db'' then (case runKeysInitDB ci f of (r, f') \<Rightarrow> (r, db, f'))
             else if cmd = ''add'' then on_db (runKeysAdd ci rest db)
             else if cmd = ''list'' then on_db (runKeysList ci db)
             else if cmd = ''delete'' then on_db (runKeysDelete ci rest db)
             else if cmd = ''rotate'' then on_db (runKeysRotate ci rest db)
             else (exit_error [(bytes [236, 149, 140, 32, 236, 136, 152, 32, 236, 151, 134, 235, 138, 148, 32, 237, 130, 164, 32, 236, 187, 164, 235, 167, 168, 235, 147, 156, 58, 32]) @ cmd], db, f)))"

datatype cli_command = RunKeys "string list" | PrintUsage | RunServe

text \<open>\<open>args\<close> are the arguments after the program's name.\<close>

definition main_command :: "string list \<Rightarrow> cli_command" where
  "main_command args =
     (case args of
        [] \<Rightarrow> RunServe
      | a # rest \<Rightarrow>
          if a = ''keys'' then RunKeys rest
          else if a = ''help'' \<or> a = ''-h'' \<or> a = ''--help'' then PrintUsage
          else RunServe)"

subsection \<open>A second init-db\<close>

text \<open>A byte that is not in a pattern separates its occurrences.\<close>

lemma prefix_to_foreign: "c \<notin> set p \<Longrightarrow> prefix p (s @ c # t) \<longleftrightarrow> prefix p s"
proof (induction s arbitrary: p)
  case Nil
  then show ?case by (cases p) auto
next
  case (Cons a s)
  then show ?case by (cases p) auto
qed

lemma contains_around_foreign: "c \<notin> set p \<Longrightarrow> p \<noteq> [] \<Longrightarrow> contains (s @ c # t) p \<longleftrightarrow> contains s p \<or> contains t p"
proof (induction s)
  case Nil
  then show ?case by (cases p) auto
next
  case (Cons a s)
  then show ?case using prefix_to_foreign [of c p "a # s" t] by simp
qed

lemma contains_without_head: "c \<notin> set s \<Longrightarrow> \<not> contains s (c # p)"
  by (induction s) auto

lemma contains_shorter: "contains s (p @ q) \<Longrightarrow> contains s p"
  by (auto simp: contains_code)

lemma replace_first_absent: "\<not> contains s old \<Longrightarrow> replace_first s old new = s"
  by (induction s) auto

lemma split_at_contains: "l \<in> set (split_at sep s) \<Longrightarrow> contains s l"
proof (induction s arbitrary: l)
  case (Cons c s)
  obtain t ts where t: "split_at sep s = t # ts" by (metis list.exhaust split_at_neq_Nil)
  show ?case
  proof (cases "c = sep")
    case True
    then have "l = [] \<or> contains s l" using Cons by auto
    then show ?thesis by auto
  next
    case False
    then have "l = c # t \<or> l \<in> set ts" using Cons.prems t by auto
    then show ?thesis
    proof
      assume "l \<in> set ts"
      then show ?thesis using Cons.IH [of l] t by simp
    next
      have "prefix (fst (t, s)) s" using t
        by (induction s arbitrary: t ts) (auto split: if_splits list.splits)
      then show ?thesis if "l = c # t" using that by simp
    qed
  qed
qed simp

abbreviation key_var :: string where
  "key_var \<equiv> ''EZAI_DB_KEY=''"

lemma newline_eq: "newline = [CHR 0x0A]"
  by code_simp

lemma trim_space_prefix: "prefix (trim_space l) (dropWhile is_space l)"
  using suffix_dropWhile [of is_space "rev (dropWhile is_space l)"] by (simp add: trim_space_def suffix_to_prefix)

lemma set_line_contains: "key_set_line l \<Longrightarrow> contains l key_var"
proof -
  assume "key_set_line l"
  then have "prefix key_var (trim_space l)" by (simp add: key_set_line_def Let_def has_prefix_def)
  moreover have "sublist (trim_space l) l"
  proof -
    have "suffix (dropWhile is_space l) l" by (rule suffix_dropWhile)
    then show ?thesis using trim_space_prefix [of l] by (meson prefix_imp_sublist sublist_order.order_trans suffix_imp_sublist)
  qed
  ultimately show ?thesis by (meson contains_iff_sublist prefix_imp_sublist sublist_order.order_trans)
qed

text \<open>A line that goes on after \<open>export\<close> is not recognised.\<close>

lemma export_line_unset:
  assumes "\<not> contains u key_var"
  shows "\<not> key_set_line (u @ ''export '' @ w)"
proof
  assume "key_set_line (u @ ''export '' @ w)"
  then have "prefix key_var (trim_space (u @ ''export '' @ w))" by (simp add: key_set_line_def Let_def has_prefix_def)
  then have p: "prefix key_var (dropWhile is_space (u @ CHR ''e'' # ''xport '' @ w))"
    using trim_space_prefix [of "u @ ''export '' @ w"] prefix_order.order_trans by simp
  show False
  proof (cases "\<exists>c \<in> set u. \<not> is_space c")
    case True
    then obtain c where c: "c \<in> set u" "\<not> is_space c" by blast
    have "prefix key_var (dropWhile is_space u @ CHR ''e'' # ''xport '' @ w)"
      using p unfolding dropWhile_append1 [of c u is_space, OF c] .
    then have "prefix key_var (dropWhile is_space u)" using prefix_to_foreign [of "CHR ''e''" key_var "dropWhile is_space u"] by simp
    then have "contains u key_var"
      by (meson contains_iff_sublist prefix_imp_sublist sublist_order.order_trans suffix_dropWhile suffix_imp_sublist)
    then show False using assms by blast
  next
    case False
    then have "dropWhile is_space (u @ CHR ''e'' # ''xport '' @ w) = CHR ''e'' # ''xport '' @ w"
      by (simp add: dropWhile_append2 is_space_def Let_def)
    then show False using p by simp
  qed
qed

lemma hex_key_chars: "c \<in> set (hex_encode k) \<Longrightarrow> c \<noteq> CHR ''E'' \<and> c \<noteq> CHR 0x0A \<and> c \<noteq> CHR '' ''"
  using hex_encode_chars [of c k]
  by (auto simp: hex_digit_def split: if_splits dest!: arg_cong [where f = "of_char :: char \<Rightarrow> nat"])

text \<open>The file after the first run.\<close>

definition first_env :: "env_file \<Rightarrow> string \<Rightarrow> string" where
  "first_env f k = (case f of Inl _ \<Rightarrow> [] | Inr s \<Rightarrow> s) @ ''export '' @ key_var @ hex_encode k @ newline"

definition no_key_var :: "env_file \<Rightarrow> bool" where
  "no_key_var f \<longleftrightarrow> (case f of Inl _ \<Rightarrow> True | Inr s \<Rightarrow> \<not> contains s key_var)"

lemma no_empty_value:
  assumes "\<not> contains s key_var" and "k \<noteq> []" and "x = CHR 0x0A \<or> x = CHR '' ''"
  shows "\<not> contains (s @ ''export '' @ key_var @ hex_encode k @ newline) (key_var @ [x])"
proof -
  have "length (hex_encode k) \<noteq> 0" using assms(2) by simp
  then obtain h hs where h: "hex_encode k = h # hs" by (cases "hex_encode k") auto
  then have hx: "h \<noteq> x" "CHR ''E'' \<notin> set (h # hs @ newline)"
    using hex_key_chars [of _ k] assms(3) by (auto simp: newline_eq)
  have "\<not> contains s (key_var @ [x])" using assms(1) contains_shorter by blast
  moreover have "\<not> contains (h # hs @ newline) (key_var @ [x])"
    using contains_without_head [OF hx(2), of "''ZAI_DB_KEY='' @ [x]"] by simp
  moreover have "CHR ''e'' \<notin> set (key_var @ [x])" using assms(3) by auto
  ultimately show ?thesis
    using contains_around_foreign [of "CHR ''e''" "key_var @ [x]" s "''xport '' @ key_var @ hex_encode k @ newline"] hx(1)
    by (auto simp: h)
qed

lemma first_env_lines:
  assumes "\<not> contains s key_var"
  shows "\<not> list_ex key_set_line (split_at (CHR 0x0A) (s @ ''export '' @ key_var @ hex_encode k @ newline))"
proof -
  let ?nl = "CHR 0x0A" and ?w = "key_var @ hex_encode k"
  have no: "?nl \<notin> set (''export '' @ ?w)" using hex_key_chars [of _ k] by auto
  have last: "split_at ?nl (t @ ''export '' @ ?w @ newline) = [t @ ''export '' @ ?w, []]" if "?nl \<notin> set t" for t
    using split_at_join [of ?nl "t @ ''export '' @ ?w" "[]"] split_at_no_sep [of ?nl "t @ ''export '' @ ?w"] no that
    by (simp add: newline_eq)
  have unset: "\<not> key_set_line []" "\<And>t. \<not> contains t key_var \<Longrightarrow> \<not> key_set_line (t @ ''export '' @ ?w)"
    using set_line_contains [of "[]"] export_line_unset by auto
  show ?thesis
  proof (cases "?nl \<in> set s")
    case False
    then show ?thesis using last [of s] unset(1) unset(2) [OF assms] by simp
  next
    case True
    then obtain a b where s: "s = a @ ?nl # b" "?nl \<notin> set b" by (metis split_list_last)
    have "\<not> contains a key_var" "\<not> contains b key_var"
      using assms contains_around_foreign [of ?nl key_var a b] by (simp_all add: s(1))
    moreover have "\<not> key_set_line l" if "l \<in> set (split_at ?nl a)" for l
      using that split_at_contains [of l ?nl a] set_line_contains [of l] \<open>\<not> contains a key_var\<close>
      by (meson contains_iff_sublist sublist_order.order_trans)
    ultimately show ?thesis
      using split_at_join [of ?nl a "b @ ''export '' @ ?w @ newline"] last [OF s(2)] unset
      by (auto simp: s(1) list_ex_iff)
  qed
qed

lemma env_content_first: "no_key_var f \<Longrightarrow> env_content (hex_encode k) f = first_env f k"
  by (auto simp: env_content_def first_env_def no_key_var_def Let_def split: sum.split)

lemma env_content_again:
  assumes "no_key_var f" and "k \<noteq> []"
  shows "env_content key (Inr (first_env f k)) = first_env f k"
proof -
  let ?s = "case f of Inl _ \<Rightarrow> [] | Inr s \<Rightarrow> s"
  have s: "\<not> contains ?s key_var" using assms(1) by (auto simp: no_key_var_def split: sum.splits)
  have a: "\<not> contains (first_env f k) (key_var @ newline)" "\<not> contains (first_env f k) (key_var @ '' '')"
    using no_empty_value [OF s assms(2)] by (simp_all add: first_env_def newline_eq)
  have "contains (first_env f k) key_var" by (simp only: first_env_def contains_append contains_prefixI)
    (metis append_assoc contains_append contains_prefixI prefix_order.refl)
  then show ?thesis
    using replace_first_absent [OF a(1)] replace_first_absent [OF a(2)] by (simp add: env_content_def Let_def)
qed

text \<open>
  C36. A second \<^verbatim>\<open>init-db\<close> keeps the key but reports a new one.  The first run appends the new key to \<^verbatim>\<open>.env\<close>
  as an \<^verbatim>\<open>export\<close> line; the check of the second run looks for lines that begin with the name of the variable,
  does not see it, generates another key, writes the file back unchanged, and prints that a key was created.
\<close>

theorem second_init_db_changes_nothing:
  assumes "ci_key_bytes ci = Inr k" and "k \<noteq> []" and "ci_write ci = None" and "no_key_var f"
    and "ci_key_bytes ci' = Inr k'" and "ci_write ci' = None"
  shows "runKeysInitDB ci f = (printed key_written_texts, Inr (first_env f k)) \<and>
    runKeysInitDB ci' (Inr (first_env f k)) = (printed key_written_texts, Inr (first_env f k))"
proof
  let ?s = "case f of Inl _ \<Rightarrow> [] | Inr s \<Rightarrow> s"
  have s: "\<not> contains ?s key_var" using assms(4) by (auto simp: no_key_var_def split: sum.splits)
  have "\<not> (case f of Inl _ \<Rightarrow> False | Inr s \<Rightarrow> contains s key_var \<and> list_ex key_set_line (split_at (CHR 0x0A) s))"
    using assms(4) by (auto simp: no_key_var_def split: sum.splits)
  then show "runKeysInitDB ci f = (printed key_written_texts, Inr (first_env f k))"
    using assms(1,3) env_content_first [OF assms(4)] by (simp add: runKeysInitDB_def GenerateKey_def)
  show "runKeysInitDB ci' (Inr (first_env f k)) = (printed key_written_texts, Inr (first_env f k))"
    using first_env_lines [OF s, of k] assms(5,6) env_content_again [OF assms(4,2)]
    by (simp add: runKeysInitDB_def GenerateKey_def first_env_def [symmetric]) (simp add: first_env_def)
qed

definition bare_cli :: "string \<Rightarrow> cli_env" where
  "bare_cli k = \<lparr>ci_getenv = (\<lambda>_. []), ci_read = (\<lambda>_. Inl ''absent''), ci_write = None, ci_key_bytes = Inr k,
     ci_crypto = sample_crypto, ci_clock = (\<lambda>_. 0), ci_config = (\<lambda>_. Inl ''bad''), ci_fallback_config = (\<lambda>_. Inl ''bad''),
     ci_db = \<lparr>dl_mkdir = (\<lambda>_. None), dl_open = (\<lambda>_. None), dl_ping = (\<lambda>_. None), dl_exists = (\<lambda>_. True),
       dl_chmod = (\<lambda>_. None), dl_query_escape = id, dl_read_dir = (\<lambda>_. Inr []), dl_read = (\<lambda>_. Inr []),
       dl_exec = (\<lambda>_ d. (None, d))\<rparr>,
     ci_fail = (\<lambda>_. None)\<rparr>"

theorem second_init_db_changes_nothing_witness:
  "runKeysInitDB (bare_cli ''k1'') (Inl ''absent'') = (printed key_written_texts, Inr (first_env (Inl ''absent'') ''k1'')) \<and>
   runKeysInitDB (bare_cli ''k2'') (Inr (first_env (Inl ''absent'') ''k1'')) =
     (printed key_written_texts, Inr (first_env (Inl ''absent'') ''k1''))"
  by (rule second_init_db_changes_nothing [where k' = "''k2''"])
    (simp_all add: bare_cli_def no_key_var_def)

subsection \<open>A key that was added\<close>

lemma filter_single:
  assumes "distinct xs" and "r \<in> set xs" and "P r" and "\<And>x. x \<in> set xs \<Longrightarrow> P x \<Longrightarrow> x = r"
  shows "filter P xs = [r]"
  using assms
proof (induction xs)
  case (Cons a xs)
  show ?case
  proof (cases "a = r")
    case True
    then have "filter P xs = []" using Cons.prems by (fastforce simp: filter_empty_conv)
    then show ?thesis using True Cons.prems(3) by simp
  next
    case False
    then have "\<not> P a" using Cons.prems(4) by auto
    moreover have "filter P xs = [r]" by (rule Cons.IH) (use Cons.prems False in auto)
    ultimately show ?thesis by simp
  qed
qed simp

text \<open>The only key of a provider is the active one after \<^verbatim>\<open>Create\<close>.\<close>

lemma created_is_active:
  assumes "store_ok ks" and "aead_ok (cr_aead env)"
    and "cr_rand env = Inr nonce" and "length nonce = aead_nonce_size (cr_aead env)"
    and "KeyStore_Create env failQuery failExec now provider ''main'' v typ ks = (Inr key, ks')"
    and "\<forall>n. (provider, n) \<in> key_names ks \<longrightarrow> n = ''main''"
  shows "store_ok ks' \<and> kst_encryptor ks' = kst_encryptor ks \<and> (\<forall>n. (provider, n) \<in> key_names ks' \<longrightarrow> n = ''main'') \<and>
    GetActiveByProviderWithID env None provider ks' = Inr (pk_id key, v)"
proof -
  note c = created_row [OF assms(1-5)]
  then obtain r where r: "find_id ks' (pk_id key) = Some r" "pk_provider r = provider" "pk_key_name r = ''main''" "pk_is_active r"
    "Decrypt (cr_aead env) (kst_encryptor ks) (pk_encrypted r) = Inr v" by blast
  have names: "\<forall>n. (provider, n) \<in> key_names ks' \<longrightarrow> n = ''main''" using c assms(6) by auto
  have d: "distinct (map (\<lambda>r. (pk_provider r, pk_key_name r)) (kst_rows ks'))" using c by (simp add: store_ok_def)
  have "filter (\<lambda>x. pk_provider x = provider \<and> pk_is_active x) (kst_rows ks') = [r]"
  proof (rule filter_single)
    show "distinct (kst_rows ks')" using d by (simp add: distinct_map)
    show "r \<in> set (kst_rows ks')" using find_id_Some [OF r(1)] by simp
    fix x
    assume x: "x \<in> set (kst_rows ks')" "pk_provider x = provider \<and> pk_is_active x"
    then have "pk_key_name x = ''main''" using names by (force simp: key_names_def)
    then show "x = r"
      using d x r(2,3) find_id_Some [OF r(1)] by (auto simp: distinct_map dest: inj_onD)
  qed (use r in simp)
  then have "newest_active ks' provider = Some r" by (simp add: newest_active_def newest_first_def)
  then show ?thesis using c r(5) names find_id_Some [OF r(1)] by (simp add: GetActiveByProviderWithID_def)
qed

end
