(* ===== verification/Startup.thy ===== *)
theory Startup
  imports Server AdapterStreams KeyCommands
begin

text \<open>
  The start of the gateway in \<^verbatim>\<open>cmd/ezai/main.go\<close>: opening the databases, registering the providers, and the
  dependencies given to the server.  The clients of the SDKs, the parsers and the answer of Redis are arguments.
\<close>

subsection \<open>Registering the providers\<close>

text \<open>\<open>'c\<close>: clients, \<open>'k\<close>: credentials made of a service account.\<close>

record ('c, 'k) provider_lib =
  pl_claude :: "string \<Rightarrow> 'c"
  pl_gpt :: "string \<Rightarrow> 'c"
  pl_perplexity :: "string \<Rightarrow> string \<Rightarrow> 'c"
  pl_ollama :: "string \<Rightarrow> string \<Rightarrow> 'c"
  pl_project_of :: "string \<Rightarrow> error_text + string"
  pl_detect :: "string \<Rightarrow> error_text + 'k"
  pl_gemini :: "string \<Rightarrow> string \<Rightarrow> 'k option \<Rightarrow> error_text + 'c"

text \<open>The active key of a provider in the key database, if there is one and it is not empty.\<close>

definition active_key :: "cli_env \<Rightarrow> KeyStore option \<Rightarrow> string \<Rightarrow> (int \<times> string) option" where
  "active_key ci keyStore providerName =
     (case keyStore of
        None \<Rightarrow> None
      | Some ks \<Rightarrow>
          (case GetActiveByProviderWithID (ci_crypto ci) (ci_fail ci StQuery) providerName ks of
             Inl _ \<Rightarrow> None
           | Inr (i, key) \<Rightarrow> if key \<noteq> [] then Some (i, key) else None))"

text \<open>The key and its id; no id for a key of the environment.\<close>

definition resolveKey :: "cli_env \<Rightarrow> KeyStore option \<Rightarrow> string \<Rightarrow> string \<Rightarrow> string \<times> int" where
  "resolveKey ci keyStore providerName envVar =
     (case active_key ci keyStore providerName of
        Some (i, key) \<Rightarrow> (key, i)
      | None \<Rightarrow> if ci_getenv ci envVar \<noteq> [] then (ci_getenv ci envVar, 0) else ([], 0))"

definition enabled_provider :: "Config \<Rightarrow> string \<Rightarrow> ProviderConfig option" where
  "enabled_provider cfg name =
     (case cfg_providers cfg name of Some pc \<Rightarrow> if pc_enabled pc then Some pc else None | None \<Rightarrow> None)"

definition add_provider :: "error_text + 'c provider \<Rightarrow> int \<Rightarrow> 'c provider Registry \<Rightarrow> 'c provider Registry" where
  "add_provider p keyID r = (case p of Inl _ \<Rightarrow> r | Inr q \<Rightarrow> RegisterWithKeyID Provider_Name q keyID r)"

text \<open>The service account: from the key database, or else from the file the environment names.\<close>

definition gemini_account :: "cli_env \<Rightarrow> KeyStore option \<Rightarrow> string \<times> int" where
  "gemini_account ci keyStore =
     (case active_key ci keyStore ''gemini'' of
        Some (i, v) \<Rightarrow> (v, i)
      | None \<Rightarrow>
          (let credPath = ci_getenv ci ''GOOGLE_APPLICATION_CREDENTIALS'' in
           if credPath = [] then ([], 0)
           else (case ci_read ci credPath of Inr data \<Rightarrow> (data, 0) | Inl _ \<Rightarrow> ([], 0))))"

definition new_gemini :: "cli_env \<Rightarrow> ('c, 'k) provider_lib \<Rightarrow> ProviderConfig \<Rightarrow> string \<Rightarrow> error_text + 'c provider" where
  "new_gemini ci pl pc saJSON =
     NewGeminiProvider (pl_project_of pl) (pl_detect pl) (pl_gemini pl)
       \<lparr>gm_project_id = ci_getenv ci ''EZAI_GEMINI_PROJECT'',
        gm_location = (if pc_location pc = [] then ''us-central1'' else pc_location pc), gm_service_account_json = saJSON\<rparr>"

definition registerProviders ::
  "cli_env \<Rightarrow> ('c, 'k) provider_lib \<Rightarrow> Config \<Rightarrow> KeyStore option \<Rightarrow> 'c provider Registry \<Rightarrow> 'c provider Registry" where
  "registerProviders ci pl cfg keyStore r0 =
     (let r1 = (case enabled_provider cfg ''gemini'' of
            None \<Rightarrow> r0
          | Some pc \<Rightarrow>
              (case gemini_account ci keyStore of (saJSON, keyID) \<Rightarrow> add_provider (new_gemini ci pl pc saJSON) keyID r0));
          r2 = (case enabled_provider cfg ''claude'' of
            None \<Rightarrow> r1
          | Some pc \<Rightarrow>
              (case resolveKey ci keyStore ''claude'' ''ANTHROPIC_API_KEY'' of (key, keyID) \<Rightarrow>
                 add_provider (NewClaudeProvider (pl_claude pl) key) keyID r1));
          r3 = (case enabled_provider cfg ''gpt'' of
            None \<Rightarrow> r2
          | Some pc \<Rightarrow>
              (case resolveKey ci keyStore ''gpt'' ''OPENAI_API_KEY'' of (key, keyID) \<Rightarrow>
                 add_provider (NewGPTProvider (pl_gpt pl) key) keyID r2));
          r4 = (case enabled_provider cfg ''perplexity'' of
            None \<Rightarrow> r3
          | Some pc \<Rightarrow>
              (case resolveKey ci keyStore ''perplexity'' ''PERPLEXITY_API_KEY'' of (key, keyID) \<Rightarrow>
                 add_provider (NewPerplexityProvider (pl_perplexity pl) key (pc_base_url pc)) keyID r3))
      in case enabled_provider cfg ''ollama'' of
           None \<Rightarrow> r4
         | Some pc \<Rightarrow>
             (case NewOllamaProvider (pl_ollama pl) (pc_base_url pc) of
                Inl _ \<Rightarrow> r4
              | Inr p \<Rightarrow> Register Provider_Name p r4))"

subsection \<open>Starting\<close>

text \<open>A fatal log line: its message and the error.\<close>

type_synonym fatal = "string \<times> error_text"

text \<open>The key database; without \<^verbatim>\<open>EZAI_DB_KEY\<close> there is none.\<close>

definition serve_keys :: "cli_env \<Rightarrow> Config \<Rightarrow> key_db \<Rightarrow> (fatal + (KeyStore \<times> AuditLog) option) \<times> key_db" where
  "serve_keys ci cfg db =
     (let dbKey = ci_getenv ci ''EZAI_DB_KEY'' in
      if dbKey = [] then (Inr None, db)
      else
        (case NewEncryptor dbKey of
           Inl err \<Rightarrow> (Inl ((bytes [236, 149, 148, 237, 152, 184, 237, 153, 148, 234, 184, 176, 32, 236, 180, 136, 234, 184, 176, 237, 153, 148, 32, 236, 139, 164, 237, 140, 168]), err), db)
         | Inr encryptor \<Rightarrow>
             (case OpenEncryptedDB (ci_db ci) (dc_keys_path (cfg_database cfg)) dbKey of
                Inl err \<Rightarrow> (Inl ((bytes [237, 130, 164, 32, 68, 66, 32, 236, 180, 136, 234, 184, 176, 237, 153, 148, 32, 236, 139, 164, 237, 140, 168]), err), db)
              | Inr dsn \<Rightarrow>
                  (case RunMigrations (ci_db ci) ''migrations'' keys_script db of
                     (Some err, db') \<Rightarrow> (Inl ((bytes [237, 130, 164, 32, 68, 66, 32, 235, 167, 136, 236, 157, 180, 234, 183, 184, 235, 160, 136, 236, 157, 180, 236, 133, 152, 32, 236, 139, 164, 237, 140, 168]), err), db')
                   | (None, db') \<Rightarrow>
                       (Inr (Some (\<lparr>kst_rows = kd_rows db', kst_next_id = kd_next_id db', kst_encryptor = encryptor\<rparr>,
                                   kd_audit db')), db')))))"

definition default_retention :: RetentionPolicy where
  "default_retention =
     \<lparr>rt_detail_logs = \<lparr>dl_hot_storage_days = 90, dl_archive_after_days = 90, dl_delete_after_days = 365\<rparr>,
      rt_aggregated = \<lparr>ag_daily_keep_days = 0, ag_monthly_keep_years = 0, ag_yearly_keep_years = 0\<rparr>,
      rt_reset = \<lparr>rp_require_confirmation = True, rp_allowed_operations = [''soft_reset'', ''archive'']\<rparr>\<rparr>"

record serve_lib =
  sl_logs_db :: "logs_table db_lib"
  sl_pricing :: "string \<Rightarrow> error_text + price_table"
  sl_retention :: "string \<Rightarrow> error_text + RetentionPolicy"
  sl_logging :: "string \<Rightarrow> error_text + LoggingPolicy"
  sl_redis_ping :: "error_text option"

definition serve_retention :: "cli_env \<Rightarrow> serve_lib \<Rightarrow> RetentionPolicy" where
  "serve_retention ci sl =
     (case LoadRetentionConfig (ci_read ci) (sl_retention sl) (config_dir ci) of
        Inl _ \<Rightarrow> default_retention | Inr p \<Rightarrow> p)"

definition prompts_dir :: "cli_env \<Rightarrow> string" where
  "prompts_dir ci = (if ci_getenv ci ''EZAI_PROMPTS_DIR'' = [] then ''prompts'' else ci_getenv ci ''EZAI_PROMPTS_DIR'')"

text \<open>The dependencies of the server, from the parts that have been opened.\<close>

definition serve_deps ::
  "cli_env \<Rightarrow> ('c, 'k) provider_lib \<Rightarrow> serve_lib \<Rightarrow> Config \<Rightarrow> logs_table \<Rightarrow> (KeyStore \<times> AuditLog) option \<Rightarrow> 'c provider Deps" where
  "serve_deps ci pl sl cfg logs keys =
     (let registry = registerProviders ci pl cfg (map_option fst keys) NewRegistry;
          rt = (case cfg_fallback cfg of None \<Rightarrow> None | Some fb \<Rightarrow> Some (NewRouter registry (Some fb)));
          redis = (sl_redis_ping sl = None)
      in \<lparr>dp_Config = cfg, dp_Registry = registry, dp_Router = rt, dp_KeyStore = (keys \<noteq> None), dp_AuditLog = (keys \<noteq> None),
          dp_LogWriter = Some (NewRequestLogWriter 1000 logs), dp_PromptManager = Some (NewPromptManager (prompts_dir ci)),
          dp_PricingManager = (case NewPricingManager (ci_read ci) (sl_pricing sl) (config_dir ci) of Inl _ \<Rightarrow> None | Inr m \<Rightarrow> Some m),
          dp_UsageReader = True, dp_Cache = (if redis then Some (NewCache 0) else None), dp_Redis = redis, dp_Producer = redis,
          dp_JobStore = redis, dp_Consumer = (if redis then Some (NewConsumer registry (rt \<noteq> None) 3) else None),
          dp_UsageAdmin = True, dp_RetentionConfig = True, dp_ClientKeyStore = (keys \<noteq> None),
          dp_LoggingConfig = Some (LoadLoggingConfig (ci_read ci) (sl_logging sl) (config_dir ci)), dp_ConfigDir = config_dir ci\<rparr>)"

text \<open>Up to the start of the server; \<open>Inl\<close>: the program ends with a fatal error.\<close>

definition runServe ::
  "cli_env \<Rightarrow> ('c, 'k) provider_lib \<Rightarrow> serve_lib \<Rightarrow> logs_table \<Rightarrow> key_db
   \<Rightarrow> (fatal + 'c provider Deps) \<times> logs_table \<times> key_db" where
  "runServe ci pl sl logs db =
     (case load_config ci of
        Inl err \<Rightarrow> (Inl ((bytes [236, 132, 164, 236, 160, 149, 32, 235, 161, 156, 235, 147, 156, 32, 236, 139, 164, 237, 140, 168]), err), logs, db)
      | Inr cfg \<Rightarrow>
          (case OpenSQLite (sl_logs_db sl) (dc_logs_path (cfg_database cfg)) of
             Inl err \<Rightarrow> (Inl ((bytes [235, 161, 156, 234, 183, 184, 32, 68, 66, 32, 236, 180, 136, 234, 184, 176, 237, 153, 148, 32, 236, 139, 164, 237, 140, 168]), err), logs, db)
           | Inr dsn \<Rightarrow>
               (case RunMigrations (sl_logs_db sl) ''migrations'' logs_script logs of
                  (Some err, logs') \<Rightarrow> (Inl ((bytes [235, 161, 156, 234, 183, 184, 32, 68, 66, 32, 235, 167, 136, 236, 157, 180, 234, 183, 184, 235, 160, 136, 236, 157, 180, 236, 133, 152, 32, 236, 139, 164, 237, 140, 168]), err), logs', db)
                | (None, logs') \<Rightarrow>
                    (case serve_keys ci cfg db of
                       (Inl f, db') \<Rightarrow> (Inl f, logs', db')
                     | (Inr keys, db') \<Rightarrow> (Inr (serve_deps ci pl sl cfg logs' keys), logs', db')))))"

subsection \<open>What is registered\<close>

definition well_named :: "Config \<Rightarrow> 'c provider Registry \<Rightarrow> bool" where
  "well_named cfg r \<longleftrightarrow>
     (\<forall>n p. reg_providers r n = Some p \<longrightarrow> Provider_Name p = n \<and> enabled_provider cfg n \<noteq> None)"

lemma well_named_add:
  assumes "well_named cfg r" and "\<And>q. p = Inr q \<Longrightarrow> enabled_provider cfg (Provider_Name q) \<noteq> None"
  shows "well_named cfg (add_provider p i r)"
  using assms by (auto simp: well_named_def add_provider_def RegisterWithKeyID_def split: sum.split)

lemma constructor_names:
  "NewClaudeProvider f k = Inr q \<Longrightarrow> Provider_Name q = ''claude''"
  "NewGPTProvider f k = Inr q \<Longrightarrow> Provider_Name q = ''gpt''"
  "NewPerplexityProvider f2 k u = Inr q \<Longrightarrow> Provider_Name q = ''perplexity''"
  "NewGeminiProvider pf df cf g = Inr q \<Longrightarrow> Provider_Name q = ''gemini''"
  by (auto simp: NewClaudeProvider_def NewGPTProvider_def NewPerplexityProvider_def NewGeminiProvider_def Provider_Name_def Let_def
      split: if_splits sum.splits)

lemma add_provider_other: "(\<And>q. p = Inr q \<Longrightarrow> Provider_Name q \<noteq> n) \<Longrightarrow> reg_providers (add_provider p i r) n = reg_providers r n"
  by (auto simp: add_provider_def RegisterWithKeyID_def split: sum.split)

lemma add_provider_same: "p = Inr q \<Longrightarrow> Provider_Name q = n \<Longrightarrow> reg_providers (add_provider p i r) n = Some q"
  by (simp add: add_provider_def RegisterWithKeyID_def)

text \<open>The registry after each of the five steps.\<close>

definition gemini_step where
  "gemini_step ci pl cfg ks r = (case enabled_provider cfg ''gemini'' of
      None \<Rightarrow> r | Some pc \<Rightarrow> (case gemini_account ci ks of (saJSON, keyID) \<Rightarrow> add_provider (new_gemini ci pl pc saJSON) keyID r))"

definition key_step where
  "key_step ci cfg ks name envVar build r = (case enabled_provider cfg name of
      None \<Rightarrow> r | Some pc \<Rightarrow> (case resolveKey ci ks name envVar of (key, keyID) \<Rightarrow> add_provider (build pc key) keyID r))"

definition ollama_step where
  "ollama_step pl cfg r = (case enabled_provider cfg ''ollama'' of
      None \<Rightarrow> r | Some pc \<Rightarrow> (case NewOllamaProvider (pl_ollama pl) (pc_base_url pc) of
         Inl _ \<Rightarrow> r | Inr p \<Rightarrow> Register Provider_Name p r))"

lemma registerProviders_steps:
  "registerProviders ci pl cfg ks r =
     ollama_step pl cfg
       (key_step ci cfg ks ''perplexity'' ''PERPLEXITY_API_KEY'' (\<lambda>pc key. NewPerplexityProvider (pl_perplexity pl) key (pc_base_url pc))
         (key_step ci cfg ks ''gpt'' ''OPENAI_API_KEY'' (\<lambda>pc. NewGPTProvider (pl_gpt pl))
           (key_step ci cfg ks ''claude'' ''ANTHROPIC_API_KEY'' (\<lambda>pc. NewClaudeProvider (pl_claude pl))
             (gemini_step ci pl cfg ks r))))"
  by (simp add: registerProviders_def gemini_step_def key_step_def ollama_step_def Let_def)

lemma key_step_named:
  assumes "well_named cfg r" and "\<And>pc key q. build pc key = Inr q \<Longrightarrow> Provider_Name q = name"
  shows "well_named cfg (key_step ci cfg ks name envVar build r)"
  using assms by (auto simp: key_step_def intro!: well_named_add split: option.split prod.split)

lemma key_step_other:
  assumes "\<And>pc key q. build pc key = Inr q \<Longrightarrow> Provider_Name q = name" and "n \<noteq> name"
  shows "reg_providers (key_step ci cfg ks name envVar build r) n = reg_providers r n"
  using assms by (auto simp: key_step_def intro!: add_provider_other split: option.split prod.split)

lemma gemini_step_named: "well_named cfg r \<Longrightarrow> well_named cfg (gemini_step ci pl cfg ks r)"
  by (auto simp: gemini_step_def new_gemini_def intro!: well_named_add dest: constructor_names(4) split: option.split prod.split)

lemma gemini_step_other: "n \<noteq> ''gemini'' \<Longrightarrow> reg_providers (gemini_step ci pl cfg ks r) n = reg_providers r n"
  by (auto simp: gemini_step_def new_gemini_def intro!: add_provider_other dest: constructor_names(4) split: option.split prod.split)

lemma ollama_step_named: "well_named cfg r \<Longrightarrow> well_named cfg (ollama_step pl cfg r)"
  by (auto simp: well_named_def ollama_step_def NewOllamaProvider_def Let_def Register_def Provider_Name_def split: option.split)

lemma ollama_step_at:
  "reg_providers (ollama_step pl cfg r) n =
     (if n = ''ollama'' then (case enabled_provider cfg n of None \<Rightarrow> reg_providers r n
        | Some pc \<Rightarrow> Some (OllamaProvider (pl_ollama pl ''ollama'' (if pc_base_url pc = [] then ''http://localhost:11434/v1/'' else pc_base_url pc))
            (if pc_base_url pc = [] then ''http://localhost:11434/v1/'' else pc_base_url pc)))
      else reg_providers r n)"
  by (auto simp: ollama_step_def NewOllamaProvider_def Let_def Register_def Provider_Name_def split: option.split)

lemma registered_named: "well_named cfg r \<Longrightarrow> well_named cfg (registerProviders ci pl cfg ks r)"
  unfolding registerProviders_steps using constructor_names
  by (intro ollama_step_named key_step_named gemini_step_named) auto

lemma well_named_New: "well_named cfg NewRegistry"
  by (simp add: well_named_def NewRegistry_def)

text \<open>The provider that answers to one of the names with a key.\<close>

lemma registered_claude:
  "reg_providers (registerProviders ci pl cfg ks NewRegistry) ''claude'' =
     (case enabled_provider cfg ''claude'' of None \<Rightarrow> None
      | Some pc \<Rightarrow> (let key = fst (resolveKey ci ks ''claude'' ''ANTHROPIC_API_KEY'')
                    in if key = [] then None else Some (ClaudeProvider (pl_claude pl key))))"
proof -
  have "reg_providers (registerProviders ci pl cfg ks NewRegistry) ''claude'' =
      reg_providers (key_step ci cfg ks ''claude'' ''ANTHROPIC_API_KEY'' (\<lambda>pc. NewClaudeProvider (pl_claude pl))
        (gemini_step ci pl cfg ks NewRegistry)) ''claude''"
    unfolding registerProviders_steps
    by (simp add: ollama_step_at key_step_other [OF constructor_names(3)] key_step_other [OF constructor_names(2)])
  also have "\<dots> = (case enabled_provider cfg ''claude'' of None \<Rightarrow> None
      | Some pc \<Rightarrow> (let key = fst (resolveKey ci ks ''claude'' ''ANTHROPIC_API_KEY'')
                    in if key = [] then None else Some (ClaudeProvider (pl_claude pl key))))"
    by (auto simp: key_step_def gemini_step_other NewRegistry_def add_provider_def NewClaudeProvider_def RegisterWithKeyID_def
        Provider_Name_def Let_def split: option.split prod.split)
  finally show ?thesis .
qed

text \<open>
  The registry follows the configuration.  A provider is found under its own name only, and only if the
  configuration enables it; Claude is there exactly when it is enabled and a key is found, and then uses that
  key, the one of the key database before the one of the environment; Ollama needs no key.
\<close>

theorem registry_follows_configuration:
  "(\<forall>n p. reg_providers (registerProviders ci pl cfg ks NewRegistry) n = Some p \<longrightarrow>
      Provider_Name p = n \<and> enabled_provider cfg n \<noteq> None) \<and>
   (\<forall>p. reg_providers (registerProviders ci pl cfg ks NewRegistry) ''claude'' = Some p \<longleftrightarrow>
      enabled_provider cfg ''claude'' \<noteq> None \<and>
      (\<exists>key. key \<noteq> [] \<and> p = ClaudeProvider (pl_claude pl key) \<and>
        key = (case active_key ci ks ''claude'' of Some (i, k) \<Rightarrow> k | None \<Rightarrow> ci_getenv ci ''ANTHROPIC_API_KEY''))) \<and>
   (reg_providers (registerProviders ci pl cfg ks NewRegistry) ''ollama'' \<noteq> None \<longleftrightarrow> enabled_provider cfg ''ollama'' \<noteq> None)"
proof (intro conjI)
  show "\<forall>n p. reg_providers (registerProviders ci pl cfg ks NewRegistry) n = Some p \<longrightarrow>
      Provider_Name p = n \<and> enabled_provider cfg n \<noteq> None"
    using registered_named [OF well_named_New] by (simp add: well_named_def)
  have "fst (resolveKey ci ks ''claude'' ''ANTHROPIC_API_KEY'') =
      (case active_key ci ks ''claude'' of Some (i, k) \<Rightarrow> k | None \<Rightarrow> ci_getenv ci ''ANTHROPIC_API_KEY'')"
    by (auto simp: resolveKey_def split: option.split)
  then show "\<forall>p. reg_providers (registerProviders ci pl cfg ks NewRegistry) ''claude'' = Some p \<longleftrightarrow>
      enabled_provider cfg ''claude'' \<noteq> None \<and>
      (\<exists>key. key \<noteq> [] \<and> p = ClaudeProvider (pl_claude pl key) \<and>
        key = (case active_key ci ks ''claude'' of Some (i, k) \<Rightarrow> k | None \<Rightarrow> ci_getenv ci ''ANTHROPIC_API_KEY''))"
    unfolding registered_claude by (auto simp: Let_def split: option.split)
  have "reg_providers (key_step ci cfg ks ''perplexity'' ''PERPLEXITY_API_KEY'' (\<lambda>pc key. NewPerplexityProvider (pl_perplexity pl) key (pc_base_url pc))
         (key_step ci cfg ks ''gpt'' ''OPENAI_API_KEY'' (\<lambda>pc. NewGPTProvider (pl_gpt pl))
           (key_step ci cfg ks ''claude'' ''ANTHROPIC_API_KEY'' (\<lambda>pc. NewClaudeProvider (pl_claude pl))
             (gemini_step ci pl cfg ks NewRegistry)))) ''ollama'' = None"
    by (simp add: key_step_other [OF constructor_names(1)] key_step_other [OF constructor_names(2)]
        key_step_other [OF constructor_names(3)] gemini_step_other NewRegistry_def)
  then show "reg_providers (registerProviders ci pl cfg ks NewRegistry) ''ollama'' \<noteq> None \<longleftrightarrow> enabled_provider cfg ''ollama'' \<noteq> None"
    unfolding registerProviders_steps by (simp add: ollama_step_at split: option.split)
qed

subsection \<open>From the command line to the server\<close>

text \<open>The key commands and the server open the same store.\<close>

definition db_store :: "key_db \<Rightarrow> Encryptor \<Rightarrow> KeyStore" where
  "db_store db e = \<lparr>kst_rows = kd_rows db, kst_next_id = kd_next_id db, kst_encryptor = e\<rparr>"

definition migrated :: "cli_env \<Rightarrow> bool" where
  "migrated ci \<longleftrightarrow> (\<forall>d. RunMigrations (ci_db ci) ''migrations'' keys_script d = (None, d))"

lemma openKeyStore_store:
  assumes "migrated ci" and "openKeyStore ci db = (Inr (ks, al), db')"
  shows "\<exists>e. NewEncryptor (ci_getenv ci ''EZAI_DB_KEY'') = Inr e \<and> ks = db_store db e \<and> db' = db"
  using assms by (auto simp: openKeyStore_def migrated_def db_store_def Let_def split: if_splits sum.splits)

lemma serve_keys_store:
  assumes "migrated ci" and "serve_keys ci cfg db = (Inr (Some (ks, al)), db')"
  shows "\<exists>e. NewEncryptor (ci_getenv ci ''EZAI_DB_KEY'') = Inr e \<and> ks = db_store db e"
  using assms by (auto simp: serve_keys_def migrated_def db_store_def Let_def split: if_splits sum.splits)

lemma runKeysAdd_done:
  assumes "migrated ci" and "runKeysAdd ci (name # options) db = (r, db')" and "xr_code r = 0"
  shows "\<exists>v ty e key ks' ty'. parse_options (add_option (ci_read ci)) options ([], []) = Inr (v, ty) \<and> v \<noteq> [] \<and>
     NewEncryptor (ci_getenv ci ''EZAI_DB_KEY'') = Inr e \<and>
     KeyStore_Create (ci_crypto ci) (ci_fail ci StQuery) (ci_fail ci StExec) (ci_clock ci 0) name ''main'' v ty' (db_store db e)
       = (Inr key, ks') \<and> kd_rows db' = kst_rows ks' \<and> kd_next_id db' = kst_next_id ks'"
proof -
  obtain v ty where o: "parse_options (add_option (ci_read ci)) options ([], []) = Inr (v, ty)"
    using assms(2,3) by (cases "parse_options (add_option (ci_read ci)) options ([], [])") (auto simp: runKeysAdd_def exit_error_def)
  have v: "v \<noteq> []" using assms(2,3) o by (auto simp: runKeysAdd_def exit_error_def)
  obtain ks al d where k: "openKeyStore ci db = (Inr (ks, al), d)"
    using assms(2,3) o v by (cases "openKeyStore ci db"; cases "fst (openKeyStore ci db)") (auto simp: runKeysAdd_def exit_error_def Let_def)
  obtain e where e: "NewEncryptor (ci_getenv ci ''EZAI_DB_KEY'') = Inr e" "ks = db_store db e"
    using openKeyStore_store [OF assms(1) k] by blast
  obtain res ks' where c: "KeyStore_Create (ci_crypto ci) (ci_fail ci StQuery) (ci_fail ci StExec) (ci_clock ci 0) name ''main'' v
      (if ty = [] then ''api_key'' else ty) ks = (res, ks')" by (metis surj_pair)
  obtain key where key: "res = Inr key"
    using assms(2,3) o v k c by (cases res) (auto simp: runKeysAdd_def exit_error_def Let_def)
  have "kd_rows db' = kst_rows ks' \<and> kd_next_id db' = kst_next_id ks'"
    using assms(2) o v k c key by (auto simp: runKeysAdd_def Let_def stored_def)
  then show ?thesis using o v e c key by blast
qed

lemma store_ok_db: "store_ok (db_store db e) \<longleftrightarrow> store_ok (db_store db e')" "key_names (db_store db e) = key_names (db_store db e')"
  by (simp_all add: store_ok_def db_store_def key_names_def)

text \<open>
  C34. A key that was added on the command line is the key the server uses.  If \<^verbatim>\<open>keys add claude\<close> exits with 0
  and the server then starts with the same \<^verbatim>\<open>EZAI_DB_KEY\<close>, the registered Claude provider has a client made of
  the very value that was given, whatever the environment says; this needs that Claude has had no key under
  another name than the one the command uses.
\<close>

theorem added_key_is_served:
  assumes "migrated ci" and "aead_ok (cr_aead (ci_crypto ci))" and "cr_rand (ci_crypto ci) = Inr nonce"
    and "length nonce = aead_nonce_size (cr_aead (ci_crypto ci))"
    and "store_ok (db_store db e0)" and "\<forall>n. (''claude'', n) \<in> key_names (db_store db e0) \<longrightarrow> n = ''main''"
    and "runKeysAdd ci (''claude'' # options) db = (r, db')" and "xr_code r = 0"
    and "serve_keys ci cfg db' = (Inr (Some (ks, al)), db'')" and "enabled_provider cfg ''claude'' = Some pc"
    and "ci_fail ci StQuery = None"
  shows "\<exists>v ty. parse_options (add_option (ci_read ci)) options ([], []) = Inr (v, ty) \<and> v \<noteq> [] \<and>
    reg_providers (registerProviders ci pl cfg (Some ks) NewRegistry) ''claude'' = Some (ClaudeProvider (pl_claude pl v))"
proof -
  obtain v ty e key ks' ty' where a: "parse_options (add_option (ci_read ci)) options ([], []) = Inr (v, ty)" "v \<noteq> []"
    "NewEncryptor (ci_getenv ci ''EZAI_DB_KEY'') = Inr e"
    "KeyStore_Create (ci_crypto ci) (ci_fail ci StQuery) (ci_fail ci StExec) (ci_clock ci 0) ''claude'' ''main'' v ty' (db_store db e)
       = (Inr key, ks')" "kd_rows db' = kst_rows ks'" "kd_next_id db' = kst_next_id ks'"
    using runKeysAdd_done [OF assms(1,7,8)] by blast
  have c: "kst_encryptor ks' = e" "GetActiveByProviderWithID (ci_crypto ci) None ''claude'' ks' = Inr (pk_id key, v)"
    using created_is_active [OF _ assms(2-4) a(4)] assms(5,6) store_ok_db [of db e e0] by (simp_all add: db_store_def)
  have "ks = ks'"
    using serve_keys_store [OF assms(1,9)] a(3,5,6) c(1) by (auto simp: db_store_def)
  then have "resolveKey ci (Some ks) ''claude'' ''ANTHROPIC_API_KEY'' = (v, pk_id key)"
    using c(2) a(2) assms(11) by (simp add: resolveKey_def active_key_def)
  then show ?thesis using a(1,2) assms(10) by (auto simp: registered_claude Let_def)
qed

text \<open>
  C35. Without a database key only trusted networks get in.  If the gateway starts without \<^verbatim>\<open>EZAI_DB_KEY\<close>, no
  request from outside the trusted networks reaches any handler but the health check, whatever headers it
  carries.
\<close>

theorem no_db_key_means_trusted_only:
  assumes "runServe ci pl sl logs db = (Inr d, logs', db')" and "ci_getenv ci ''EZAI_DB_KEY'' = []"
    and "dispatch sx (New d) found c (l, s) = (Reached ep c', st')" and "routed (New d) found"
  shows "ep = EpHealth \<or> in_trusted_net (sx_net sx) (ac_trusted_cidrs (cfg_auth (dp_Config d))) (gn_client_ip c)"
proof -
  have "\<not> dp_ClientKeyStore d"
    using assms(1,2) by (auto simp: runServe_def serve_keys_def serve_deps_def Let_def split: sum.splits prod.splits option.splits)
  then show ?thesis
    using reached_through_auth [OF assms(3,4)]
    by (auto simp: Auth_def Let_def split: if_splits)
qed

subsection \<open>A gateway that starts\<close>

definition open_db :: "'d db_lib" where
  "open_db = \<lparr>dl_mkdir = (\<lambda>_. None), dl_open = (\<lambda>_. None), dl_ping = (\<lambda>_. None), dl_exists = (\<lambda>_. True),
     dl_chmod = (\<lambda>_. None), dl_query_escape = id, dl_read_dir = (\<lambda>_. Inr [(''001_keys.sql'', False), (''003_logs.sql'', False)]),
     dl_read = (\<lambda>_. Inr ''sql''), dl_exec = (\<lambda>_ d. (None, d))\<rparr>"

lemma open_db_migrates: "RunMigrations open_db dir q d = (None, d)"
  using scripts_idempotent [of _ open_db dir d] by (simp add: RunMigrations_def open_db_def)

definition claude_config :: Config where
  "claude_config = sample_config\<lparr>cfg_providers := [''claude'' \<mapsto> \<lparr>pc_enabled = True, pc_location = [], pc_base_url = []\<rparr>]\<rparr>"

definition sample_cli :: "string \<Rightarrow> cli_env" where
  "sample_cli dbKey = \<lparr>ci_getenv = (\<lambda>v. if v = ''EZAI_DB_KEY'' then dbKey else []), ci_read = (\<lambda>p. if p = ''config/server.yaml'' then Inr ''yaml'' else Inl ''absent''),
     ci_write = None, ci_key_bytes = Inr (replicate 32 CHR ''K''), ci_crypto = sample_crypto, ci_clock = (\<lambda>_. 0),
     ci_config = (\<lambda>_. Inr claude_config), ci_fallback_config = (\<lambda>_. Inl ''bad''), ci_db = open_db, ci_fail = (\<lambda>_. None)\<rparr>"

definition no_keys :: key_db where
  "no_keys = \<lparr>kd_rows = [], kd_next_id = 1, kd_audit = \<lparr>al_rows = [], al_next_id = 1\<rparr>\<rparr>"

definition sample_pl :: "(string, unit) provider_lib" where
  "sample_pl = \<lparr>pl_claude = id, pl_gpt = id, pl_perplexity = (\<lambda>k _. k), pl_ollama = (\<lambda>k _. k), pl_project_of = (\<lambda>_. Inl ''bad''),
     pl_detect = (\<lambda>_. Inl ''bad''), pl_gemini = (\<lambda>_ _ _. Inl ''bad'')\<rparr>"

definition sample_sl :: serve_lib where
  "sample_sl = \<lparr>sl_logs_db = open_db, sl_pricing = (\<lambda>_. Inl ''bad''), sl_retention = (\<lambda>_. Inl ''bad''), sl_logging = (\<lambda>_. Inl ''bad''),
     sl_redis_ping = Some ''connection refused''\<rparr>"

definition db_key_text :: string where
  "db_key_text = replicate 64 CHR ''a''"

lemma claude_enabled:
  "enabled_provider claude_config ''claude'' = Some \<lparr>pc_enabled = True, pc_location = [], pc_base_url = []\<rparr>"
  "cfg_auth claude_config = \<lparr>ac_trusted_cidrs = [''10.0.0.0/8''], ac_rate_limit_per_minute = 60\<rparr>"
  by (simp_all add: enabled_provider_def claude_config_def) (simp add: sample_config_def config_defaults_def or_default_def Let_def)

lemma sample_cli_config: "load_config (sample_cli k) = Inr (config_defaults claude_config)"
proof -
  have "path_join [''config'', ''server.yaml''] = ''config/server.yaml''" "path_join [''config'', ''fallback_global.yaml''] = ''config/fallback_global.yaml''"
    by code_simp+
  then show ?thesis by (simp add: load_config_def Load_def config_dir_def sample_cli_def Let_def)
qed

lemma sample_encryptor: "\<exists>e. NewEncryptor db_key_text = Inr e"
proof -
  have "(case NewEncryptor db_key_text of Inr e \<Rightarrow> True | Inl _ \<Rightarrow> False)" by code_simp
  then show ?thesis by (cases "NewEncryptor db_key_text") auto
qed

lemma sample_opens:
  "\<exists>e. NewEncryptor db_key_text = Inr e \<and>
     openKeyStore (sample_cli db_key_text) db = (Inr (db_store db e, kd_audit db), db) \<and>
     serve_keys (sample_cli db_key_text) cfg db = (Inr (Some (db_store db e, kd_audit db)), db)"
proof -
  obtain e where e: "NewEncryptor db_key_text = Inr e" using sample_encryptor by blast
  have k: "db_key_text \<noteq> []" by (simp add: db_key_text_def)
  have env: "ci_getenv (sample_cli db_key_text) ''EZAI_DB_KEY'' = db_key_text" "ci_db (sample_cli db_key_text) = open_db"
    by (simp_all add: sample_cli_def)
  obtain dsn where dsn: "OpenEncryptedDB (open_db :: key_db db_lib) p db_key_text = Inr (dsn p)" for p
    using k by (simp add: OpenEncryptedDB_def open_db_def)
  show ?thesis
    unfolding openKeyStore_def serve_keys_def env sample_cli_config [of db_key_text]
    using k by (simp add: e dsn open_db_migrates db_store_def env)
qed

theorem registry_follows_configuration_witness:
  "\<exists>p. reg_providers (registerProviders (sample_cli db_key_text) sample_pl
       (claude_config\<lparr>cfg_providers := [''ollama'' \<mapsto> \<lparr>pc_enabled = True, pc_location = [], pc_base_url = []\<rparr>]\<rparr>) None NewRegistry) ''ollama''
     = Some p \<and> Provider_Name p = ''ollama''"
proof -
  let ?cfg = "claude_config\<lparr>cfg_providers := [''ollama'' \<mapsto> \<lparr>pc_enabled = True, pc_location = [], pc_base_url = []\<rparr>]\<rparr>"
  have "enabled_provider ?cfg ''ollama'' \<noteq> None" by (simp add: enabled_provider_def)
  then obtain p where "reg_providers (registerProviders (sample_cli db_key_text) sample_pl ?cfg None NewRegistry) ''ollama'' = Some p"
    using registry_follows_configuration [of "sample_cli db_key_text" sample_pl ?cfg None] by blast
  moreover have "Provider_Name p = ''ollama''"
    using registry_follows_configuration [of "sample_cli db_key_text" sample_pl ?cfg None] calculation by blast
  ultimately show ?thesis by blast
qed

theorem added_key_is_served_witness:
  "\<exists>r db' ks al. runKeysAdd (sample_cli db_key_text) [''claude'', ''--value'', ''sk-1''] no_keys = (r, db') \<and> xr_code r = 0 \<and>
     serve_keys (sample_cli db_key_text) claude_config db' = (Inr (Some (ks, al)), db') \<and>
     reg_providers (registerProviders (sample_cli db_key_text) sample_pl claude_config (Some ks) NewRegistry) ''claude'' =
       Some (ClaudeProvider ''sk-1'')"
proof -
  let ?ci = "sample_cli db_key_text"
  obtain e where e: "openKeyStore ?ci no_keys = (Inr (db_store no_keys e, kd_audit no_keys), no_keys)"
    using sample_opens by blast
  have ci: "ci_crypto ?ci = sample_crypto" "ci_fail ?ci s = None" "ci_db ?ci = open_db" for s by (simp_all add: sample_cli_def)
  have opt: "parse_options (add_option (ci_read ?ci)) [''--value'', ''sk-1''] ([], []) = Inr (''sk-1'', ''api_key'')"
    by (simp add: add_option_def)
  obtain key ks1 where c: "KeyStore_Create sample_crypto None None (ci_clock ?ci 0) ''claude'' ''main'' ''sk-1'' ''api_key'' (db_store no_keys e)
      = (Inr key, ks1)"
    by (simp add: KeyStore_Create_def sample_crypto_def Encrypt_def db_store_def no_keys_def find_named_def insert_key_def Let_def)
  have "xr_code (fst (runKeysAdd ?ci (''claude'' # [''--value'', ''sk-1'']) no_keys)) = 0"
    unfolding runKeysAdd_def list.case opt by (simp add: e ci c printed_def)
  then have "\<exists>r db'. runKeysAdd ?ci (''claude'' # [''--value'', ''sk-1'']) no_keys = (r, db') \<and> xr_code r = 0"
    by (metis prod.collapse)
  then obtain r db' where r: "runKeysAdd ?ci (''claude'' # [''--value'', ''sk-1'']) no_keys = (r, db')" "xr_code r = 0" by blast
  obtain ks al where s: "serve_keys ?ci claude_config db' = (Inr (Some (ks, al)), db')" using sample_opens by blast
  have m: "migrated ?ci" by (simp add: migrated_def ci open_db_migrates)
  have a: "aead_ok (cr_aead (ci_crypto ?ci))" by (auto simp: ci aead_ok_def sample_crypto_def sample_aead_def split: list.splits)
  have n: "cr_rand (ci_crypto ?ci) = Inr (replicate 12 CHR ''n'')" "length (replicate 12 CHR ''n'') = aead_nonce_size (cr_aead (ci_crypto ?ci))"
    by (simp_all add: ci sample_crypto_def sample_aead_def)
  have o: "store_ok (db_store no_keys e)" "\<forall>k. (''claude'', k) \<in> key_names (db_store no_keys e) \<longrightarrow> k = ''main''"
    by (simp_all add: store_ok_def db_store_def no_keys_def key_names_def)
  have "reg_providers (registerProviders ?ci sample_pl claude_config (Some ks) NewRegistry) ''claude'' = Some (ClaudeProvider ''sk-1'')"
    using added_key_is_served [OF m a n o r s claude_enabled(1) ci(2), of sample_pl] opt by (simp add: sample_pl_def)
  then show ?thesis using r s by blast
qed

theorem no_db_key_means_trusted_only_witness:
  "\<exists>d c' st'. runServe (sample_cli []) sample_pl sample_sl empty_logs no_keys = (Inr d, empty_logs, no_keys) \<and>
     dispatch sample_sx (New d) (Some (0, \<lambda>_. [])) login ((), sample_sv) = (Reached EpHealth c', st')"
proof -
  have keys: "serve_keys (sample_cli []) cfg no_keys = (Inr None, no_keys)" for cfg by (simp add: serve_keys_def sample_cli_def)
  obtain d where d: "runServe (sample_cli []) sample_pl sample_sl empty_logs no_keys = (Inr d, empty_logs, no_keys)"
  proof -
    have sl: "sl_logs_db sample_sl = open_db" by (simp add: sample_sl_def)
    obtain dsn where "OpenSQLite (open_db :: logs_table db_lib) p = Inr (dsn p)" for p
      by (simp add: OpenSQLite_def open_db_def)
    then show ?thesis
      using that unfolding runServe_def sl sample_cli_config [of "[]"] by (simp add: open_db_migrates keys)
  qed
  have route: "en_routes (sr_engine (New d)) ! 0 = \<lparr>rt_method = GET, rt_path = ''/health'', rt_chain = base_chain, rt_endpoint = EpHealth\<rparr>
      \<and> 0 < length (en_routes (sr_engine (New d)))"
    using first_route [of d] by (simp add: first_is_def)
  obtain c1 where c1: "run_chain sample_sx (New d) base_chain (login\<lparr>gn_param := \<lambda>_. []\<rparr>) ((), sample_sv) = (Next c1, (), sample_sv)"
    using run_base by blast
  then have r: "dispatch sample_sx (New d) (Some (0, \<lambda>_. [])) login ((), sample_sv) = (Reached EpHealth c1, (), sample_sv)"
    using route by (simp add: dispatch_def Let_def)
  have "EpHealth = EpHealth \<or> in_trusted_net (sx_net sample_sx) (ac_trusted_cidrs (cfg_auth (dp_Config d))) (gn_client_ip login)"
    by (rule no_db_key_means_trusted_only [OF d _ r]) (use route in \<open>simp_all add: sample_cli_def routed_def\<close>)
  then show ?thesis using d r by blast
qed

end
