(* ===== verification/Gateway.thy ===== *)
theory Gateway
  imports Startup Usage
begin

text \<open>
  The components together: lemmas about requests that go from the chain of middleware through a handler, the
  router and an adapter to the log.  The properties over them are in the root theory.
\<close>

subsection \<open>Who answered\<close>

text \<open>Nobody changes the registry while a request is served: it is filled before the server starts.\<close>

definition keeps_registry :: "'p env \<Rightarrow> bool" where
  "keeps_registry env \<longleftrightarrow>
     (\<forall>p ctx req w r w'. env_chat env p ctx req w = Some (r, w') \<longrightarrow> r_registry (w_router w') = r_registry (w_router w)) \<and>
     (\<forall>n w w'. env_wait env n w = Some w' \<longrightarrow> r_registry (w_router w') = r_registry (w_router w))"

lemma registry_get_some: "Registry_Get r n = Inr p \<Longrightarrow> reg_providers r n = Some p"
  by (auto simp: Registry_Get_def split: option.splits)

lemma acquire_keeps: "AcquireSemaphore pick ctx n w = Some (e, w') \<Longrightarrow> r_registry (w_router w') = r_registry (w_router w)"
  by (auto simp: AcquireSemaphore_def split: option.splits prod.splits)

lemma acquire_waiting_keeps:
  assumes "keeps_registry env" and "acquire_waiting env ctx n w = Some (e, w')"
  shows "r_registry (w_router w') = r_registry (w_router w)"
proof (cases "AcquireSemaphore (env_pick env n w) ctx n w")
  case None
  then obtain w1 where "env_wait env n w = Some w1" "AcquireSemaphore (env_pick env n w1) ctx n w1 = Some (e, w')"
    using assms(2) by (auto simp: acquire_waiting_def split: option.splits)
  then show ?thesis using acquire_keeps assms(1) unfolding keeps_registry_def by metis
qed (use assms(2) acquire_keeps in \<open>fastforce simp: acquire_waiting_def\<close>)

lemma finish_try_keeps:
  "finish_try n x w = Some (y, w') \<Longrightarrow> y = x \<and> r_registry (w_router w') = r_registry (w_router w)"
  by (auto simp: finish_try_def ReleaseSemaphore_def split: option.splits)

lemma record_keeps [simp]:
  "r_registry (w_router (RouterRecordSuccess n w)) = r_registry (w_router w)"
  "r_registry (w_router (RouterRecordFailure n w)) = r_registry (w_router w)"
  by (simp_all add: RouterRecordSuccess_def RouterRecordFailure_def split: option.split)

text \<open>A response that a provider registered under \<open>name\<close> has given.\<close>

definition answered_by :: "'p env \<Rightarrow> 'p Registry \<Rightarrow> string \<Rightarrow> ChatResponse \<Rightarrow> bool" where
  "answered_by env reg name resp \<longleftrightarrow> (\<exists>p ctx req w w' resp0. reg_providers reg name = Some p \<and>
     env_chat env p ctx req w = Some (Inr resp0, w') \<and> resp_provider resp = resp_provider resp0)"

lemma answered_byI:
  "reg_providers reg name = Some p \<Longrightarrow> env_chat env p ctx req w = Some (Inr resp, w') \<Longrightarrow> answered_by env reg name resp"
  unfolding answered_by_def by blast

lemma answered_by_same: "answered_by env reg name resp \<Longrightarrow> resp_provider resp' = resp_provider resp \<Longrightarrow> answered_by env reg name resp'"
  unfolding answered_by_def by metis

lemma call_provider_answer:
  assumes "keeps_registry env" and "call_provider env ctx req t p a w = Some ((r, a'), w')"
  shows "r_registry (w_router w') = r_registry (w_router w) \<and>
    (\<forall>resp. r = Inr resp \<longrightarrow> (\<exists>ctx' req' v v'. env_chat env p ctx' req' v = Some (Inr resp, v')))"
proof -
  obtain r1 w1 where c: "env_chat env p (provider_context (w_router w) (ft_provider t) ctx (w_now w)) (provider_request req t) w = Some (r1, w1)"
    using assms(2) by (auto simp: call_provider_def Let_def split: option.splits)
  then have k: "r_registry (w_router w1) = r_registry (w_router w)" using assms(1) by (auto simp: keeps_registry_def)
  show ?thesis
    using assms(2) c k by (cases r1) (auto simp: call_provider_def Let_def dest!: finish_try_keeps)
qed

lemma tryProvider_answer:
  assumes "keeps_registry env" and "tryProvider env ctx req t order w = Some ((r, a), w')"
  shows "r_registry (w_router w') = r_registry (w_router w) \<and>
    (\<forall>resp. r = Inr resp \<longrightarrow> answered_by env (r_registry (w_router w)) (ft_provider t) resp)"
proof -
  obtain e w1 where b: "CheckCircuitBreaker (ft_provider t) w = (e, w1)" by (metis surj_pair)
  then have r1: "r_registry (w_router w1) = r_registry (w_router w)" by (metis breaker_ops_keep(4) snd_conv)
  show ?thesis
  proof (cases "e = None \<and> (\<exists>p. Registry_Get (r_registry (w_router w1)) (ft_provider t) = Inr p)")
    case False
    then show ?thesis
      using assms(2) b r1 by (auto simp: tryProvider_def Let_def split: option.splits sum.splits)
  next
    case True
    then obtain p where p: "e = None" "Registry_Get (r_registry (w_router w1)) (ft_provider t) = Inr p" by blast
    then have reg: "reg_providers (r_registry (w_router w)) (ft_provider t) = Some p"
      using r1 by (auto simp: Registry_Get_def split: option.splits)
    obtain f w2 where q: "acquire_waiting env ctx (ft_provider t) w1 = Some (f, w2)"
      using assms(2) b p by (auto simp: tryProvider_def Let_def split: option.splits)
    then have r2: "r_registry (w_router w2) = r_registry (w_router w)" using acquire_waiting_keeps [OF assms(1)] r1 by metis
    show ?thesis
    proof (cases f)
      case None
      then have "call_provider env ctx req t p (new_attempt order t) w2 = Some ((r, a), w')"
        using assms(2) b p q by (simp add: tryProvider_def Let_def)
      then show ?thesis using call_provider_answer [OF assms(1)] r2 answered_byI [OF reg] by metis
    qed (use assms(2) b p q r2 in \<open>auto simp: tryProvider_def Let_def\<close>)
  qed
qed

lemma sequential_answer:
  assumes "keeps_registry env"
  shows "executeSequential env ctx req policy i attempts lastErr ts w = Some ((Inr resp, out), w') \<Longrightarrow>
    \<exists>t \<in> set ts. answered_by env (r_registry (w_router w)) (ft_provider t) resp"
proof (induction ts arbitrary: i attempts lastErr w)
  case (Cons t ts)
  obtain r1 a w1 where t: "tryProvider env ctx req t (i + 1) w = Some ((r1, a), w1)"
    using Cons.prems by (auto split: option.splits)
  note answer = tryProvider_answer [OF assms t]
  show ?case
  proof (cases r1)
    case (Inr resp0)
    then have "resp_provider resp = resp_provider resp0"
      using Cons.prems t by (auto simp: mark_fallback_def split: option.splits if_splits)
    then show ?thesis using answer Inr answered_by_same by fastforce
  next
    case (Inl e)
    then have "executeSequential env ctx req policy (i + 1) (attempts @ [a]) (Some e) ts w1 = Some ((Inr resp, out), w')"
      using Cons.prems t by (auto split: if_splits)
    then show ?thesis using Cons.IH answer by fastforce
  qed
qed simp

text \<open>
  The concurrent strategy.  A goroutine that is past its lookup has found its provider; the answers in the
  schedule are those the providers give.
\<close>

definition looked_up :: "'p Registry \<Rightarrow> string \<Rightarrow> 'p wpc \<Rightarrow> bool" where
  "looked_up reg name pc \<longleftrightarrow> (case pc of
     AtAcquire p \<Rightarrow> reg_providers reg name = Some p
   | AtCall p \<Rightarrow> reg_providers reg name = Some p
   | InCall p _ _ \<Rightarrow> reg_providers reg name = Some p
   | AtRecord _ _ \<Rightarrow> reg_providers reg name \<noteq> None
   | AtRelease _ \<Rightarrow> reg_providers reg name \<noteq> None
   | Finished (Inr _, _) \<Rightarrow> reg_providers reg name \<noteq> None
   | _ \<Rightarrow> True)"

definition answers_real :: "'p env \<Rightarrow> 'p Registry \<Rightarrow> FallbackTarget list \<Rightarrow> label list \<Rightarrow> bool" where
  "answers_real env reg targets sched \<longleftrightarrow>
     (\<forall>i pick resp p. Work i pick (Inr resp) \<in> set sched \<and> i < length targets \<and> reg_providers reg (ft_provider (targets ! i)) = Some p \<longrightarrow>
        (\<exists>ctx req w w'. env_chat env p ctx req w = Some (Inr resp, w')))"

definition all_looked_up :: "'p Registry \<Rightarrow> FallbackTarget list \<Rightarrow> 'p fastest \<Rightarrow> bool" where
  "all_looked_up reg targets s \<longleftrightarrow> r_registry (w_router (fs_world s)) = reg \<and>
     (\<forall>i < length targets. i < length (fs_pcs s) \<longrightarrow> looked_up reg (ft_provider (targets ! i)) (fs_pcs s ! i))"

lemma worker_looks_up:
  assumes "worker_step ctx t order pick answer pc w = Some (pc', w')" and "looked_up (r_registry (w_router w)) (ft_provider t) pc"
  shows "r_registry (w_router w') = r_registry (w_router w) \<and> looked_up (r_registry (w_router w)) (ft_provider t) pc'"
proof (cases pc)
  case AtBreaker
  obtain e w1 where b: "CheckCircuitBreaker (ft_provider t) w = (e, w1)" by (metis surj_pair)
  then have "r_registry (w_router w1) = r_registry (w_router w)" by (metis breaker_ops_keep(4) snd_conv)
  then show ?thesis using assms AtBreaker b by (cases e) (auto simp: looked_up_def)
next
  case AtLookup
  then show ?thesis using assms by (auto simp: looked_up_def dest!: registry_get_some split: sum.splits)
next
  case (AtAcquire p)
  then show ?thesis using assms by (auto simp: looked_up_def dest!: acquire_keeps split: option.splits prod.splits)
next
  case (AtRecord r a)
  then show ?thesis using assms by (auto simp: looked_up_def split: sum.splits)
next
  case (AtRelease r)
  then show ?thesis using assms by (auto simp: looked_up_def ReleaseSemaphore_def split: option.splits sum.splits prod.splits)
qed (use assms in \<open>auto simp: looked_up_def\<close>)

lemma all_looked_up_next:
  assumes "all_looked_up reg targets s"
  shows "all_looked_up reg targets (fastest_next ctx targets s l)"
proof (cases "fastest_step ctx targets l s")
  case (Some s')
  show ?thesis
  proof (cases l)
    case (Work i pick answer)
    then obtain pc' w' where i: "i < length (fs_pcs s)" "i < length targets"
      and w: "worker_step (WithCancel ctx (fs_cancelled s)) (targets ! i) (int i + 1) pick answer
        (fs_pcs s ! i) (fs_world s) = Some (pc', w')"
      and s': "fs_pcs s' = (fs_pcs s)[i := pc']" "fs_world s' = w'"
      using Some by (auto simp: fastest_work_def split: if_splits option.splits)
    have "all_looked_up reg targets s'"
      using assms i worker_looks_up [OF w] unfolding all_looked_up_def s' by (auto simp: nth_list_update)
    then show ?thesis using Some by (simp add: fastest_next_def)
  next
    case Collect
    then have "fs_pcs s' = fs_pcs s" "fs_world s' = fs_world s"
      using Some by (auto simp: fastest_collect_def Let_def split: option.splits list.splits sum.splits if_splits)
    then show ?thesis using assms Some by (simp add: fastest_next_def all_looked_up_def)
  qed (use assms Some in \<open>auto simp: fastest_next_def all_looked_up_def\<close>)
qed (use assms in \<open>simp add: fastest_next_def\<close>)

lemma all_looked_up_run:
  "all_looked_up (r_registry (w_router w)) targets (fastest_run ctx targets sched (fastest_start targets w))"
  unfolding fastest_run_def
proof (rule foldl_invariant)
  show "all_looked_up (r_registry (w_router w)) targets (fastest_start targets w)"
    by (simp add: all_looked_up_def fastest_start_def looked_up_def)
qed (rule all_looked_up_next)

lemma fastest_answer:
  assumes "executeFastest ctx targets sched w = Some ((Inr resp, as), w')" and "targets \<noteq> []"
    and "answers_real env (r_registry (w_router w)) targets sched"
  shows "\<exists>t \<in> set targets. answered_by env (r_registry (w_router w)) (ft_provider t) resp"
proof -
  let ?s = "fastest_run ctx targets sched (fastest_start targets w)" and ?reg = "r_registry (w_router w)"
  have inv: "fastest_inv targets ?s" using fastest_inv_start [OF assms(2)] by (rule fastest_inv_run)
  moreover have "fs_result ?s = Some (Inr resp, as)" using assms(1) by (auto simp: executeFastest_def Let_def)
  ultimately obtain i resp0 where i: "i < length targets" "published (fs_pcs ?s ! i) = Some (Inr resp0, last as)"
      "resp_provider resp = resp_provider resp0"
    by (auto simp: fastest_inv_def result_ok_def mark_fallback_def)
  have len: "length (fs_pcs ?s) = length targets" using inv by (simp add: fastest_inv_def)
  have "answer_of (fs_pcs ?s ! i) = Some resp0"
    using i(2) by (auto simp: published_def answer_of_def split: wpc.splits)
  then obtain pick where work: "Work i pick (Inr resp0) \<in> set sched"
    using answered_in_run [of sched ctx targets w] i(1) len unfolding answered_in_def by metis
  have "looked_up ?reg (ft_provider (targets ! i)) (fs_pcs ?s ! i)"
    using all_looked_up_run [of w targets ctx sched] i(1) len by (simp add: all_looked_up_def)
  then obtain p where p: "reg_providers ?reg (ft_provider (targets ! i)) = Some p"
    using i(2) by (auto simp: looked_up_def published_def split: wpc.splits)
  then obtain ctx' req v v' where "env_chat env p ctx' req v = Some (Inr resp0, v')"
    using assms(3) work i(1) unfolding answers_real_def by blast
  then show ?thesis
    using answered_by_same [OF answered_byI [OF p] i(3)] i(1) by (metis nth_mem)
qed

text \<open>The providers a request may be answered by, in the order they are tried.\<close>

lemma primary_target: "\<exists>t \<in> set (buildTargets req). ft_provider t = req_provider req"
  by (simp add: buildTargets_def)

lemma run_chat_answer:
  assumes "keeps_registry (li_env lib)" and "answers_real (li_env lib) (hc_registry h) (buildTargets req) (li_sched lib)"
    and "run_chat h lib req w = Some (Inr (Inr resp, attempts), w')" and "r_registry (w_router w) = hc_registry h"
  shows "\<exists>t \<in> set (buildTargets req). answered_by (li_env lib) (hc_registry h) (ft_provider t) resp"
proof (cases "hc_router h")
  case True
  then have "Execute (li_env lib) (li_sched lib) (li_ctx lib) req w = Some ((Inr resp, attempts), w')"
    using assms(3) by (auto simp: run_chat_def split: option.splits)
  then consider "executeFastest (li_ctx lib) (buildTargets req) (li_sched lib) w = Some ((Inr resp, attempts), w')"
    | "executeSequential (li_env lib) (li_ctx lib) req (effective_policy req) 0 [] None (buildTargets req) w
        = Some ((Inr resp, attempts), w')"
    by (auto simp: Execute_def Let_def split: if_splits)
  then show ?thesis
  proof cases
    case 1
    have "buildTargets req \<noteq> []" using primary_target [of req] by auto
    then show ?thesis using fastest_answer [OF 1] assms(2,4) by metis
  next
    case 2
    then show ?thesis using sequential_answer [OF assms(1)] assms(4) by metis
  qed
next
  case False
  then obtain p where "Registry_Get (hc_registry h) (req_provider req) = Inr p"
      "env_chat (li_env lib) p (li_ctx lib) req w = Some (Inr resp, w')"
    using assms(3) by (auto simp: run_chat_def split: sum.splits option.splits)
  then show ?thesis
    using primary_target [of req] answered_byI [of "hc_registry h" "req_provider req" p "li_env lib"] registry_get_some by metis
qed

lemma chat_answer_source:
  assumes "Chat h lib invalid decoded c s = Some (Done resp, s')" and "rs_status resp = 200"
    and "check_chat invalid decoded = Inr req0" and "prepare (hc_config_dir h) lib req0 s = (req, s1)"
    and "cache_lookup h lib req s1 = None"
  shows "\<exists>r r0 attempts w'. run_chat h lib req (hs_world s) = Some (Inr (Inr r0, attempts), w') \<and>
    rs_body resp = chat_response_json r \<and> resp_provider r = resp_provider r0"
proof -
  have w: "hs_world s1 = hs_world s" using assms(4) by (auto simp: prepare_def split: prod.splits)
  have "\<not> opt_stream (req_options req0)"
    using assms(1-3) by (auto simp: Chat_def error_response_def)
  then have a: "answer_chat h lib c req s1 = Some (Done resp, s')"
    using assms(1,3-5) by (simp add: Chat_def)
  show ?thesis
    using a assms(2) w
    by (auto simp: answer_chat_def Let_def logged_def bad_gateway_def json_response_def stamp_def run_chat_def error_response_def
        split: option.splits sum.splits prod.splits if_splits)
qed

text \<open>The handler of the server that was started, and its registry.\<close>

lemma started_handler:
  assumes "runServe ci pl sl logs db = (Inr d, logs', db')"
  shows "hc_registry (sr_chat (New d)) = dp_Registry d" and "hc_config_dir (sr_chat (New d)) = dp_ConfigDir d"
    and "well_named (dp_Config d) (dp_Registry d)"
proof -
  show "hc_registry (sr_chat (New d)) = dp_Registry d" "hc_config_dir (sr_chat (New d)) = dp_ConfigDir d"
    by (simp_all add: New_def Let_def chat_handler_of_def)
  obtain cfg logs1 keys where "d = serve_deps ci pl sl cfg logs1 keys"
    using assms by (auto simp: runServe_def split: sum.splits prod.splits option.splits)
  then show "well_named (dp_Config d) (dp_Registry d)"
    using registered_named [OF well_named_New] by (simp add: serve_deps_def Let_def)
qed

lemma enabled_provider_pc: "enabled_provider cfg n \<noteq> None \<Longrightarrow> \<exists>pc. cfg_providers cfg n = Some pc \<and> pc_enabled pc"
  by (auto simp: enabled_provider_def split: option.splits if_splits)

lemma adapter_answers:
  assumes "env_chat env = Provider_Chat sd" and "well_named cfg reg" and "answered_by env reg name resp"
  shows "resp_provider resp = name \<and> enabled_provider cfg name \<noteq> None"
proof -
  obtain p ctx req w w' resp0 where a: "reg_providers reg name = Some p"
      "Provider_Chat sd p ctx req w = Some (Inr resp0, w')" "resp_provider resp = resp_provider resp0"
    using assms(1,3) by (auto simp: answered_by_def)
  have "fresh_answer (Provider_Name p) resp0" using a(2) by (rule Provider_Chat_fresh)
  then show ?thesis using a assms(2) by (auto simp: fresh_answer_def well_named_def)
qed

subsection \<open>A gateway with Ollama\<close>

definition ollama_config :: Config where
  "ollama_config = claude_config\<lparr>cfg_providers := [''ollama'' \<mapsto> \<lparr>pc_enabled = True, pc_location = [], pc_base_url = []\<rparr>]\<rparr>"

definition ollama_cli :: cli_env where
  "ollama_cli = (sample_cli [])\<lparr>ci_config := (\<lambda>_. Inr ollama_config)\<rparr>"

definition ollama_deps :: "string provider Deps" where
  "ollama_deps = serve_deps ollama_cli sample_pl sample_sl (config_defaults ollama_config) empty_logs None"

definition talking_sdk :: "(string, 'w) sdk" where
  "talking_sdk = \<lparr>sd_claude = (\<lambda>_ _ _ w. Some (Inl ''status: 401'', w)),
     sd_openai = (\<lambda>_ _ params w. Some (Inr \<lparr>oc_model = op_model params, oc_choices = [''hi''],
       oc_usage = \<lparr>ou_prompt = 5, ou_completion = 2, ou_total = 7\<rparr>\<rparr>, w)),
     sd_gemini = (\<lambda>_ _ _ _ _ w. Some (Inl ''status: 429'', w)),
     sd_claude_stream = (\<lambda>_ _ _ _. ([], None)), sd_openai_stream = (\<lambda>_ _ _ _. ([], None)), sd_gemini_stream = (\<lambda>_ _ _ _ _ _. []),
     sd_float32 = id, sd_tags = (\<lambda>_. Inr [''llama3'']), sd_get = (\<lambda>_ _ w. Some (None, w))\<rparr>"

definition adapter_lib :: "(string provider, mem_redis) chat_lib" where
  "adapter_lib = \<lparr>li_env = \<lparr>env_pick = (\<lambda>_ _. PickSend), env_wait = (\<lambda>_ _. None), env_chat = Provider_Chat talking_sdk\<rparr>,
     li_sched = [], li_ctx = Background, li_prompt = sample_prompt_env, li_read = (\<lambda>_. Inl ''absent''),
     li_project_yaml = (\<lambda>_. Inl ''bad''), li_float = id, li_order1 = [], li_order2 = [], li_cache = sample_digest,
     li_redis = mem_redis, li_options_json = (\<lambda>_. Inr ''{}'')\<rparr>"

definition ollama_state :: "(string provider, mem_redis) chat_state" where
  "ollama_state = \<lparr>hs_world = \<lparr>w_router = NewRouter (dp_Registry ollama_deps) None, w_now = 0\<rparr>, hs_prompts = None, hs_redis = [],
     hs_writer = None\<rparr>"

lemma ollama_starts: "runServe ollama_cli sample_pl sample_sl empty_logs no_keys = (Inr ollama_deps, empty_logs, no_keys)"
proof -
  have sl: "sl_logs_db sample_sl = open_db" by (simp add: sample_sl_def)
  obtain dsn where dsn: "OpenSQLite (open_db :: logs_table db_lib) p = Inr (dsn p)" for p
    by (simp add: OpenSQLite_def open_db_def)
  have keys: "serve_keys ollama_cli cfg no_keys = (Inr None, no_keys)" for cfg
    by (simp add: serve_keys_def ollama_cli_def sample_cli_def)
  have cfg: "load_config ollama_cli = Inr (config_defaults ollama_config)"
    using sample_cli_config [of "[]"]
    by (auto simp: load_config_def ollama_cli_def Load_def config_dir_def sample_cli_def Let_def split: sum.splits if_splits)
  show ?thesis
    unfolding runServe_def sl cfg by (simp add: dsn open_db_migrates keys ollama_deps_def)
qed

lemma ollama_registered:
  "Registry_Get (dp_Registry ollama_deps) ''ollama'' =
     Inr (OllamaProvider (pl_ollama sample_pl ''ollama'' ''http://localhost:11434/v1/'') ''http://localhost:11434/v1/'')"
proof -
  have "enabled_provider (config_defaults ollama_config) ''ollama'' = Some \<lparr>pc_enabled = True, pc_location = [], pc_base_url = []\<rparr>"
    by (simp add: enabled_provider_def config_defaults_def ollama_config_def Let_def)
  then have "reg_providers (registerProviders ollama_cli sample_pl (config_defaults ollama_config) None NewRegistry) ''ollama'' =
      Some (OllamaProvider (pl_ollama sample_pl ''ollama'' ''http://localhost:11434/v1/'') ''http://localhost:11434/v1/'')"
    unfolding registerProviders_steps by (simp add: ollama_step_at)
  then show ?thesis by (simp add: Registry_Get_def ollama_deps_def serve_deps_def Let_def)
qed

lemma ollama_handler:
  "hc_registry (sr_chat (New ollama_deps)) = dp_Registry ollama_deps" "\<not> hc_router (sr_chat (New ollama_deps))"
  "hc_cache (sr_chat (New ollama_deps)) = None" "hc_config_dir (sr_chat (New ollama_deps)) = dp_ConfigDir ollama_deps"
  by (simp_all add: New_def Let_def chat_handler_of_def)
    (simp_all add: ollama_deps_def serve_deps_def Let_def sample_sl_def config_defaults_def ollama_config_def claude_config_def sample_config_def or_default_def)

lemma ollama_prepared:
  "check_chat ''bad'' (Inr (short_request ''ollama'' ''m'')) = Inr (short_request ''ollama'' ''m'')"
  "prepare dir adapter_lib (short_request ''ollama'' ''m'') ollama_state = (short_request ''ollama'' ''m'', ollama_state)"
  by (simp_all add: check_chat_def bind_chat_def ValidateOptions_def short_request_def Let_def prepare_def with_prompt_def
      with_project_fallback_def ollama_state_def)

lemma ollama_miss: "cache_lookup (sr_chat (New ollama_deps)) adapter_lib req s = None"
  by (simp add: cache_lookup_def can_cache_def ollama_handler)

lemma ollama_answers:
  "\<exists>resp s'. Chat (sr_chat (New ollama_deps)) adapter_lib ''bad'' (Inr (short_request ''ollama'' ''m'')) chat_gin ollama_state
     = Some (Done resp, s') \<and> rs_status resp = 200"
proof -
  have "run_chat (sr_chat (New ollama_deps)) adapter_lib (short_request ''ollama'' ''m'') (hs_world ollama_state) =
      Some (Inr (Inr (openai_answer ''ollama'' \<lparr>oc_model = ''m'', oc_choices = [''hi''],
        oc_usage = \<lparr>ou_prompt = 5, ou_completion = 2, ou_total = 7\<rparr>\<rparr>), []), hs_world ollama_state)"
    by (simp add: run_chat_def ollama_handler short_request_def adapter_lib_def Provider_Chat_def Ollama_Chat_def answered_def
        talking_sdk_def openai_request_def ollama_registered)
  then show ?thesis
    using ollama_prepared
    by (simp add: Chat_def ollama_handler ollama_miss answer_chat_def Let_def logged_def write_log_def write_entry_def
        ollama_state_def short_request_def save_answer_def)
qed

lemma adapter_lib_keeps: "keeps_registry (li_env adapter_lib)"
proof -
  have "w' = w" if "Provider_Chat talking_sdk p ctx req w = Some (r, w')" for p :: "string provider" and ctx req w w' r
    using that
    by (cases p) (auto simp: Provider_Chat_def Claude_Chat_def GPT_Chat_def Gemini_Chat_def Perplexity_Chat_def Ollama_Chat_def
        answered_def talking_sdk_def split: prod.splits)
  then show ?thesis unfolding keeps_registry_def adapter_lib_def by fastforce
qed

subsection \<open>A client that has logged in\<close>

lemma logged_in_handler:
  "sr_chat (New (sample_deps False)) = \<lparr>hc_registry = r_registry sample_router, hc_router = False, hc_pricing = None,
     hc_logging = None, hc_cache = None, hc_config_dir = []\<rparr>"
  by (simp add: New_def Let_def chat_handler_of_def sample_deps_def)

lemma logged_in_answer:
  "\<exists>resp s'. Chat (sr_chat (New (sample_deps False))) sample_chat_lib ''bad'' (Inr (short_request ''gpt'' ''m'')) c sample_chat_state
    = Some (Done resp, s') \<and> rs_status resp = 200"
proof -
  have t: "truncate_text ''hello'' 200 = Some ''hello''" "truncate_text ''hi'' 200 = Some ''hi''"
    by (simp_all add: truncate_text_def runes.simps utf8_first_def)
  have r: "run_chat (sr_chat (New (sample_deps False))) sample_chat_lib (short_request ''gpt'' ''m'') sample_world
      = Some (Inr (Inr (sample_response ''gpt''), []), sample_world\<lparr>w_now := second\<rparr>)"
    using sample_chat_runs(2) by (simp add: run_chat_def logged_in_handler sample_chat_def)
  have p: "prepare [] sample_chat_lib (short_request ''gpt'' ''m'') sample_chat_state = (short_request ''gpt'' ''m'', sample_chat_state)"
    using short_request_prepared by (simp add: sample_chat_def)
  have "cache_lookup (sr_chat (New (sample_deps False))) sample_chat_lib req s = None" for req s
    by (simp add: cache_lookup_def can_cache_def logged_in_handler)
  then show ?thesis
    using short_request_checked r p t
    by (simp add: Chat_def answer_chat_def Let_def logged_def write_log_def write_entry_def chat_log_def base_log_def
        previewText_def short_request_def logged_in_handler sample_chat_state_def loggingPreviewLengths_def stamp_def
        sample_response_def log_write_def NewRequestLogWriter_def save_answer_def split: option.split)
qed

lemma logged_in_routed: "routed (New (sample_deps False)) (Some (1, \<lambda>_. []))"
  unfolding routed_def by (subst sample_routes) simp

lemma logged_in_outside:
  "\<not> in_trusted_net (sx_net sample_sx) (ac_trusted_cidrs (cfg_auth (dp_Config (sample_deps False)))) (gn_client_ip login)"
  by (simp add: sample_sx_def in_trusted_net_def no_nets_def sample_auth_config)

end
