(* ===== verification/Spec2Isabelle.thy ===== *)
theory Spec2Isabelle
  imports Fastest Prompt Usage Admin KeyAdmin Chat Streaming JobQueue Batch Server
    AdapterStreams Database KeyCommands Startup Gateway
begin

text \<open>
  A verification library for ezai, a gateway that gives several AI providers one HTTP interface.  It models
  the Go program under \<^verbatim>\<open>src/\<close>: the command \<^verbatim>\<open>cmd/ezai\<close> and the packages under \<^verbatim>\<open>internal/\<close>.

  \<^bold>\<open>The program.\<close>  \<^verbatim>\<open>ezai serve\<close> loads YAML configuration, opens a database of request logs and, if an
  encryption key is set, a database of provider and client keys, registers the adapters of the enabled
  providers and starts an HTTP server.  A request passes a chain of middleware (trusted networks, client
  keys, rate limit) and reaches a handler.  The chat handler completes the request with prompt files and
  project settings, looks into the response cache in Redis, and lets the router choose a provider: every try
  asks the provider's circuit breaker, takes a slot of its semaphore, calls it, records the outcome and gives
  the slot back; targets are tried one after another or all at once.  The answer is priced, logged through a
  bounded queue to the log database, cached and sent.  Streams take the same way but for the cache, and send
  the provider's chunks as server-sent events.  Batch jobs wait in Redis for a pool of workers that call the
  router.  Administrative handlers change provider keys, client keys and old logs; other commands of the
  program manage the keys from a terminal.

  \<^bold>\<open>The theories\<close>, each with the source it models and the definitions to start from; names are the source's.

  Foundations.  \<open>Prelude\<close>: Go integers, package \<^verbatim>\<open>strings\<close>, lemmas on lists and options.  \<open>Services\<close>: Redis
  (\<open>redis_ok\<close> states its promises by a view of keys over time) and the text format of times.  \<open>Http\<close>: what
  is used of gin, JSON and \<^verbatim>\<open>strconv\<close>.  \<open>Paths\<close>: \<^verbatim>\<open>filepath.Join\<close> and the guard on file names.
  \<open>Requests\<close>: \<^verbatim>\<open>internal/model\<close>.  \<open>Config\<close>, \<open>Pricing\<close>, \<open>Prompt\<close>: \<^verbatim>\<open>internal/config\<close>.

  Routing.  \<open>CircuitBreaker\<close> and \<open>Fallback\<close>: \<^verbatim>\<open>router/circuitbreaker.go\<close>, \<^verbatim>\<open>router/fallback.go\<close>.  \<open>Semaphore\<close>:
  \<^verbatim>\<open>internal/concurrency\<close>.  \<open>Registry\<close>: \<^verbatim>\<open>provider/registry.go\<close>.  \<open>Router\<close>: \<^verbatim>\<open>router/router.go\<close> seen from one
  goroutine (\<open>tryProvider\<close>, \<open>executeSequential\<close>), with state \<open>world\<close>, the router and the clock.  \<open>Workers\<close>: the
  same try in seven atomic steps (\<open>worker_step\<close>) taken by any number of goroutines in any order (\<open>sys_step\<close>).
  \<open>Fastest\<close>: the concurrent strategy and \<open>Execute\<close>, driven by a schedule.

  Providers.  \<open>Adapters\<close>: requests, answers and model lists of the five adapters of \<^verbatim>\<open>internal/provider\<close>.
  \<open>AdapterStreams\<close>: their streaming goroutines as a step relation over a channel (\<open>gen_turn\<close>).

  Keys.  \<open>Crypto\<close>: \<^verbatim>\<open>internal/crypto\<close>.  \<open>KeyStore\<close>, \<open>AuditTrail\<close>, \<open>ClientKey\<close>: the tables of
  \<^verbatim>\<open>store/keystore.go\<close>, \<^verbatim>\<open>audit.go\<close>, \<^verbatim>\<open>clientkey.go\<close>.  \<open>KeyService\<close>: \<^verbatim>\<open>service/clientkey_validator.go\<close>, as a
  function (\<open>Validate\<close>) and in steps (\<open>validate_step\<close>).  \<open>Admin\<close> and \<open>KeyAdmin\<close>: the handlers \<^verbatim>\<open>admin.go\<close>,
  \<^verbatim>\<open>clientkey_admin.go\<close> and \<^verbatim>\<open>clientkey_rotate.go\<close>.

  Requests.  \<open>Middleware\<close>: \<^verbatim>\<open>internal/middleware\<close>.  \<open>Cache\<close>: \<^verbatim>\<open>internal/cache\<close>.  \<open>Logs\<close>: \<^verbatim>\<open>store/requestlog.go\<close>,
  writer and reader.  \<open>Usage\<close>: \<^verbatim>\<open>store/usage.go\<close>, \<^verbatim>\<open>usage_admin.go\<close> and their handlers.  \<open>Chat\<close> and \<open>Streaming\<close>:
  \<^verbatim>\<open>handler/chat.go\<close> and \<^verbatim>\<open>stream.go\<close>, with state \<open>chat_state\<close> (world, prompt cache, Redis, log writer).
  \<open>JobStore\<close>, \<open>JobQueue\<close>: \<^verbatim>\<open>internal/queue\<close>.  \<open>Batch\<close>: \<^verbatim>\<open>handler/batch.go\<close>, \<^verbatim>\<open>models.go\<close>, \<^verbatim>\<open>health.go\<close>.

  The whole.  \<open>Server\<close>: \<^verbatim>\<open>internal/server\<close>, routes, chains (\<open>dispatch\<close>) and shutdown.  \<open>Database\<close>:
  \<^verbatim>\<open>store/sqlite.go\<close> and \<^verbatim>\<open>encrypted.go\<close>.  \<open>KeyCommands\<close> and \<open>Startup\<close>: \<^verbatim>\<open>cmd/ezai/main.go\<close>.  \<open>Gateway\<close> and this theory
  compose them: one request from the start of the program to its log.

  \<^bold>\<open>How the code is rendered.\<close>  A structure is a record, a pointer an option, a fallible call a sum type with
  the error's text; error texts are the code's bytes.  A call that never returns is \<open>None\<close>, a panic the value
  \<open>Panicked\<close>.  A mutex makes a method one step; code that other goroutines can interrupt is cut at its
  accesses to shared state.  Code outside \<^verbatim>\<open>src/\<close> is an argument: SDKs, Redis, SQLite's functions, ciphers and
  hashes, JSON, YAML, the clock.  Their documented behaviour appears as a named hypothesis
  (\<open>redis_ok\<close>, \<open>key_env_ok\<close>, \<open>time_format_ok\<close> and others), and every property that has one is applied to a
  concrete instance, such as Redis in memory.

  \<^bold>\<open>Interfaces.\<close>  \<open>slot_pool\<close> (theory \<open>Semaphore\<close>): taking and giving back slots; its bound on holders and its
  freedom from blocking hold for the semaphore (\<open>sempool\<close>) and carry the lemmas on workers.  \<open>key_validator\<close>
  (\<open>Middleware\<close>, continued in \<open>Server\<close>): what the authentication needs of a validator; interpreted by the
  key service (\<open>keysvc\<close>).  \<open>work_queue\<close> (\<open>JobStore\<close>): first in, first out; interpreted by the Redis list
  (\<open>jobq\<close>).  \<open>chunk_source\<close> (\<open>AdapterStreams\<close>): what an adapter does with an event; its lemmas on channels
  hold for the three loops in the code (\<open>claude_gen\<close>, \<open>openai_gen\<close>, \<open>gemini_gen\<close>).

  \<^bold>\<open>What the lemmas show.\<close>  Invariants over every interleaving: slots and calls in flight, log queue, job
  queue, stream channels.  Termination: a try has at most seven steps, the concurrent strategy takes at most
  eight per target under every schedule, a batch job is executed at most four times with at most seven
  seconds of waiting, a stream's goroutine can close its channel after its context has ended.  Refinement:
  the breaker by a machine of three states, the prompt cache by reading the files.  Round trips: encryption,
  saved jobs, keys from the command line to the registered provider, secrets from issue to authentication.
  Protection: routes, private jobs, own usage, guarded deletion.  Errors: theorems that exhibit what the
  code gets wrong, such as the race between a validation and a revocation, jobs lost at the stop of the
  workers, and rotation of provider keys.

  \<^bold>\<open>Bounds.\<close>  No definition runs out of fuel.  Recursion is on lists or on a decreasing measure; \<open>drain\<close> takes
  one turn more than the queue has logs, and \<open>run_attempts\<close> the number of tries the code allows (\<open>maxRetries\<close>
  and one).  Schedules are lists of any length, and the step relations are unbounded.

  \<^bold>\<open>What is not modelled.\<close>  The middleware that logs requests and limits body sizes, log lines, the usage text of
  the command, the signal handler and the listening socket, which have no effect on the state of the model;
  the matching of paths to routes, which is an argument of \<open>dispatch\<close>; the inside of SDKs, Redis and SQLite.
  \<^verbatim>\<open>strings.TrimSpace\<close> trims ASCII blanks only, sums of SQLite do not overflow, and RFC 3339 is assumed to
  round trip for every time, where Go promises it for the years 0 to 9999.
\<close>

section \<open>Properties of the whole gateway\<close>

text \<open>
  An answer comes from a provider that is enabled and was asked for.  In a gateway that has started, with the
  adapters as providers, a chat answer with status 200 that was not stored before names a provider the
  configuration enables, and it is the one the request names or one of its fallbacks, under every policy.
\<close>

theorem answers_come_from_enabled_providers:
  assumes "runServe ci pl sl logs db = (Inr d, logs', db')"
    and "env_chat (li_env lib) = Provider_Chat sd" and "keeps_registry (li_env lib)"
    and "r_registry (w_router (hs_world s)) = dp_Registry d"
    and "check_chat invalid decoded = Inr req0" and "prepare (dp_ConfigDir d) lib req0 s = (req, s1)"
    and "answers_real (li_env lib) (dp_Registry d) (buildTargets req) (li_sched lib)" and "cache_lookup (sr_chat (New d)) lib req s1 = None"
    and "Chat (sr_chat (New d)) lib invalid decoded c s = Some (Done resp, s')" and "rs_status resp = 200"
  shows "\<exists>t \<in> set (buildTargets req). \<exists>r pc. rs_body resp = chat_response_json r \<and> resp_provider r = ft_provider t \<and>
    cfg_providers (dp_Config d) (ft_provider t) = Some pc \<and> pc_enabled pc"
proof -
  note h = started_handler [OF assms(1)]
  obtain r r0 attempts w' where r: "run_chat (sr_chat (New d)) lib req (hs_world s) = Some (Inr (Inr r0, attempts), w')"
      "rs_body resp = chat_response_json r" "resp_provider r = resp_provider r0"
    using chat_answer_source [OF assms(9,10,5)] assms(6,8) h(2) by metis
  obtain t where "t \<in> set (buildTargets req)" "answered_by (li_env lib) (dp_Registry d) (ft_provider t) r0"
    using run_chat_answer [OF assms(3) _ r(1)] assms(4,7) h(1) by metis
  then show ?thesis using adapter_answers [OF assms(2) h(3)] enabled_provider_pc r by metis
qed

theorem answers_come_from_enabled_providers_witness:
  "\<exists>resp s' r. runServe ollama_cli sample_pl sample_sl empty_logs no_keys = (Inr ollama_deps, empty_logs, no_keys) \<and>
     Chat (sr_chat (New ollama_deps)) adapter_lib ''bad'' (Inr (short_request ''ollama'' ''m'')) chat_gin ollama_state
       = Some (Done resp, s') \<and> rs_status resp = 200 \<and> rs_body resp = chat_response_json r \<and> resp_provider r = ''ollama''"
proof -
  obtain resp s' where a: "Chat (sr_chat (New ollama_deps)) adapter_lib ''bad'' (Inr (short_request ''ollama'' ''m'')) chat_gin ollama_state
      = Some (Done resp, s')" "rs_status resp = 200"
    using ollama_answers by blast
  have "\<exists>t \<in> set (buildTargets (short_request ''ollama'' ''m'')). \<exists>r pc. rs_body resp = chat_response_json r \<and>
      resp_provider r = ft_provider t \<and> cfg_providers (dp_Config ollama_deps) (ft_provider t) = Some pc \<and> pc_enabled pc"
    by (rule answers_come_from_enabled_providers [OF ollama_starts _ _ _ ollama_prepared(1) ollama_prepared(2) _ ollama_miss a])
      (simp_all add: adapter_lib_keeps, simp_all add: adapter_lib_def ollama_state_def NewRouter_def answers_real_def)
  then show ?thesis using ollama_starts a by (auto simp: buildTargets_def short_request_def)
qed

text \<open>
  Requests are charged to the client whose secret was checked, and to nobody else.  If a chat request from
  outside the trusted networks is answered with another status than 400, its log carries the id of an active
  client key whose secret the request has shown; and once that log is in the table, whatever the database
  answered, the usage any other client can see is the same as before.
\<close>

theorem requests_are_charged_to_their_client:
  assumes "service_ok sv" and "sx_validate sx = service_validate"
    and "dispatch sx (New d) found c (l, sv) = (Reached EpChat c', st')" and "routed (New d) found"
    and "\<not> in_trusted_net (sx_net sx) (ac_trusted_cidrs (cfg_auth (dp_Config d))) (gn_client_ip c)"
    and "Chat (sr_chat (New d)) lib invalid decoded c' s = Some (Done resp, s')" and "hs_writer s = Some w"
    and "rs_status resp \<noteq> 400"
  shows "\<exists>e w' row. log_write e w = Some w' \<and> hs_writer s' = Some w' \<and> lg_client_id e = gn_header c ''X-Client-ID'' \<and>
    find_key (ks_store (sv_state sv)) (lg_client_id e) = Some row \<and> ck_is_active row \<and>
    CompareSecretHash (ke_hashes (sv_env sv)) (gn_header c ''X-Client-Secret'') (ck_secret_hash row) \<and>
    (\<forall>c2. \<not> IsTrustedNet c2 \<and> GetClientID c2 \<notin> {[], lg_client_id e} \<longrightarrow>
       UsageHandler_Usage sq fail valid_date c2 (snd (log_insert lj tf db_err now e table)) =
       UsageHandler_Usage sq fail valid_date c2 table)"
proof -
  have admitted: "GetClientID c' = gn_header c ''X-Client-ID''"
      "\<exists>row. find_key (ks_store (sv_state sv)) (gn_header c ''X-Client-ID'') = Some row \<and> ck_is_active row \<and>
         CompareSecretHash (ke_hashes (sv_env sv)) (gn_header c ''X-Client-Secret'') (ck_secret_hash row)"
    using keysvc.dispatch_admits [OF assms(1-4)] assms(5) by (auto simp: service_genuine_def genuine_key_iff)
  obtain e w' where e: "log_write e w = Some w'" "hs_writer s' = Some w'" "lg_client_id e = GetClientID c'"
    using chat_logged [OF assms(6,7)] assms(8) by (auto simp: logged_answer_def)
  have "UsageHandler_Usage sq fail valid_date c2 (snd (log_insert lj tf db_err now e table)) =
      UsageHandler_Usage sq fail valid_date c2 table"
    if "\<not> IsTrustedNet c2" "GetClientID c2 \<notin> {[], lg_client_id e}" for c2
    by (rule own_rows_decide) (use that in \<open>auto simp: log_insert_def log_row_of_def Let_def split: option.split\<close>)
  then show ?thesis using admitted e by metis
qed

theorem requests_are_charged_to_their_client_witness:
  "\<exists>c' st' resp s' e. dispatch sample_sx (New (sample_deps False)) (Some (1, \<lambda>_. [])) login ((), sample_sv) = (Reached EpChat c', st') \<and>
     Chat (sr_chat (New (sample_deps False))) sample_chat_lib ''bad'' (Inr (short_request ''gpt'' ''m'')) c' sample_chat_state
       = Some (Done resp, s') \<and> rs_status resp = 200 \<and> lg_client_id e = ''app'' \<and>
     log_write e (NewRequestLogWriter 2 empty_logs) = hs_writer s'"
proof -
  obtain c' st' where d: "dispatch sample_sx (New (sample_deps False)) (Some (1, \<lambda>_. [])) login ((), sample_sv) = (Reached EpChat c', st')"
    using sample_reaches_chat by blast
  obtain resp s' where a: "Chat (sr_chat (New (sample_deps False))) sample_chat_lib ''bad'' (Inr (short_request ''gpt'' ''m'')) c' sample_chat_state
      = Some (Done resp, s')" "rs_status resp = 200"
    using logged_in_answer by blast
  have "sx_validate sample_sx = service_validate" "hs_writer sample_chat_state = Some (NewRequestLogWriter 2 empty_logs)"
    "rs_status resp \<noteq> 400" "gn_header login ''X-Client-ID'' = ''app''"
    using a(2) by (simp_all add: sample_sx_def sample_chat_state_def login_def)
  then show ?thesis
    using requests_are_charged_to_their_client [OF sample_service_ok _ d logged_in_routed logged_in_outside a(1)] d a by metis
qed

end
